(* ===== verification/Prelude.thy ===== *)
theory Prelude
  imports Main "HOL-Library.Word"
begin

text \<open>
  Shared vocabulary of the development: Go's byte slices, strings and sized integers,
  Go errors as values, decimal and hexadecimal text, little-endian integers, and the
  generic facts on lists and words that the component theories use.

  A Go \<open>string\<close> is a \<^typ>\<open>string\<close> (one \<^typ>\<open>char\<close> per byte), a \<open>[]byte\<close> is
  a list of 8-bit words, and a \<open>[]byte\<close> whose nil value the code distinguishes from
  the empty slice is a \<^typ>\<open>8 word list option\<close>.
\<close>

named_theorems sfn_defs \<open>definitions of small accessors and constructors, to unfold\<close>
named_theorems frame_simps \<open>fields an operation leaves alone\<close>

type_synonym byte = "8 word"
type_synonym bytes = "8 word list"
type_synonym u32 = "32 word"
type_synonym u64 = "64 word"

section \<open>Go errors\<close>

text \<open>
  An \<open>error\<close> is its text; \<open>fmt.Errorf\<close> with \<open>%w\<close> keeps the wrapped error
  reachable. A function that returns \<open>(T, error)\<close> is modelled by \<open>'a res\<close>.
\<close>

datatype err = Err string | Wrap string err

type_synonym 'a res = "err + 'a"

fun err_root :: "err \<Rightarrow> err" where
  "err_root (Err m) = Err m"
| "err_root (Wrap m e) = err_root e"

section \<open>Bytes and characters\<close>

definition byte_of_char :: "char \<Rightarrow> byte" where
  "byte_of_char c = of_nat (of_char c)"

definition char_of_byte :: "byte \<Rightarrow> char" where
  "char_of_byte b = char_of (unat b)"

text \<open>The conversions \<open>[]byte(s)\<close> and \<open>string(b)\<close>.\<close>

definition bytes_of :: "string \<Rightarrow> bytes" where
  "bytes_of s = map byte_of_char s"

definition string_of :: "bytes \<Rightarrow> string" where
  "string_of b = map char_of_byte b"

lemma char_of_byte_of_char [simp]: "char_of_byte (byte_of_char c) = c"
proof -
  have "(of_char c :: nat) < 256" by simp
  then have "unat (of_nat (of_char c) :: byte) = of_char c"
    by (simp add: unat_of_nat)
  then show ?thesis by (simp add: char_of_byte_def byte_of_char_def)
qed

lemma unat_byte_less [simp]: "unat (b :: byte) < 256"
  using unsigned_less [of b, where ?'a = nat] by simp

lemma unat_byte_div [simp]: "unat (b :: byte) div 16 < 16"
  using unat_byte_less [of b] by (simp add: div_less_iff_less_mult del: unat_byte_less)

lemma byte_of_char_of_byte [simp]: "byte_of_char (char_of_byte b) = b"
  by (simp add: char_of_byte_def byte_of_char_def)

lemma string_of_bytes_of [simp]: "string_of (bytes_of s) = s"
  by (simp add: string_of_def bytes_of_def comp_def)

lemma bytes_of_string_of [simp]: "bytes_of (string_of b) = b"
  by (simp add: string_of_def bytes_of_def comp_def)

lemma bytes_of_inject [simp]: "bytes_of s = bytes_of t \<longleftrightarrow> s = t"
  by (metis string_of_bytes_of)

lemma length_bytes_of [simp]: "length (bytes_of s) = length s"
  by (simp add: bytes_of_def)

lemma bytes_of_append [simp]: "bytes_of (s @ t) = bytes_of s @ bytes_of t"
  by (simp add: bytes_of_def)

lemma bytes_of_Nil [simp]: "bytes_of [] = []"
  by (simp add: bytes_of_def)

text \<open>A nil slice written to a hash contributes nothing.\<close>

definition opt_bytes :: "bytes option \<Rightarrow> bytes" where
  "opt_bytes b = (case b of None \<Rightarrow> [] | Some x \<Rightarrow> x)"

lemma opt_bytes_simps [simp]: "opt_bytes None = []" "opt_bytes (Some x) = x"
  by (simp_all add: opt_bytes_def)

section \<open>Little-endian integers\<close>

text \<open>\<open>binary.LittleEndian.PutUint64\<close>: byte \<open>i\<close> holds bits \<open>8*i .. 8*i+7\<close>.\<close>

definition le64 :: "u64 \<Rightarrow> bytes" where
  "le64 w = map (\<lambda>i. ucast (drop_bit (8 * i) w)) [0..<8]"

lemma length_le64 [simp]: "length (le64 w) = 8"
  by (simp add: le64_def)

lemma le64_bit: "n < 64 \<Longrightarrow> bit w n = bit (le64 w ! (n div 8)) (n mod 8)"
  by (simp add: le64_def bit_simps nth_upt div_less_iff_less_mult)

lemma le64_inject [simp]: "le64 v = le64 w \<longleftrightarrow> v = w"
proof
  assume eq: "le64 v = le64 w"
  show "v = w"
  proof (rule bit_word_eqI)
    fix n assume "n < LENGTH(64)"
    then show "bit v n = bit w n" using eq le64_bit [of n v] le64_bit [of n w] by simp
  qed
qed simp

section \<open>Decimal text\<close>

definition digit_char :: "nat \<Rightarrow> char" where
  "digit_char d = char_of (48 + d)"

fun dec_nat :: "nat \<Rightarrow> string" where
  "dec_nat n = (if n < 10 then [digit_char n] else dec_nat (n div 10) @ [digit_char (n mod 10)])"

declare dec_nat.simps [simp del]

definition dec_int :: "int \<Rightarrow> string" where
  "dec_int i = (if i < 0 then ''-'' @ dec_nat (nat (- i)) else dec_nat (nat i))"

text \<open>Left padding with zeros, the \<open>%0nd\<close> of \<open>fmt\<close>.\<close>

definition pad0 :: "nat \<Rightarrow> string \<Rightarrow> string" where
  "pad0 n s = replicate (n - length s) (CHR ''0'') @ s"

definition is_digit :: "char \<Rightarrow> bool" where
  "is_digit c \<longleftrightarrow> 48 \<le> (of_char c :: nat) \<and> (of_char c :: nat) \<le> 57"

definition digit_val :: "char \<Rightarrow> nat" where
  "digit_val c = of_char c - 48"

definition dec_val :: "string \<Rightarrow> nat" where
  "dec_val s = foldl (\<lambda>a c. 10 * a + digit_val c) 0 s"

lemma of_char_char_of_small: "n < 256 \<Longrightarrow> (of_char (char_of n :: char) :: nat) = n"
  by simp

lemma is_digit_digit_char [simp]: "d < 10 \<Longrightarrow> is_digit (digit_char d)"
  by (simp add: is_digit_def digit_char_def)

lemma digit_val_digit_char [simp]: "d < 10 \<Longrightarrow> digit_val (digit_char d) = d"
  by (simp add: digit_val_def digit_char_def)

lemma dec_val_snoc [simp]: "dec_val (s @ [c]) = 10 * dec_val s + digit_val c"
  by (simp add: dec_val_def)

lemma dec_val_dec_nat [simp]: "dec_val (dec_nat n) = n"
proof (induction n rule: dec_nat.induct)
  case (1 n)
  show ?case
  proof (cases "n < 10")
    case True
    then show ?thesis by (simp add: dec_nat.simps [of n] dec_val_def)
  next
    case False
    with 1 show ?thesis by (simp add: dec_nat.simps [of n])
  qed
qed

lemma dec_nat_digits: "c \<in> set (dec_nat n) \<Longrightarrow> is_digit c"
proof (induction n rule: dec_nat.induct)
  case (1 n)
  then show ?case by (cases "n < 10") (auto simp: dec_nat.simps [of n])
qed

lemma dec_nat_nonempty [simp]: "dec_nat n \<noteq> []"
  by (subst dec_nat.simps) simp

lemma dec_nat_inject [simp]: "dec_nat m = dec_nat n \<longleftrightarrow> m = n"
  by (metis dec_val_dec_nat)

lemma length_dec_nat_pos: "0 < length (dec_nat n)"
  by simp

section \<open>Hexadecimal text\<close>

text \<open>\<open>hex.EncodeToString\<close>, and \<open>fmt.Sprintf("%x", b)\<close> on a byte slice.\<close>

definition hex_digit :: "nat \<Rightarrow> char" where
  "hex_digit d = (if d < 10 then char_of (48 + d) else char_of (87 + d))"

definition hex_byte :: "byte \<Rightarrow> string" where
  "hex_byte b = [hex_digit (unat b div 16), hex_digit (unat b mod 16)]"

definition hex_encode :: "bytes \<Rightarrow> string" where
  "hex_encode b = concat (map hex_byte b)"

text \<open>\<open>hex.DecodeString\<close>: both cases of the letters, an error on another character
  or on an odd length.\<close>

definition from_hex_char :: "char \<Rightarrow> nat option" where
  "from_hex_char c =
     (let n = of_char c in
      if 48 \<le> n \<and> n \<le> 57 then Some (n - 48)
      else if 97 \<le> n \<and> n \<le> 102 then Some (n - 87)
      else if 65 \<le> n \<and> n \<le> 70 then Some (n - 55)
      else None)"

fun hex_decode :: "string \<Rightarrow> bytes res" where
  "hex_decode [] = Inr []"
| "hex_decode [c] =
     (case from_hex_char c of
        None \<Rightarrow> Inl (Err ''encoding/hex: invalid byte'')
      | Some _ \<Rightarrow> Inl (Err ''encoding/hex: odd length hex string''))"
| "hex_decode (a # b # s) =
     (case (from_hex_char a, from_hex_char b) of
        (Some x, Some y) \<Rightarrow>
          (case hex_decode s of Inl e \<Rightarrow> Inl e | Inr r \<Rightarrow> Inr (of_nat (16 * x + y) # r))
      | _ \<Rightarrow> Inl (Err ''encoding/hex: invalid byte''))"

lemma from_hex_hex_digit [simp]: "d < 16 \<Longrightarrow> from_hex_char (hex_digit d) = Some d"
  by (simp add: from_hex_char_def hex_digit_def)

lemma hex_decode_encode [simp]: "hex_decode (hex_encode b) = Inr b"
proof (induction b)
  case Nil
  then show ?case by (simp add: hex_encode_def)
next
  case (Cons x b)
  then show ?case by (simp add: hex_encode_def hex_byte_def)
qed

lemma hex_encode_inject [simp]: "hex_encode a = hex_encode b \<longleftrightarrow> a = b"
  by (metis hex_decode_encode sum.inject(2))

lemma length_hex_encode [simp]: "length (hex_encode b) = 2 * length b"
  by (induction b) (simp_all add: hex_encode_def hex_byte_def)

text \<open>The digits \<open>hex.EncodeToString\<close> writes: never a dash, which matters where a
  session id is compared with text that contains one.\<close>

lemma hex_digit_not_dash: "d < 16 \<Longrightarrow> hex_digit d \<noteq> CHR ''-''"
  using from_hex_hex_digit [of d] by (auto simp: from_hex_char_def)

lemma hex_encode_no_dash: "CHR ''-'' \<notin> set (hex_encode b)"
proof -
  have "CHR ''-'' \<notin> set (hex_byte x)" for x :: byte
    using hex_digit_not_dash [of "unat x div 16"] hex_digit_not_dash [of "unat x mod 16"]
    by (auto simp: hex_byte_def)
  then show ?thesis by (simp add: hex_encode_def)
qed

section \<open>Lists\<close>

lemma append_eq_same_length:
  "length xs = length us \<Longrightarrow> xs @ ys = us @ vs \<longleftrightarrow> xs = us \<and> ys = vs"
  by simp

lemma append_eq_same_suffix_length:
  "length ys = length vs \<Longrightarrow> xs @ ys = us @ vs \<longleftrightarrow> xs = us \<and> ys = vs"
  by simp

end
