(* ===== verification/GoTime.thy ===== *)
theory GoTime
  imports Prelude
begin

text \<open>
  The part of Go's \<open>time\<close> package the daemon uses: \<open>time.Time\<close> with its wall clock
  reading and its optional monotonic reading, \<open>IsZero\<close>, \<open>time.Since\<close> with the
  saturation of \<open>time.Duration\<close>, and the RFC 3339 text of a UTC time. Times and
  durations are integers of nanoseconds; a duration is an \<open>int64\<close>.
\<close>

record gotime =
  wall_ns :: int
  mono_ns :: "int option"

text \<open>The zero value \<open>time.Time{}\<close> is January 1, year 1, without monotonic reading.\<close>

definition zero_time :: gotime where
  "zero_time = \<lparr>wall_ns = - 62135596800000000000, mono_ns = None\<rparr>"

definition is_zero_time :: "gotime \<Rightarrow> bool" where
  "is_zero_time t \<longleftrightarrow> wall_ns t = - 62135596800000000000"

definition clamp_duration :: "int \<Rightarrow> int" where
  "clamp_duration d = max (- (2 ^ 63)) (min (2 ^ 63 - 1) d)"

text \<open>\<open>time.Since(t)\<close> at the instant \<open>now\<close>: the monotonic readings decide when both
  times have one.\<close>

definition time_since :: "gotime \<Rightarrow> gotime \<Rightarrow> int" where
  "time_since now t =
     (case (mono_ns now, mono_ns t) of
        (Some a, Some b) \<Rightarrow> clamp_duration (a - b)
      | _ \<Rightarrow> clamp_duration (wall_ns now - wall_ns t))"

definition second :: int where
  "second = 1000000000"

definition minute :: int where
  "minute = 60 * second"

section \<open>Calendar and text\<close>

text \<open>Proleptic Gregorian date of a day number counted from 1970-01-01: whole 400-year eras
  counted from March 1 of year 0, then the year, month and day within the era.\<close>

definition civil :: "int \<Rightarrow> int \<times> int \<times> int" where
  "civil day =
     (let z = day + 719468; era = z div 146097; doe = z mod 146097;
          yoe = (doe - doe div 1460 + doe div 36524 - doe div 146096) div 365;
          doy = doe - (365 * yoe + yoe div 4 - yoe div 100);
          mp = (5 * doy + 2) div 153;
          dd = doy - (153 * mp + 2) div 5 + 1;
          mm = (if mp < 10 then mp + 3 else mp - 9)
      in (yoe + era * 400 + (if mm \<le> 2 then 1 else 0), mm, dd))"

definition utc_year :: "gotime \<Rightarrow> int" where
  "utc_year t = fst (civil (wall_ns t div (86400 * second)))"

definition two :: "int \<Rightarrow> string" where
  "two n = pad0 2 (dec_int n)"

definition year_text :: "int \<Rightarrow> string" where
  "year_text y = (if y < 0 then ''-'' @ pad0 4 (dec_int (- y)) else pad0 4 (dec_int y))"

text \<open>The fraction of \<open>.999999999\<close>: nine digits without the trailing zeros, nothing for 0.\<close>

definition frac_text :: "int \<Rightarrow> string" where
  "frac_text ns =
     (if ns = 0 then []
      else ''.'' @ rev (dropWhile (\<lambda>c. c = CHR ''0'') (rev (pad0 9 (dec_int ns)))))"

text \<open>\<open>t.UTC().Format(time.RFC3339Nano)\<close>.\<close>

definition rfc3339nano :: "gotime \<Rightarrow> string" where
  "rfc3339nano t =
     (let ns = wall_ns t mod second; secs = wall_ns t div second;
          sod = secs mod 86400; (y, m, d) = civil (secs div 86400)
      in year_text y @ ''-'' @ two m @ ''-'' @ two d @ ''T''
         @ two (sod div 3600) @ '':'' @ two (sod div 60 mod 60) @ '':'' @ two (sod mod 60)
         @ frac_text ns @ ''Z'')"

text \<open>\<open>Time.MarshalJSON\<close> refuses a year that is not four digits.\<close>

definition time_json :: "gotime \<Rightarrow> string option" where
  "time_json t = (if 0 \<le> utc_year t \<and> utc_year t \<le> 9999 then Some (rfc3339nano t) else None)"

section \<open>Lemmas\<close>

lemma is_zero_zero_time [simp]: "is_zero_time zero_time"
  by (simp add: is_zero_time_def zero_time_def)

lemma clamp_duration_id: "- (2 ^ 63) \<le> d \<Longrightarrow> d < 2 ^ 63 \<Longrightarrow> clamp_duration d = d"
  by (simp add: clamp_duration_def)

lemma clamp_duration_mono: "a \<le> b \<Longrightarrow> clamp_duration a \<le> clamp_duration b"
  by (simp add: clamp_duration_def)

lemma clamp_duration_bounds: "- (2 ^ 63) \<le> clamp_duration d \<and> clamp_duration d < 2 ^ 63"
  by (simp add: clamp_duration_def)

end
