(* ===== verification/Config.thy ===== *)
theory Config
  imports GoTime
begin

text \<open>
  \<open>internal/config/config.go\<close>: the daemon's configuration, its defaults and the loader.
  Reading the file and the YAML decoder (\<open>gopkg.in/yaml.v3\<close>) are parameters: the file
  system as \<open>read_file\<close>, the decoder as \<open>yaml_unmarshal\<close>. Durations are nanoseconds.
\<close>

record SessionConfig =
  NodeLabel :: string
  PrinterID :: string

record MoonrakerConfig =
  Endpoint :: string
  APIKey :: string
  ClientName :: string
  ClientVersion :: string
  ReconnectDelay :: int
  SubscribeObjects :: "string list"

record CustodyConfig =
  Period :: int
  MaxSilentTicks :: int

record HotBufferConfig =
  DBPath :: string

record TPMConfig =
  Device :: string
  PCRs :: "nat list option"
  SignKeyHandle :: u32
  AKHandle :: u32
  QuoteInterval :: int
  QuoteOnLifecycleEdge :: bool
  EKCertPath :: string

record UploaderConfig =
  UpEndpoint :: string
  BatchSize :: int
  RetryInterval :: int

record Config =
  Session :: SessionConfig
  Moonraker :: MoonrakerConfig
  Custody :: CustodyConfig
  HotBuffer :: HotBufferConfig
  TPM :: TPMConfig
  Uploader :: UploaderConfig

text \<open>\<open>Load\<close>: nothing is checked beyond what the decoder checks.\<close>

definition Load ::
  "(string \<Rightarrow> bytes res) \<Rightarrow> (bytes \<Rightarrow> Config res) \<Rightarrow> string \<Rightarrow> Config res" where
  "Load read_file yaml_unmarshal path =
     (case read_file path of
        Inl e \<Rightarrow> Inl e
      | Inr data \<Rightarrow>
          (case yaml_unmarshal data of
             Inl e \<Rightarrow> Inl e
           | Inr cfg \<Rightarrow> Inr cfg))"

definition DefaultConfig :: Config where
  "DefaultConfig =
     \<lparr>Session = \<lparr>NodeLabel = ''sfn-node-001'', PrinterID = ''printer-001''\<rparr>,
      Moonraker = \<lparr>Endpoint = ''ws://127.0.0.1:7125/websocket'', APIKey = [],
        ClientName = ''axm-edge'', ClientVersion = ''0.1.0'', ReconnectDelay = 5 * second,
        SubscribeObjects = []\<rparr>,
      Custody = \<lparr>Period = 1 * second, MaxSilentTicks = 10\<rparr>,
      HotBuffer = \<lparr>DBPath = ''/var/lib/axm-edge/buffer.db''\<rparr>,
      TPM = \<lparr>Device = ''/dev/tpmrm0'', PCRs = Some [10, 11, 12, 15],
        SignKeyHandle = 0x81000001, AKHandle = 0x81000002,
        QuoteInterval = 5 * minute, QuoteOnLifecycleEdge = True, EKCertPath = []\<rparr>,
      Uploader = \<lparr>UpEndpoint = ''http://127.0.0.1:8080/ingest'', BatchSize = 60,
        RetryInterval = 30 * second\<rparr>\<rparr>"

end
