(* ===== verification/Float64.thy ===== *)
theory Float64
  imports Prelude
begin

text \<open>
  Go's \<open>float64\<close>: IEEE 754 binary64, as the 64-bit pattern. Every finite value is an
  integer multiple of \<open>2^-1074\<close>, so a value is kept as that integer multiple and no
  rational or real number is needed: comparison is comparison of integers, and
  subtraction is exact integer subtraction followed by one rounding to nearest, ties to
  even. The bits below the sign, read as a number (the \<^emph>\<open>ordinal\<close>), grow with the
  magnitude, which makes rounding and its monotonicity short to state.

  Also here: \<open>strconv.ParseFloat\<close> on JSON number literals, the shortest-digits text
  that \<open>encoding/json\<close> writes, and \<open>fmt\<close>'s \<open>%.3f\<close>.
\<close>

section \<open>Bit patterns\<close>

type_synonym f64 = u64

definition f_sign :: "f64 \<Rightarrow> bool" where
  "f_sign x = bit x 63"

definition f_ord :: "f64 \<Rightarrow> nat" where
  "f_ord x = unat (take_bit 63 x)"

definition f_pack :: "bool \<Rightarrow> nat \<Rightarrow> f64" where
  "f_pack s m = (if s then 2 ^ 63 + of_nat m else of_nat m)"

definition inf_ord :: nat where
  "inf_ord = 2047 * 2 ^ 52"

definition is_nan :: "f64 \<Rightarrow> bool" where
  "is_nan x \<longleftrightarrow> inf_ord < f_ord x"

definition is_inf :: "f64 \<Rightarrow> bool" where
  "is_inf x \<longleftrightarrow> f_ord x = inf_ord"

definition is_finite :: "f64 \<Rightarrow> bool" where
  "is_finite x \<longleftrightarrow> f_ord x < inf_ord"

text \<open>Ordinal to magnitude, in units of \<open>2^-1074\<close>: the exponent field is
  \<open>m div 2^52\<close>, 0 for the subnormal numbers.\<close>

definition f_mag :: "nat \<Rightarrow> nat" where
  "f_mag m = (if m < 2 ^ 52 then m else (2 ^ 52 + m mod 2 ^ 52) * 2 ^ (m div 2 ^ 52 - 1))"

definition f_val :: "f64 \<Rightarrow> int" where
  "f_val x = (if f_sign x then - int (f_mag (f_ord x)) else int (f_mag (f_ord x)))"

section \<open>Rounding\<close>

fun bit_len :: "nat \<Rightarrow> nat" where
  "bit_len n = (if n = 0 then 0 else Suc (bit_len (n div 2)))"

declare bit_len.simps [simp del]

text \<open>The quotient \<open>n / d\<close> rounded to the nearest natural number, ties to even.\<close>

definition rne :: "nat \<Rightarrow> nat \<Rightarrow> nat" where
  "rne n d = (let q = n div d; r = n mod d in
     if 2 * r < d \<or> 2 * r = d \<and> even q then q else Suc q)"

text \<open>The ordinal nearest to \<open>n / d\<close> units; \<^const>\<open>inf_ord\<close> or more on overflow.\<close>

definition round_ord :: "nat \<Rightarrow> nat \<Rightarrow> nat" where
  "round_ord n d = (let k = bit_len (n div d) - 53 in k * 2 ^ 52 + rne n (d * 2 ^ k))"

definition f_round :: "bool \<Rightarrow> nat \<Rightarrow> nat \<Rightarrow> f64" where
  "f_round s n d = f_pack s (min inf_ord (round_ord n d))"

text \<open>The value 1, in units.\<close>

definition f_unit :: nat where
  "f_unit = 2 ^ 1074"

section \<open>Operators\<close>

definition f_nan :: f64 where
  "f_nan = f_pack False (inf_ord + 1)"

definition f_neg :: "f64 \<Rightarrow> f64" where
  "f_neg x = f_pack (\<not> f_sign x) (f_ord x)"

text \<open>\<open>x < y\<close>; \<open>x > y\<close> is \<open>f_lt y x\<close>. An infinity's magnitude is above every
  finite one; a comparison with NaN is false.\<close>

definition f_lt :: "f64 \<Rightarrow> f64 \<Rightarrow> bool" where
  "f_lt x y \<longleftrightarrow> \<not> is_nan x \<and> \<not> is_nan y \<and> f_val x < f_val y"

definition f_sub :: "f64 \<Rightarrow> f64 \<Rightarrow> f64" where
  "f_sub x y =
     (if is_nan x \<or> is_nan y then f_nan
      else if is_inf x then (if is_inf y \<and> f_sign x = f_sign y then f_nan else x)
      else if is_inf y then f_neg y
      else let d = f_val x - f_val y in
        if d = 0 then f_pack (f_sign x \<and> \<not> f_sign y \<and> f_ord x = 0) 0
        else f_round (d < 0) (nat \<bar>d\<bar>) 1)"

section \<open>Text\<close>

text \<open>\<open>c * 10^e\<close> in units, as a quotient.\<close>

definition dec_num :: "nat \<Rightarrow> int \<Rightarrow> nat" where
  "dec_num c e = c * 10 ^ nat e * f_unit"

definition dec_den :: "int \<Rightarrow> nat" where
  "dec_den e = 10 ^ nat (- e)"

definition round_dec :: "nat \<Rightarrow> int \<Rightarrow> nat" where
  "round_dec c e = round_ord (dec_num c e) (dec_den e)"

text \<open>\<open>strconv.ParseFloat\<close> on a literal of the JSON grammar: sign, digits, fraction,
  exponent. \<open>None\<close> is the range error.\<close>

definition parse_exp :: "string \<Rightarrow> int" where
  "parse_exp s =
     (case s of
        [] \<Rightarrow> 0
      | c # r \<Rightarrow>
          if c = CHR ''e'' \<or> c = CHR ''E'' then
            (case r of
               [] \<Rightarrow> 0
             | d # t \<Rightarrow>
                 if d = CHR ''-'' then - int (dec_val t)
                 else if d = CHR ''+'' then int (dec_val t)
                 else int (dec_val r))
          else 0)"

definition parse_float :: "string \<Rightarrow> f64 option" where
  "parse_float lit =
     (let neg = (case lit of c # _ \<Rightarrow> c = CHR ''-'' | [] \<Rightarrow> False);
          body = (if neg then tl lit else lit);
          ip = takeWhile is_digit body;
          rest = dropWhile is_digit body;
          hasfrac = (case rest of c # _ \<Rightarrow> c = CHR ''.'' | [] \<Rightarrow> False);
          fp = (if hasfrac then takeWhile is_digit (tl rest) else []);
          ex = (if hasfrac then dropWhile is_digit (tl rest) else rest);
          m = round_dec (dec_val (ip @ fp)) (parse_exp ex - int (length fp))
      in if m < inf_ord then Some (f_pack neg m) else None)"

text \<open>The shortest decimal \<open>c * 10^e\<close> that rounds to the ordinal: the coarsest power of
  ten with a multiple that does, and of two such neighbours the nearer to the value.\<close>

definition short_at :: "nat \<Rightarrow> int \<Rightarrow> nat option" where
  "short_at m e =
     (let n = f_mag m * 10 ^ nat (- e); d = f_unit * 10 ^ nat e;
          c = n div d; r = n mod d;
          lo = round_dec c e = m; hi = round_dec (Suc c) e = m
      in if lo \<and> (\<not> hi \<or> 2 * r < d \<or> 2 * r = d \<and> even c) then Some c
         else if hi then Some (Suc c) else None)"

fun short_from :: "nat \<Rightarrow> nat \<Rightarrow> int \<Rightarrow> (nat \<times> int) option" where
  "short_from m 0 e = None"
| "short_from m (Suc fuel) e =
     (case short_at m e of Some c \<Rightarrow> Some (c, e) | None \<Rightarrow> short_from m fuel (e - 1))"

definition shortest :: "nat \<Rightarrow> (nat \<times> int) option" where
  "shortest m = short_from m 1384 309"

fun strip0 :: "string \<Rightarrow> string" where
  "strip0 s = rev (dropWhile (\<lambda>c. c = CHR ''0'') (rev s))"

text \<open>The \<open>'f'\<close> and \<open>'e'\<close> layouts of digits \<open>ds\<close> whose decimal point stands before
  position \<open>dp\<close>; the exponent of the second has no leading zero (\<open>encoding/json\<close>
  removes the one \<open>strconv\<close> writes).\<close>

definition layout_f :: "string \<Rightarrow> int \<Rightarrow> string" where
  "layout_f ds dp =
     (if dp \<le> 0 then ''0.'' @ replicate (nat (- dp)) (CHR ''0'') @ ds
      else if int (length ds) \<le> dp then ds @ replicate (nat dp - length ds) (CHR ''0'')
      else take (nat dp) ds @ ''.'' @ drop (nat dp) ds)"

definition layout_e :: "string \<Rightarrow> int \<Rightarrow> string" where
  "layout_e ds dp =
     take 1 ds @ (if length ds \<le> 1 then [] else ''.'' @ drop 1 ds)
     @ (if dp - 1 < 0 then ''e-'' else ''e+'') @ dec_nat (nat \<bar>dp - 1\<bar>)"

definition fmt_mag :: "nat \<Rightarrow> string" where
  "fmt_mag m =
     (if m = 0 then ''0''
      else case shortest m of
        None \<Rightarrow> []
      | Some (c, e) \<Rightarrow>
          (let s = dec_nat c; ds = strip0 s; dp = int (length s) + e
           in if m < round_dec 1 (- 6) \<or> round_dec 1 21 \<le> m then layout_e ds dp
              else layout_f ds dp))"

text \<open>What \<open>encoding/json\<close> writes for a float64; it refuses NaN and infinities.\<close>

definition fmt_json :: "f64 \<Rightarrow> string option" where
  "fmt_json x =
     (if is_finite x then Some ((if f_sign x then ''-'' else []) @ fmt_mag (f_ord x)) else None)"

text \<open>\<open>fmt.Sprintf("%.3f", x)\<close>.\<close>

definition fmt_f3 :: "f64 \<Rightarrow> string" where
  "fmt_f3 x =
     (if is_nan x then ''NaN''
      else if is_inf x then (if f_sign x then ''-Inf'' else ''+Inf'')
      else let n = rne (f_mag (f_ord x) * 1000) (f_unit) in
        (if f_sign x then ''-'' else []) @ dec_nat (n div 1000) @ ''.'' @ pad0 3 (dec_nat (n mod 1000)))"

text \<open>\<open>float64(i)\<close> for a small integer, to write constants with.\<close>

definition f_of_int :: "int \<Rightarrow> f64" where
  "f_of_int i = f_round (i < 0) (nat \<bar>i\<bar> * f_unit) 1"

section \<open>Packing and unpacking\<close>

lemma f_ord_unat: "f_ord x = unat x mod 2 ^ 63"
  unfolding f_ord_def unsigned_take_bit_eq by (simp add: take_bit_eq_mod)

lemma f_ord_less: "f_ord x < 2 ^ 63"
  by (simp add: f_ord_unat)

lemma inf_ord_less: "inf_ord < 2 ^ 63"
  by (simp add: inf_ord_def)

lemma unat_f_pack: "m < 2 ^ 63 \<Longrightarrow> unat (f_pack s m) = (if s then 2 ^ 63 + m else m)"
  by (simp add: f_pack_def unat_word_ariths unat_of_nat take_bit_eq_mod)

lemma f_ord_pack [simp]: "m < 2 ^ 63 \<Longrightarrow> f_ord (f_pack s m) = m"
  by (simp add: f_ord_unat unat_f_pack)

lemma f_sign_unat: "f_sign x \<longleftrightarrow> odd (unat x div 2 ^ 63)"
proof -
  have "bit (unat x) 63 \<longleftrightarrow> bit x 63" by (simp add: bit_unsigned_iff)
  then show ?thesis by (simp add: f_sign_def bit_iff_odd)
qed

lemma f_sign_pack [simp]: "m < 2 ^ 63 \<Longrightarrow> f_sign (f_pack s m) = s"
  using div_nat_eqI [of "2 ^ 63" 1 "2 ^ 63 + m"] by (simp add: f_sign_unat unat_f_pack)

lemma f_pack_unpack [simp]: "f_pack (f_sign x) (f_ord x) = x"
proof -
  have lt: "unat x < 2 ^ 64" using unsigned_less [of x, where ?'a = nat] by simp
  have "unat x div 2 ^ 63 < 2" using lt by (simp add: div_less_iff_less_mult)
  then have "unat x div 2 ^ 63 = (if f_sign x then 1 else 0)"
    by (auto simp: f_sign_unat less_2_cases_iff)
  moreover have "f_ord x = unat x mod 2 ^ 63"
    by (rule f_ord_unat)
  moreover have "unat x = 2 ^ 63 * (unat x div 2 ^ 63) + unat x mod 2 ^ 63"
    by (rule mult_div_mod_eq [symmetric])
  ultimately have "unat x = (if f_sign x then 2 ^ 63 + f_ord x else f_ord x)"
    by (simp split: if_splits)
  then show ?thesis
    using unat_f_pack [OF f_ord_less, of "f_sign x" x] by (simp add: word_unat_eq_iff)
qed

section \<open>Magnitudes\<close>

lemma f_mag_split: "f_mag (k * 2 ^ 52 + r) = r * 2 ^ k" if "r < 2 ^ 53" "2 ^ 52 \<le> r \<or> k = 0"
proof (cases "r < 2 ^ 52")
  case True
  with that show ?thesis by (simp add: f_mag_def)
next
  case False
  define t where "t = r - 2 ^ 52"
  from False that have r: "r = 2 ^ 52 + t" and "t < 2 ^ 52" by (simp_all add: t_def)
  then have "(k * 2 ^ 52 + r) div 2 ^ 52 = Suc k" and "(k * 2 ^ 52 + r) mod 2 ^ 52 = t"
    by (simp_all add: div_nat_eqI)
  then show ?thesis by (simp add: f_mag_def r)
qed

text \<open>Every ordinal is \<open>k * 2^52 + r\<close> with \<open>r\<close> a 53-bit significand, \<open>k\<close> the shift.\<close>

lemma ord_cases:
  fixes m :: nat
  obtains k r where "m = k * 2 ^ 52 + r" "r < 2 ^ 53" "2 ^ 52 \<le> r \<or> k = 0"
proof (cases "m < 2 ^ 52")
  case True
  then show ?thesis using that [of 0 m] by simp
next
  case False
  define q where "q = m div 2 ^ 52"
  have m: "m = q * 2 ^ 52 + m mod 2 ^ 52" by (simp add: q_def)
  from False have "1 \<le> q" by (simp add: q_def div_greater_zero_iff Suc_le_eq)
  then obtain k where k: "q = Suc k" by (cases q) auto
  have "m mod 2 ^ 52 < 2 ^ 52" by simp
  then show ?thesis using that [of k "2 ^ 52 + m mod 2 ^ 52"] m k by simp
qed

lemma f_mag_Suc: "f_mag m < f_mag (Suc m)"
proof -
  obtain k r where m: "m = k * 2 ^ 52 + r" and r: "r < 2 ^ 53" "2 ^ 52 \<le> r \<or> k = 0"
    by (rule ord_cases)
  have mag: "f_mag m = r * 2 ^ k" unfolding m by (rule f_mag_split [OF r])
  show ?thesis
  proof (cases "Suc r < 2 ^ 53")
    case True
    then have "f_mag (Suc m) = Suc r * 2 ^ k"
      using f_mag_split [of "Suc r" k] r(2) by (auto simp: m)
    then show ?thesis by (simp add: mag)
  next
    case False
    with r have "Suc m = Suc k * 2 ^ 52 + 2 ^ 52" by (simp add: m)
    then have "f_mag (Suc m) = 2 ^ 52 * 2 ^ Suc k"
      using f_mag_split [of "2 ^ 52" "Suc k"] by simp
    also have "\<dots> = 2 ^ 53 * 2 ^ k" by simp
    finally show ?thesis using r(1) by (simp add: mag)
  qed
qed

lemma f_mag_strict_mono: "strict_mono f_mag"
  using f_mag_Suc by (simp add: strict_mono_Suc_iff)

lemma f_mag_less [simp]: "f_mag a < f_mag b \<longleftrightarrow> a < b"
  by (rule strict_mono_less [OF f_mag_strict_mono])

lemma f_mag_le [simp]: "f_mag a \<le> f_mag b \<longleftrightarrow> a \<le> b"
  by (rule strict_mono_less_eq [OF f_mag_strict_mono])

lemma f_mag_eq [simp]: "f_mag a = f_mag b \<longleftrightarrow> a = b"
  by (rule strict_mono_eq [OF f_mag_strict_mono])

lemma f_mag_0 [simp]: "f_mag 0 = 0"
  by (simp add: f_mag_def)

section \<open>Rounding to nearest\<close>

lemma bit_len_le: "bit_len n \<le> k \<longleftrightarrow> n < 2 ^ k"
proof (induction k arbitrary: n)
  case 0
  then show ?case by (simp add: bit_len.simps [of n])
next
  case (Suc k)
  then show ?case by (simp add: bit_len.simps [of n] div_less_iff_less_mult mult.commute)
qed

lemma bit_len_mono: "m \<le> n \<Longrightarrow> bit_len m \<le> bit_len n"
  using bit_len_le [of n "bit_len n"] by (simp add: bit_len_le)

lemma bit_len_ge: "k < bit_len n \<longleftrightarrow> 2 ^ k \<le> n"
  using bit_len_le [of n k] by (meson not_less)

lemma rne_exact [simp]: "0 < d \<Longrightarrow> rne (q * d) d = q"
  by (simp add: rne_def)

lemma rne_bounds:
  assumes "0 < d" shows "n div d \<le> rne n d" and "rne n d \<le> Suc (n div d)"
  by (simp_all add: rne_def Let_def)

lemma rne_mono:
  assumes "0 < d" "m \<le> n" shows "rne m d \<le> rne n d"
proof (cases "m div d = n div d")
  case True
  then have "n = m div d * d + n mod d" by simp
  moreover have "m = m div d * d + m mod d" by simp
  ultimately have "m mod d \<le> n mod d" using assms(2) by linarith
  then have "2 * (n mod d) < d \<or> 2 * (n mod d) = d \<and> even (n div d) \<Longrightarrow>
      2 * (m mod d) < d \<or> 2 * (m mod d) = d \<and> even (n div d)" by linarith
  with True show ?thesis by (simp add: rne_def Let_def del: even_mult_iff)
next
  case False
  moreover have "m div d \<le> n div d" using assms(2) by (rule div_le_mono)
  ultimately have "m div d < n div d" by linarith
  with rne_bounds [OF assms(1), of m] rne_bounds [OF assms(1), of n] show ?thesis by linarith
qed

lemma rne_less: assumes "0 < d" "n < b * d" shows "rne n d \<le> b"
  using rne_mono [of d n "b * d"] assms by simp

lemma rne_ge: assumes "0 < d" "b * d \<le> n" shows "b \<le> rne n d"
  using rne_mono [of d "b * d" n] assms by simp

lemma rne_scale: "0 < c \<Longrightarrow> rne (n * c) (d * c) = rne n d"
proof -
  assume c: "0 < c"
  have "2 * (n mod d * c) < d * c \<longleftrightarrow> 2 * (n mod d) < d"
    using c by (simp flip: mult.assoc)
  moreover have "2 * (n mod d * c) = d * c \<longleftrightarrow> 2 * (n mod d) = d"
    using c by (simp flip: mult.assoc)
  ultimately show ?thesis using c by (simp add: rne_def Let_def mult_mod_left [symmetric])
qed

text \<open>The shift \<open>k\<close> of \<^const>\<open>round_ord\<close> leaves a quotient of at most 53 bits.\<close>

lemma shift_upper: "(n::nat) div d < 2 ^ 53 * 2 ^ (bit_len (n div d) - 53)"
proof -
  have "n div d < 2 ^ bit_len (n div d)" using bit_len_le by blast
  also have "\<dots> \<le> 2 ^ (53 + (bit_len (n div d) - 53))" by (rule power_increasing) simp_all
  finally show ?thesis by (simp only: power_add)
qed

lemma shift_lower: "bit_len q - 53 = Suc k \<Longrightarrow> 2 ^ 53 * 2 ^ k \<le> q"
proof -
  assume "bit_len q - 53 = Suc k"
  then have "53 + k < bit_len q" by simp
  then have "2 ^ (53 + k) \<le> q" by (simp add: bit_len_ge)
  then show ?thesis by (simp only: power_add)
qed

lemma round_ord_upper:
  assumes "0 < d"
  shows "round_ord n d \<le> (bit_len (n div d) - 53) * 2 ^ 52 + 2 ^ 53"
proof -
  define k where "k = bit_len (n div d) - 53"
  have "n div d < 2 ^ 53 * 2 ^ k" unfolding k_def by (rule shift_upper)
  then have "n < 2 ^ 53 * (d * 2 ^ k)"
    using assms(1) by (simp add: div_less_iff_less_mult ac_simps)
  then have "rne n (d * 2 ^ k) \<le> 2 ^ 53" using assms(1) by (intro rne_less) simp_all
  then show ?thesis by (simp add: round_ord_def k_def Let_def)
qed

lemma round_ord_lower:
  assumes "0 < d" "bit_len (n div d) - 53 = Suc k"
  shows "Suc k * 2 ^ 52 + 2 ^ 52 \<le> round_ord n d"
proof -
  have "2 ^ 53 * 2 ^ k \<le> n div d" using assms(2) by (rule shift_lower)
  then have "2 ^ 52 * (d * 2 ^ Suc k) \<le> n"
    using assms(1) by (simp add: less_eq_div_iff_mult_less_eq ac_simps)
  then have "2 ^ 52 \<le> rne n (d * 2 ^ Suc k)" using assms(1) by (intro rne_ge) simp_all
  then show ?thesis by (simp add: round_ord_def assms(2) Let_def)
qed

lemma round_ord_mono:
  assumes "0 < d" "m \<le> n" shows "round_ord m d \<le> round_ord n d"
proof -
  let ?k = "bit_len (m div d) - 53" and ?l = "bit_len (n div d) - 53"
  have "?k \<le> ?l" by (intro diff_le_mono bit_len_mono div_le_mono assms(2))
  show ?thesis
  proof (cases "?k = ?l")
    case True
    then show ?thesis using assms by (simp add: round_ord_def Let_def rne_mono)
  next
    case False
    with \<open>?k \<le> ?l\<close> obtain l where l: "?l = Suc l" and "?k \<le> l" by (cases ?l) auto
    have "round_ord m d \<le> ?k * 2 ^ 52 + 2 ^ 53" using assms(1) by (rule round_ord_upper)
    also have "\<dots> \<le> l * 2 ^ 52 + 2 ^ 53" using \<open>?k \<le> l\<close> by simp
    also have "\<dots> = Suc l * 2 ^ 52 + 2 ^ 52" by simp
    also have "\<dots> \<le> round_ord n d" using assms(1) l by (rule round_ord_lower)
    finally show ?thesis .
  qed
qed

text \<open>A representable value is its own rounding.\<close>

lemma round_ord_exact: "round_ord (f_mag m) 1 = m"
proof -
  obtain k r where m: "m = k * 2 ^ 52 + r" and r: "r < 2 ^ 53" "2 ^ 52 \<le> r \<or> k = 0"
    by (rule ord_cases)
  have mag: "f_mag m = r * 2 ^ k" unfolding m by (rule f_mag_split [OF r])
  have "bit_len (r * 2 ^ k) - 53 = k"
  proof (cases k)
    case 0
    with r(1) show ?thesis by (simp add: bit_len_le)
  next
    case (Suc j)
    have "r * 2 ^ k < 2 ^ (53 + k)" using r(1) by (simp add: power_add)
    then have "bit_len (r * 2 ^ k) \<le> 53 + k" by (simp only: bit_len_le)
    moreover have "2 ^ (52 + k) \<le> r * 2 ^ k" using r(2) Suc by (simp add: power_add)
    then have "52 + k < bit_len (r * 2 ^ k)" by (simp only: bit_len_ge)
    ultimately show ?thesis by linarith
  qed
  then have "round_ord (f_mag m) 1 = k * 2 ^ 52 + rne (r * 2 ^ k) (2 ^ k)"
    by (simp add: mag round_ord_def)
  then show ?thesis by (simp add: m)
qed

lemmas round_ord_exact_Suc [simp] = round_ord_exact [simplified]

lemma round_ord_zero [simp]: "round_ord 0 d = 0"
  by (auto simp: round_ord_def rne_def bit_len.simps [of 0])

lemma round_ord_scale: "0 < c \<Longrightarrow> round_ord (n * c) (d * c) = round_ord n d"
proof -
  assume c: "0 < c"
  have "rne (n * c) (d * c * 2 ^ k) = rne n (d * 2 ^ k)" for k
    using rne_scale [OF c, of n "d * 2 ^ k"] by (simp add: ac_simps)
  with c show ?thesis by (simp add: round_ord_def)
qed

section \<open>Comparison and subtraction against exact arithmetic\<close>

lemma is_finite_simps [simp]:
  "is_finite x \<Longrightarrow> \<not> is_nan x" "is_finite x \<Longrightarrow> \<not> is_inf x"
  by (simp_all add: is_finite_def is_nan_def is_inf_def)

lemma f_val_pack [simp]:
  "m < 2 ^ 63 \<Longrightarrow> f_val (f_pack s m) = (if s then - int (f_mag m) else int (f_mag m))"
  by (simp add: f_val_def)

lemma f_val_round:
  "f_val (f_round s n d) =
     (if s then - int (f_mag (min inf_ord (round_ord n d)))
      else int (f_mag (min inf_ord (round_ord n d))))"
  using inf_ord_less by (simp add: f_round_def)

lemma f_neg_val [simp]: "f_val (f_neg x) = - f_val x"
  using f_ord_less [of x] by (simp add: f_neg_def f_val_def)

lemma f_neg_finite [simp]: "is_finite (f_neg x) = is_finite x"
  using f_ord_less [of x] by (simp add: f_neg_def is_finite_def)

lemma f_sub_not_nan:
  assumes "is_finite x" "is_finite y" shows "\<not> is_nan (f_sub x y)"
proof -
  have "f_sub x y = f_pack s (min inf_ord m) \<Longrightarrow> ?thesis" for s m
    using inf_ord_less by (simp add: is_nan_def)
  from this [of _ 0] this show ?thesis using assms by (auto simp: f_sub_def Let_def f_round_def)
qed

lemma f_val_sub:
  assumes "is_finite x" "is_finite y"
  shows "f_val (f_sub x y) =
    (let d = f_val x - f_val y; m = int (f_mag (min inf_ord (round_ord (nat \<bar>d\<bar>) 1)))
     in if d < 0 then - m else m)"
  using assms by (simp add: f_sub_def f_val_round Let_def)

lemma round_le_ord: "n \<le> f_mag m \<Longrightarrow> round_ord n 1 \<le> m"
  using round_ord_mono [of 1 n "f_mag m"] by simp

lemma ord_le_round: "f_mag m \<le> n \<Longrightarrow> m \<le> round_ord n 1"
  using round_ord_mono [of 1 "f_mag m" n] by simp

text \<open>Rounding is monotone on both sides of zero: a difference on one side of a finite
  bound cannot round to the other side.\<close>

lemma f_sub_ge:
  assumes "is_finite x" "is_finite y" "is_finite b" "f_val b \<le> f_val x - f_val y"
  shows "f_val b \<le> f_val (f_sub x y)"
proof (cases "f_val x - f_val y < 0")
  case True
  with assms(4) have s: "f_sign b" by (auto simp: f_val_def split: if_splits)
  with assms(4) True have "nat \<bar>f_val x - f_val y\<bar> \<le> f_mag (f_ord b)"
    by (simp add: f_val_def)
  then have "round_ord (nat \<bar>f_val x - f_val y\<bar>) 1 \<le> f_ord b" by (rule round_le_ord)
  moreover have "f_val b = - int (f_mag (f_ord b))" using s by (simp add: f_val_def)
  ultimately show ?thesis using True by (simp add: f_val_sub assms(1,2) min.coboundedI2)
next
  case False
  show ?thesis
  proof (cases "f_sign b")
    case True
    then have "f_val b \<le> 0" by (simp add: f_val_def)
    also have "0 \<le> f_val (f_sub x y)" using False by (simp add: f_val_sub assms(1,2))
    finally show ?thesis .
  next
    case pos: False
    with assms(4) have "f_mag (f_ord b) \<le> nat \<bar>f_val x - f_val y\<bar>" by (simp add: f_val_def)
    then have "f_ord b \<le> round_ord (nat \<bar>f_val x - f_val y\<bar>) 1" by (rule ord_le_round)
    moreover have "f_ord b \<le> inf_ord" using assms(3) by (simp add: is_finite_def)
    moreover have "f_val b = int (f_mag (f_ord b))" using pos by (simp add: f_val_def)
    ultimately show ?thesis using False by (simp add: f_val_sub assms(1,2))
  qed
qed

lemma f_sub_anti:
  assumes "is_finite x" "is_finite y" shows "f_val (f_sub y x) = - f_val (f_sub x y)"
  by (cases "f_val x" "f_val y" rule: linorder_cases) (simp_all add: f_val_sub assms)

lemma f_sub_le:
  assumes "is_finite x" "is_finite y" "is_finite b" "f_val x - f_val y \<le> f_val b"
  shows "f_val (f_sub x y) \<le> f_val b"
  using f_sub_ge [of y x "f_neg b"] assms f_sub_anti [OF assms(1,2)] by simp

text \<open>A representable difference is computed exactly.\<close>

lemma f_sub_exact:
  assumes "is_finite x" "is_finite y" "is_finite z" "f_val x - f_val y = f_val z"
  shows "f_val (f_sub x y) = f_val z"
  using f_sub_ge [OF assms(1-3)] f_sub_le [OF assms(1-3)] assms(4) by simp

text \<open>Facts that evaluate a bit pattern.\<close>

lemmas f64_eval = is_finite_def is_nan_def f_val_def f_sign_def f_ord_def inf_ord_def f_mag_def

text \<open>The two comparisons of a rounded difference with a bound, in exact arithmetic: they
  hold when the exact difference is on that side and did not round to the bound itself.\<close>

lemma f_sub_below_iff:
  assumes "is_finite x" "is_finite y" "is_finite b"
  shows "f_lt (f_sub x y) b \<longleftrightarrow>
    f_val x - f_val y < f_val b \<and> f_val (f_sub x y) \<noteq> f_val b"
proof -
  have "f_lt (f_sub x y) b \<longleftrightarrow> f_val (f_sub x y) < f_val b"
    using f_sub_not_nan [OF assms(1,2)] assms(3) by (simp add: f_lt_def)
  then show ?thesis using f_sub_ge [OF assms] f_sub_le [OF assms] by linarith
qed

lemma f_sub_above_iff:
  assumes "is_finite x" "is_finite y" "is_finite b"
  shows "f_lt b (f_sub x y) \<longleftrightarrow>
    f_val b < f_val x - f_val y \<and> f_val (f_sub x y) \<noteq> f_val b"
proof -
  have "f_lt b (f_sub x y) \<longleftrightarrow> f_val b < f_val (f_sub x y)"
    using f_sub_not_nan [OF assms(1,2)] assms(3) by (simp add: f_lt_def)
  then show ?thesis using f_sub_ge [OF assms] f_sub_le [OF assms] by linarith
qed

text \<open>Subtraction of different numbers never gives zero (gradual underflow).\<close>

lemma f_sub_zero_iff:
  assumes "is_finite x" "is_finite y"
  shows "f_val (f_sub x y) = 0 \<longleftrightarrow> f_val x = f_val y"
proof
  assume z: "f_val (f_sub x y) = 0"
  have "min inf_ord (round_ord (nat \<bar>f_val x - f_val y\<bar>) 1) = 0"
    using z f_mag_eq [of _ 0] by (simp add: f_val_sub assms Let_def split: if_splits)
  then have "round_ord (nat \<bar>f_val x - f_val y\<bar>) 1 = 0"
    by (simp add: inf_ord_def min_def split: if_splits)
  moreover have "f_mag 1 = 1" by (simp add: f_mag_def)
  ultimately have "\<not> 1 \<le> nat \<bar>f_val x - f_val y\<bar>"
    using ord_le_round [of 1 "nat \<bar>f_val x - f_val y\<bar>"] by fastforce
  then show "f_val x = f_val y" by linarith
next
  assume "f_val x = f_val y"
  then show "f_val (f_sub x y) = 0"
    by (simp add: f_val_sub assms)
qed

section \<open>The shortest text rounds back\<close>

lemma short_at_round: "short_at m e = Some c \<Longrightarrow> round_dec c e = m"
  by (auto simp: short_at_def Let_def split: if_splits)

lemma short_from_round: "short_from m fuel e = Some (c, e') \<Longrightarrow> round_dec c e' = m"
  by (induction fuel arbitrary: e) (auto split: option.splits dest: short_at_round)

lemma ten_power_unit: "(10::nat) ^ 1074 = 5 ^ 1074 * f_unit"
proof -
  have "((5::nat) * 2) ^ 1074 = 5 ^ 1074 * f_unit"
    unfolding f_unit_def by (rule power_mult_distrib)
  then show ?thesis by (simp only: mult_2_right numeral_plus_numeral) (simp only: add_num_simps)
qed

lemma f_unit_pos: "0 < f_unit"
  by (simp only: f_unit_def zero_less_power zero_less_numeral)

lemma short_at_exact: "short_at m (- 1074) \<noteq> None"
proof -
  define T :: nat where "T = 10 ^ 1074"
  define c where "c = f_mag m * 5 ^ 1074"
  have "0 < T" unfolding T_def by (simp only: zero_less_power zero_less_numeral)
  have n: "f_mag m * T = c * f_unit"
    unfolding T_def ten_power_unit c_def by (simp only: mult.assoc)
  have p: "nat (- (- 1074)) = 1074" "nat (- 1074) = 0" by simp_all
  have "round_dec c (- 1074) = round_ord (c * f_unit) T"
    unfolding round_dec_def dec_num_def dec_den_def p T_def [symmetric] by simp
  also have "\<dots> = round_ord (f_mag m * T) (1 * T)" by (simp only: n mult_1)
  also have "\<dots> = m" using round_ord_scale [OF \<open>0 < T\<close>, of "f_mag m" 1] by simp
  finally have lo: "round_dec c (- 1074) = m" .
  have "short_at m (- 1074) = Some c"
    unfolding short_at_def p T_def [symmetric] n using lo f_unit_pos by (simp add: Let_def)
  then show ?thesis by simp
qed

lemma short_from_total:
  "short_at m (e - int j) \<noteq> None \<Longrightarrow> j < fuel \<Longrightarrow> short_from m fuel e \<noteq> None"
proof (induction fuel arbitrary: e j)
  case 0
  then show ?case by simp
next
  case (Suc fuel)
  show ?case
  proof (cases j)
    case 0
    with Suc.prems(1) show ?thesis by (auto split: option.split)
  next
    case (Suc i)
    have "short_from m fuel (e - 1) \<noteq> None"
      using Suc.prems Suc by (intro Suc.IH [of "e - 1" i]) (simp_all add: algebra_simps)
    then show ?thesis by (auto split: option.split)
  qed
qed

lemma shortest_round: "\<exists>c e. shortest m = Some (c, e) \<and> round_dec c e = m"
proof -
  have "shortest m \<noteq> None" unfolding shortest_def
    by (rule short_from_total [where j = 1383]) (simp_all add: short_at_exact)
  then obtain c e where "shortest m = Some (c, e)" by auto
  then show ?thesis unfolding shortest_def using short_from_round by blast
qed

end
