(* ===== verification/Json.thy ===== *)
theory Json
  imports Float64
begin

text \<open>
  Go's \<open>encoding/json\<close> (as of the module's Go 1.22), as far as the daemon uses it: values,
  the scanner and decoder of the text, \<open>Unmarshal\<close> into strings, numbers, slices and
  structs, and \<open>Marshal\<close>'s text. A \<open>json.RawMessage\<close> is the value its bytes denote.
  Objects keep their members in the order of the text, duplicates included; a number keeps
  its literal.
\<close>

datatype json =
    JNull
  | JBool bool
  | JNum string
  | JStr string
  | JArr "json list"
  | JObj "(string \<times> json) list"

section \<open>UTF-8\<close>

abbreviation ch :: "char \<Rightarrow> nat" where
  "ch c \<equiv> of_char c"

definition cont :: "char \<Rightarrow> bool" where
  "cont c \<longleftrightarrow> 128 \<le> ch c \<and> ch c \<le> 191"

text \<open>Length of the well-formed multi-byte sequence at the start of the string, 0 if none
  (\<open>utf8.DecodeRuneInString\<close> then returns \<open>RuneError\<close> and width 1).\<close>

fun utf8_len :: "string \<Rightarrow> nat" where
  "utf8_len (a # b # s) =
     (if 194 \<le> ch a \<and> ch a \<le> 223 then (if cont b then 2 else 0)
      else if 224 \<le> ch a \<and> ch a \<le> 239 then
        (case s of
           c # _ \<Rightarrow>
             if (if ch a = 224 then 160 \<le> ch b \<and> ch b \<le> 191
                 else if ch a = 237 then 128 \<le> ch b \<and> ch b \<le> 159 else cont b) \<and> cont c
             then 3 else 0
         | [] \<Rightarrow> 0)
      else if 240 \<le> ch a \<and> ch a \<le> 244 then
        (case s of
           c # d # _ \<Rightarrow>
             if (if ch a = 240 then 144 \<le> ch b \<and> ch b \<le> 191
                 else if ch a = 244 then 128 \<le> ch b \<and> ch b \<le> 143 else cont b)
                \<and> cont c \<and> cont d
             then 4 else 0
         | _ \<Rightarrow> 0)
      else 0)"
| "utf8_len _ = 0"

text \<open>The UTF-8 text of a code point.\<close>

definition utf8_encode :: "nat \<Rightarrow> string" where
  "utf8_encode r =
     (if r < 128 then [char_of r]
      else if r < 2048 then [char_of (192 + r div 64), char_of (128 + r mod 64)]
      else if r < 65536 then
        [char_of (224 + r div 4096), char_of (128 + r div 64 mod 64), char_of (128 + r mod 64)]
      else [char_of (240 + r div 262144), char_of (128 + r div 4096 mod 64),
            char_of (128 + r div 64 mod 64), char_of (128 + r mod 64)])"

definition rune_error :: string where
  "rune_error = utf8_encode 65533"

section \<open>Marshal: text\<close>

definition u_escape :: "nat \<Rightarrow> string" where
  "u_escape r =
     [CHR 0x5C, CHR ''u'', hex_digit (r div 4096 mod 16), hex_digit (r div 256 mod 16),
      hex_digit (r div 16 mod 16), hex_digit (r mod 16)]"

text \<open>One ASCII byte of a string: the short escapes, \<open>\u00xx\<close> for the other control
  bytes and for \<open><\<close>, \<open>>\<close> and \<open>&\<close>, else the byte itself.\<close>

definition quote_ascii :: "char \<Rightarrow> string" where
  "quote_ascii c =
     (if c = CHR 0x22 \<or> c = CHR 0x5C then [CHR 0x5C, c]
      else if ch c = 8 then [CHR 0x5C, CHR ''b'']
      else if ch c = 12 then [CHR 0x5C, CHR ''f'']
      else if ch c = 10 then [CHR 0x5C, CHR ''n'']
      else if ch c = 13 then [CHR 0x5C, CHR ''r'']
      else if ch c = 9 then [CHR 0x5C, CHR ''t'']
      else if ch c < 32 \<or> c = CHR ''<'' \<or> c = CHR ''>'' \<or> c = CHR ''&'' then u_escape (ch c)
      else [c])"

text \<open>The two line separators U+2028 and U+2029 are escaped as well.\<close>

definition line_sep :: "string \<Rightarrow> nat option" where
  "line_sep s =
     (if take 3 s = utf8_encode 8232 then Some 8232
      else if take 3 s = utf8_encode 8233 then Some 8233 else None)"

function json_quote :: "string \<Rightarrow> string" where
  "json_quote [] = []"
| "json_quote (c # s) =
     (if ch c < 128 then quote_ascii c @ json_quote s
      else if utf8_len (c # s) = 0 then u_escape 65533 @ json_quote s
      else (case line_sep (c # s) of Some r \<Rightarrow> u_escape r | None \<Rightarrow> take (utf8_len (c # s)) (c # s))
           @ json_quote (drop (utf8_len (c # s) - 1) s))"
  by pat_completeness auto
termination
  by (relation "measure length") auto

definition json_string :: "string \<Rightarrow> string" where
  "json_string s = [CHR 0x22] @ json_quote s @ [CHR 0x22]"

fun join :: "string \<Rightarrow> string list \<Rightarrow> string" where
  "join sep [] = []"
| "join sep [x] = x"
| "join sep (x # xs) = x @ sep @ join sep xs"

fun json_print :: "json \<Rightarrow> string" where
  "json_print JNull = ''null''"
| "json_print (JBool b) = (if b then ''true'' else ''false'')"
| "json_print (JNum l) = l"
| "json_print (JStr s) = json_string s"
| "json_print (JArr xs) = ''['' @ join '','' (map json_print xs) @ '']''"
| "json_print (JObj ms) =
     ''{'' @ join '','' (map (\<lambda>(k, v). json_string k @ '':'' @ json_print v) ms) @ ''}''"

text \<open>\<open>[]byte\<close> is written in base64.\<close>

definition b64_char :: "nat \<Rightarrow> char" where
  "b64_char n =
     (if n < 26 then char_of (65 + n) else if n < 52 then char_of (71 + n)
      else if n < 62 then char_of (n - 4) else if n = 62 then CHR ''+'' else CHR ''/'')"

fun base64 :: "bytes \<Rightarrow> string" where
  "base64 [] = []"
| "base64 [a] =
     [b64_char (unat a div 4), b64_char (unat a mod 4 * 16), CHR ''='', CHR ''='']"
| "base64 [a, b] =
     [b64_char (unat a div 4), b64_char (unat a mod 4 * 16 + unat b div 16),
      b64_char (unat b mod 16 * 4), CHR ''='']"
| "base64 (a # b # c # r) =
     b64_char (unat a div 4) # b64_char (unat a mod 4 * 16 + unat b div 16)
     # b64_char (unat b mod 16 * 4 + unat c div 64) # b64_char (unat c mod 64) # base64 r"

section \<open>Decoding text\<close>

definition is_ws :: "char \<Rightarrow> bool" where
  "is_ws c \<longleftrightarrow> ch c = 32 \<or> ch c = 9 \<or> ch c = 10 \<or> ch c = 13"

definition skip_ws :: "string \<Rightarrow> string" where
  "skip_ws s = dropWhile is_ws s"

definition hex4 :: "string \<Rightarrow> nat option" where
  "hex4 s =
     (case s of
        a # b # c # d # _ \<Rightarrow>
          (case (from_hex_char a, from_hex_char b, from_hex_char c, from_hex_char d) of
             (Some w, Some x, Some y, Some z) \<Rightarrow> Some (4096 * w + 256 * x + 16 * y + z)
           | _ \<Rightarrow> None)
      | _ \<Rightarrow> None)"

definition is_high_surrogate :: "nat \<Rightarrow> bool" where
  "is_high_surrogate r \<longleftrightarrow> 55296 \<le> r \<and> r \<le> 56319"

definition is_low_surrogate :: "nat \<Rightarrow> bool" where
  "is_low_surrogate r \<longleftrightarrow> 56320 \<le> r \<and> r \<le> 57343"

text \<open>An escape, after the backslash: the text it stands for and the rest. A surrogate pair
  is one code point, a lone surrogate is U+FFFD.\<close>

definition unescape :: "string \<Rightarrow> (string \<times> string) option" where
  "unescape s =
     (case s of
        [] \<Rightarrow> None
      | c # r \<Rightarrow>
          if c = CHR 0x22 \<or> c = CHR 0x5C \<or> c = CHR ''/'' then Some ([c], r)
          else if c = CHR ''b'' then Some ([char_of (8::nat)], r)
          else if c = CHR ''f'' then Some ([char_of (12::nat)], r)
          else if c = CHR ''n'' then Some ([char_of (10::nat)], r)
          else if c = CHR ''r'' then Some ([char_of (13::nat)], r)
          else if c = CHR ''t'' then Some ([char_of (9::nat)], r)
          else if c = CHR ''u'' then
            (case hex4 r of
               None \<Rightarrow> None
             | Some w \<Rightarrow>
                 if is_high_surrogate w then
                   (case drop 4 r of
                      b # u # t \<Rightarrow>
                        (case (if b = CHR 0x5C \<and> u = CHR ''u'' then hex4 t else None) of
                           Some x \<Rightarrow>
                             if is_low_surrogate x
                             then Some (utf8_encode (65536 + (w - 55296) * 1024 + (x - 56320)),
                                        drop 4 t)
                             else Some (rune_error, drop 4 r)
                         | None \<Rightarrow> Some (rune_error, drop 4 r))
                    | _ \<Rightarrow> Some (rune_error, drop 4 r))
                 else if is_low_surrogate w then Some (rune_error, drop 4 r)
                 else Some (utf8_encode w, drop 4 r))
          else None)"

text \<open>A string literal, after the opening quote; ill-formed UTF-8 becomes U+FFFD. Each step
  consumes at least one byte, so the number of bytes bounds the steps.\<close>

fun parse_str :: "nat \<Rightarrow> string \<Rightarrow> (string \<times> string) option" where
  "parse_str 0 s = None"
| "parse_str (Suc n) [] = None"
| "parse_str (Suc n) (c # s) =
     (if c = CHR 0x22 then Some ([], s)
      else if ch c < 32 then None
      else if c = CHR 0x5C then
        (case unescape s of
           None \<Rightarrow> None
         | Some (t, r) \<Rightarrow> map_option (apfst ((@) t)) (parse_str n r))
      else if ch c < 128 then map_option (apfst ((#) c)) (parse_str n s)
      else if utf8_len (c # s) = 0 then map_option (apfst ((@) rune_error)) (parse_str n s)
      else map_option (apfst ((@) (take (utf8_len (c # s)) (c # s))))
             (parse_str n (drop (utf8_len (c # s) - 1) s)))"

text \<open>A number literal: the longest match of the grammar, which must be complete.\<close>

definition parse_digits :: "string \<Rightarrow> (string \<times> string) option" where
  "parse_digits s =
     (let d = takeWhile is_digit s in if d = [] then None else Some (d, dropWhile is_digit s))"

definition parse_int_part :: "string \<Rightarrow> (string \<times> string) option" where
  "parse_int_part s =
     (case s of c # r \<Rightarrow> if c = CHR ''0'' then Some ([c], r) else parse_digits s | [] \<Rightarrow> None)"

definition parse_frac_part :: "string \<Rightarrow> (string \<times> string) option" where
  "parse_frac_part s =
     (case s of
        c # r \<Rightarrow> if c = CHR ''.'' then map_option (apfst ((#) c)) (parse_digits r) else Some ([], s)
      | [] \<Rightarrow> Some ([], s))"

definition parse_exp_part :: "string \<Rightarrow> (string \<times> string) option" where
  "parse_exp_part s =
     (case s of
        c # r \<Rightarrow>
          if c = CHR ''e'' \<or> c = CHR ''E'' then
            (case r of
               d # t \<Rightarrow>
                 if d = CHR ''+'' \<or> d = CHR ''-''
                 then map_option (apfst (\<lambda>x. c # d # x)) (parse_digits t)
                 else map_option (apfst ((#) c)) (parse_digits r)
             | [] \<Rightarrow> None)
          else Some ([], s)
      | [] \<Rightarrow> Some ([], s))"

definition parse_num :: "string \<Rightarrow> (string \<times> string) option" where
  "parse_num s =
     (let neg = (case s of c # _ \<Rightarrow> c = CHR ''-'' | [] \<Rightarrow> False); s1 = (if neg then tl s else s)
      in case parse_int_part s1 of
           None \<Rightarrow> None
         | Some (i, s2) \<Rightarrow>
             (case parse_frac_part s2 of
                None \<Rightarrow> None
              | Some (f, s3) \<Rightarrow>
                  (case parse_exp_part s3 of
                     None \<Rightarrow> None
                   | Some (e, s4) \<Rightarrow> Some ((if neg then ''-'' else []) @ i @ f @ e, s4))))"

definition expect :: "string \<Rightarrow> json \<Rightarrow> string \<Rightarrow> (json \<times> string) option" where
  "expect lit v s =
     (if take (length lit) s = lit then Some (v, drop (length lit) s) else None)"

definition max_depth :: nat where
  "max_depth = 10000"

text \<open>Values, array elements (after the opening bracket or a comma) and object members. The
  first argument bounds the number of steps, the second counts open brackets.\<close>

fun parse_value :: "nat \<Rightarrow> nat \<Rightarrow> string \<Rightarrow> (json \<times> string) option"
  and parse_elems :: "nat \<Rightarrow> nat \<Rightarrow> string \<Rightarrow> (json list \<times> string) option"
  and parse_members :: "nat \<Rightarrow> nat \<Rightarrow> string \<Rightarrow> ((string \<times> json) list \<times> string) option" where
  "parse_value 0 d s = None"
| "parse_value (Suc n) d s =
     (case skip_ws s of
        [] \<Rightarrow> None
      | c # r \<Rightarrow>
          if c = CHR ''{'' then
            (if max_depth \<le> d then None
             else case skip_ws r of
                    [] \<Rightarrow> None
                  | c2 # r2 \<Rightarrow>
                      if c2 = CHR ''}'' then Some (JObj [], r2)
                      else map_option (apfst JObj) (parse_members n (Suc d) r))
          else if c = CHR ''['' then
            (if max_depth \<le> d then None
             else case skip_ws r of
                    [] \<Rightarrow> None
                  | c2 # r2 \<Rightarrow>
                      if c2 = CHR '']'' then Some (JArr [], r2)
                      else map_option (apfst JArr) (parse_elems n (Suc d) r))
          else if c = CHR 0x22 then map_option (apfst JStr) (parse_str (length r) r)
          else if c = CHR ''t'' then expect ''true'' (JBool True) (c # r)
          else if c = CHR ''f'' then expect ''false'' (JBool False) (c # r)
          else if c = CHR ''n'' then expect ''null'' JNull (c # r)
          else map_option (apfst JNum) (parse_num (c # r)))"
| "parse_elems 0 d s = None"
| "parse_elems (Suc n) d s =
     (case parse_value n d s of
        None \<Rightarrow> None
      | Some (v, r) \<Rightarrow>
          (case skip_ws r of
             [] \<Rightarrow> None
           | c # t \<Rightarrow>
               if c = CHR '']'' then Some ([v], t)
               else if c = CHR '','' then map_option (apfst ((#) v)) (parse_elems n d t)
               else None))"
| "parse_members 0 d s = None"
| "parse_members (Suc n) d s =
     (case skip_ws s of
        [] \<Rightarrow> None
      | q # r \<Rightarrow>
          if q \<noteq> CHR 0x22 then None
          else case parse_str (length r) r of
            None \<Rightarrow> None
          | Some (k, r2) \<Rightarrow>
              (case skip_ws r2 of
                 [] \<Rightarrow> None
               | c # r3 \<Rightarrow>
                   if c \<noteq> CHR '':'' then None
                   else case parse_value n d r3 of
                     None \<Rightarrow> None
                   | Some (v, r4) \<Rightarrow>
                       (case skip_ws r4 of
                          [] \<Rightarrow> None
                        | c2 # t \<Rightarrow>
                            if c2 = CHR ''}'' then Some ([(k, v)], t)
                            else if c2 = CHR '','' then
                              map_option (apfst ((#) (k, v))) (parse_members n d t)
                            else None)))"

text \<open>The whole input is one value. Every two steps of the parser consume at least one byte.\<close>

definition json_parse :: "string \<Rightarrow> json option" where
  "json_parse s =
     (case parse_value (2 * length s + 1) 0 s of
        None \<Rightarrow> None
      | Some (v, r) \<Rightarrow> if skip_ws r = [] then Some v else None)"

section \<open>Unmarshal\<close>

text \<open>
  Unmarshalling into an existing Go value: whether no error was recorded, and the value
  afterwards. A mismatch of types is recorded and that value left alone, while decoding goes on.
  JSON null changes nothing in a number or a string.
\<close>

definition unm_float :: "json \<Rightarrow> f64 \<Rightarrow> bool \<times> f64" where
  "unm_float j old =
     (case j of
        JNum l \<Rightarrow> (case parse_float l of Some x \<Rightarrow> (True, x) | None \<Rightarrow> (False, old))
      | JNull \<Rightarrow> (True, old)
      | _ \<Rightarrow> (False, old))"

definition unm_string :: "json \<Rightarrow> string \<Rightarrow> bool \<times> string" where
  "unm_string j old =
     (case j of JStr s \<Rightarrow> (True, s) | JNull \<Rightarrow> (True, old) | _ \<Rightarrow> (False, old))"

text \<open>\<open>strconv.ParseInt(lit, 10, 64)\<close>: an optional sign and digits only.\<close>

definition parse_int :: "string \<Rightarrow> int option" where
  "parse_int lit =
     (let neg = (case lit of c # _ \<Rightarrow> c = CHR ''-'' | [] \<Rightarrow> False);
          ds = (if neg then tl lit else lit);
          v = (if neg then - int (dec_val ds) else int (dec_val ds))
      in if ds \<noteq> [] \<and> list_all is_digit ds \<and> - (2 ^ 63) \<le> v \<and> v < 2 ^ 63
         then Some v else None)"

definition unm_int :: "json \<Rightarrow> int \<Rightarrow> bool \<times> int" where
  "unm_int j old =
     (case j of
        JNum l \<Rightarrow> (case parse_int l of Some i \<Rightarrow> (True, i) | None \<Rightarrow> (False, old))
      | JNull \<Rightarrow> (True, old)
      | _ \<Rightarrow> (False, old))"

text \<open>
  A slice: nil, or the elements in use and the rest of the backing array. Elements are
  decoded in place, so an element that is null or of the wrong type keeps what the backing
  array held there; new memory is the zero value \<open>z\<close>.
\<close>

datatype 'a slice = NilSlice | Slice "'a list" "'a list"

fun slice_vals :: "'a slice \<Rightarrow> 'a list" where
  "slice_vals NilSlice = []"
| "slice_vals (Slice v s) = v"

fun slice_backing :: "'a slice \<Rightarrow> 'a list" where
  "slice_backing NilSlice = []"
| "slice_backing (Slice v s) = v @ s"

fun unm_elems :: "(json \<Rightarrow> 'a \<Rightarrow> bool \<times> 'a) \<Rightarrow> 'a \<Rightarrow> json list \<Rightarrow> 'a list \<Rightarrow> bool \<times> 'a list" where
  "unm_elems dec z [] old = (True, [])"
| "unm_elems dec z (j # js) old =
     (let (ok, x) = dec j (case old of [] \<Rightarrow> z | o1 # _ \<Rightarrow> o1);
          (oks, xs) = unm_elems dec z js (tl old)
      in (ok \<and> oks, x # xs))"

definition unm_slice :: "(json \<Rightarrow> 'a \<Rightarrow> bool \<times> 'a) \<Rightarrow> 'a \<Rightarrow> json \<Rightarrow> 'a slice \<Rightarrow> bool \<times> 'a slice" where
  "unm_slice dec z j old =
     (case j of
        JArr [] \<Rightarrow> (True, Slice [] [])
      | JArr js \<Rightarrow>
          (let (ok, xs) = unm_elems dec z js (slice_backing old)
           in (ok, Slice xs (drop (length js) (slice_backing old))))
      | JNull \<Rightarrow> (True, NilSlice)
      | _ \<Rightarrow> (False, old))"

text \<open>Struct members: a key selects the field of that exact name, else one equal to it up to
  letter case (the long s and the Kelvin sign fold to s and k).\<close>

definition upper :: "char \<Rightarrow> char" where
  "upper c = (if 97 \<le> ch c \<and> ch c \<le> 122 then char_of (ch c - 32) else c)"

fun fold_name :: "string \<Rightarrow> string" where
  "fold_name [] = []"
| "fold_name [a] = [upper a]"
| "fold_name [a, b] =
     (if ch a = 197 \<and> ch b = 191 then ''S'' else [upper a, upper b])"
| "fold_name (a # b # c # s) =
     (if ch a = 197 \<and> ch b = 191 then CHR ''S'' # fold_name (c # s)
      else if ch a = 226 \<and> ch b = 132 \<and> ch c = 170 then CHR ''K'' # fold_name s
      else upper a # fold_name (b # c # s))"

definition select_field :: "string list \<Rightarrow> string \<Rightarrow> string option" where
  "select_field names key =
     (if key \<in> set names then Some key
      else find (\<lambda>n. fold_name n = fold_name key) names)"

fun unm_members ::
  "string list \<Rightarrow> (string \<Rightarrow> json \<Rightarrow> 's \<Rightarrow> bool \<times> 's) \<Rightarrow> (string \<times> json) list \<Rightarrow> 's \<Rightarrow> bool \<times> 's" where
  "unm_members names upd [] x = (True, x)"
| "unm_members names upd ((k, v) # ms) x =
     (case select_field names k of
        None \<Rightarrow> unm_members names upd ms x
      | Some f \<Rightarrow>
          (let (ok, y) = upd f v x; (oks, z) = unm_members names upd ms y in (ok \<and> oks, z)))"

text \<open>\<open>json.Unmarshal(raw, &x)\<close> for a struct \<open>x\<close> with fields \<open>names\<close>.\<close>

definition unm_struct ::
  "string list \<Rightarrow> (string \<Rightarrow> json \<Rightarrow> 's \<Rightarrow> bool \<times> 's) \<Rightarrow> json \<Rightarrow> 's \<Rightarrow> bool \<times> 's" where
  "unm_struct names upd j x =
     (case j of
        JObj ms \<Rightarrow> unm_members names upd ms x
      | JNull \<Rightarrow> (True, x)
      | _ \<Rightarrow> (False, x))"

text \<open>\<open>map[string]json.RawMessage\<close>: the last member of a key wins. A Go map has no order; the
  list is one enumeration of it.\<close>

fun put :: "string \<Rightarrow> 'v \<Rightarrow> (string \<times> 'v) list \<Rightarrow> (string \<times> 'v) list" where
  "put k v [] = [(k, v)]"
| "put k v ((k2, v2) # m) = (if k2 = k then (k, v) # m else (k2, v2) # put k v m)"

definition members_map :: "(string \<times> json) list \<Rightarrow> (string \<times> json) list" where
  "members_map ms = foldl (\<lambda>m (k, v). put k v m) [] ms"

end
