(* ===== verification/Hotbuffer.thy ===== *)
theory Hotbuffer
  imports GoTime Json
begin

text \<open>
  \<open>internal/hotbuffer/buffer.go\<close> and \<open>hashes.go\<close>: the SQLite ledger. The schema's
  tables are lists of rows in insertion order with the last id their \<open>AUTOINCREMENT\<close> gave
  out; each SQL statement of the source is the function it denotes on the tables, with the
  constraints the schema declares (\<open>UNIQUE\<close>, \<open>REFERENCES\<close> with foreign keys on).
  Whether the database fails on a statement (disk, lock timeout, cancelled context) is outside
  the code: every statement takes that as an argument of type \<^typ>\<open>err option\<close>, and a statement
  that fails changes nothing.
\<close>

section \<open>Tables\<close>

record packet_row =
  pk_id :: int
  session_id :: string
  seq :: u64
  tick_utc :: string
  tick_mono_ns :: int
  telemetry_json :: string
  anomaly_extruder :: int
  anomaly_bed :: int
  anomaly_load_cell :: int
  recovered_from_cache :: int
  prev_packet_blake3 :: "string option"
  packet_sha256 :: string
  packet_blake3 :: "string option"
  tpm_sig :: "bytes option"
  quote_ref :: "int option"
  upload_state :: string
  segment_id :: "int option"

record quote_row =
  qt_id :: int
  qt_session_id :: string
  qt_seq :: u64
  pcrs :: string
  nonce :: bytes
  attest_blob :: bytes
  qt_sig :: bytes
  ak_handle :: u32
  qt_created_at :: string

record segment_row =
  sg_id :: int
  sg_session_id :: string
  seq_start :: u64
  seq_end :: u64
  packet_count :: int
  merkle_root :: bytes
  sg_created_at :: string
  sg_upload_state :: string

record fault_row =
  ft_id :: int
  ft_session_id :: string
  ft_seq :: u64
  reason :: string
  detected_at :: string

record key_row =
  ky_id :: int
  role :: string
  alg :: string
  data :: bytes
  ky_created_at :: string

record database =
  packets :: "packet_row list"
  packets_last :: int
  quotes :: "quote_row list"
  quotes_last :: int
  segments :: "segment_row list"
  segments_last :: int
  provenance_faults :: "fault_row list"
  faults_last :: int
  attestation_keys :: "key_row list"
  keys_last :: int

definition empty_database :: database where
  "empty_database = \<lparr>packets = [], packets_last = 0, quotes = [], quotes_last = 0,
     segments = [], segments_last = 0, provenance_faults = [], faults_last = 0,
     attestation_keys = [], keys_last = 0\<rparr>"

section \<open>Opening\<close>

text \<open>\<open>migrate\<close> creates the tables that do not exist; a file that has them keeps its rows.\<close>

definition migrate :: "err option \<Rightarrow> database option \<Rightarrow> database res" where
  "migrate fault file =
     (case fault of
        Some e \<Rightarrow> Inl e
      | None \<Rightarrow> Inr (case file of None \<Rightarrow> empty_database | Some db \<Rightarrow> db))"

definition Open :: "err option \<Rightarrow> err option \<Rightarrow> string \<Rightarrow> database option \<Rightarrow> database res" where
  "Open open_fault exec_fault dbPath file =
     (case open_fault of
        Some e \<Rightarrow> Inl (Wrap (''hotbuffer: open '' @ dbPath) e)
      | None \<Rightarrow>
          (case migrate exec_fault file of
             Inl e \<Rightarrow> Inl (Wrap ''hotbuffer: migrate'' e)
           | Inr db \<Rightarrow> Inr db))"

section \<open>Helpers\<close>

definition boolInt :: "bool \<Rightarrow> int" where
  "boolInt b = (if b then 1 else 0)"

definition hexOrNil :: "bytes option \<Rightarrow> string option" where
  "hexOrNil b = (case b of None \<Rightarrow> None | Some x \<Rightarrow> Some (hex_encode x))"

text \<open>\<open>database/sql\<close> refuses a \<open>uint64\<close> argument with the high bit set.\<close>

definition sql_uint_ok :: "u64 \<Rightarrow> bool" where
  "sql_uint_ok w \<longleftrightarrow> unat w < 2 ^ 63"

definition high_bit_error :: err where
  "high_bit_error = Err ''sql: uint64 values with high bit set are not supported''"

section \<open>Packet writes\<close>

record PacketRow =
  RowSessionID :: string
  RowSeq :: u64
  RowTickUTC :: gotime
  RowTickMonoNs :: int
  TelemetryJSON :: bytes
  RowAnomalyExtruder :: bool
  RowAnomalyBed :: bool
  RowAnomalyLoadCell :: bool
  RowRecoveredFromCache :: bool
  RowPrevPacketBLAKE3 :: "bytes option"
  RowPacketSHA256 :: bytes
  RowPacketBLAKE3 :: "bytes option"

definition packet_columns :: "int \<Rightarrow> PacketRow \<Rightarrow> packet_row" where
  "packet_columns i p =
     \<lparr>pk_id = i, session_id = RowSessionID p, seq = RowSeq p,
      tick_utc = rfc3339nano (RowTickUTC p), tick_mono_ns = RowTickMonoNs p,
      telemetry_json = string_of (TelemetryJSON p),
      anomaly_extruder = boolInt (RowAnomalyExtruder p),
      anomaly_bed = boolInt (RowAnomalyBed p),
      anomaly_load_cell = boolInt (RowAnomalyLoadCell p),
      recovered_from_cache = boolInt (RowRecoveredFromCache p),
      prev_packet_blake3 = hexOrNil (RowPrevPacketBLAKE3 p),
      packet_sha256 = hex_encode (RowPacketSHA256 p),
      packet_blake3 = hexOrNil (RowPacketBLAKE3 p),
      tpm_sig = None, quote_ref = None, upload_state = ''pending'', segment_id = None\<rparr>"

text \<open>The constraint \<open>UNIQUE (session_id, seq)\<close>.\<close>

definition seq_taken :: "string \<Rightarrow> u64 \<Rightarrow> database \<Rightarrow> bool" where
  "seq_taken s n db \<longleftrightarrow> (\<exists>r \<in> set (packets db). session_id r = s \<and> seq r = n)"

definition WritePacket :: "err option \<Rightarrow> PacketRow \<Rightarrow> database \<Rightarrow> int res \<times> database" where
  "WritePacket fault p db =
     (let wrap = Wrap (''hotbuffer: write packet seq='' @ dec_nat (unat (RowSeq p))) in
      if \<not> sql_uint_ok (RowSeq p) then (Inl (wrap high_bit_error), db)
      else case fault of
        Some e \<Rightarrow> (Inl (wrap e), db)
      | None \<Rightarrow>
          if seq_taken (RowSessionID p) (RowSeq p) db
          then (Inl (wrap (Err ''UNIQUE constraint failed: packets.session_id, packets.seq'')), db)
          else let i = packets_last db + 1 in
            (Inr i, db\<lparr>packets := packets db @ [packet_columns i p], packets_last := i\<rparr>))"

definition SetTPMSig ::
  "err option \<Rightarrow> int \<Rightarrow> bytes option \<Rightarrow> int \<Rightarrow> database \<Rightarrow> err option \<times> database" where
  "SetTPMSig fault rowID tpmSig quoteRef db =
     (case fault of
        Some e \<Rightarrow> (Some e, db)
      | None \<Rightarrow>
          if (\<exists>r \<in> set (packets db). pk_id r = rowID) \<and> (\<forall>q \<in> set (quotes db). qt_id q \<noteq> quoteRef)
          then (Some (Err ''FOREIGN KEY constraint failed''), db)
          else (None, db\<lparr>packets := map (\<lambda>r. if pk_id r = rowID
                  then r\<lparr>tpm_sig := tpmSig, quote_ref := Some quoteRef\<rparr> else r) (packets db)\<rparr>))"

definition RecordProvenanceFault ::
  "err option \<Rightarrow> gotime \<Rightarrow> string \<Rightarrow> u64 \<Rightarrow> string \<Rightarrow> database \<Rightarrow> err option \<times> database" where
  "RecordProvenanceFault fault now sessionID sq rsn db =
     (if \<not> sql_uint_ok sq then (Some high_bit_error, db)
      else case fault of
        Some e \<Rightarrow> (Some e, db)
      | None \<Rightarrow>
          (let i = faults_last db + 1 in
           (None, db\<lparr>provenance_faults := provenance_faults db @
                      [\<lparr>ft_id = i, ft_session_id = sessionID, ft_seq = sq, reason = rsn,
                        detected_at = rfc3339nano now\<rparr>],
                    faults_last := i\<rparr>)))"

text \<open>\<open>INSERT OR IGNORE\<close> with \<open>UNIQUE (role, data)\<close>: the same bytes again are a no-op.\<close>

definition WriteAttestationKey ::
  "err option \<Rightarrow> gotime \<Rightarrow> string \<Rightarrow> string \<Rightarrow> bytes \<Rightarrow> database \<Rightarrow> err option \<times> database" where
  "WriteAttestationKey fault now rl al dt db =
     (case fault of
        Some e \<Rightarrow> (Some (Wrap (''hotbuffer: write attestation key role='' @ rl) e), db)
      | None \<Rightarrow>
          if \<exists>k \<in> set (attestation_keys db). role k = rl \<and> data k = dt then (None, db)
          else let i = keys_last db + 1 in
            (None, db\<lparr>attestation_keys := attestation_keys db @
                       [\<lparr>ky_id = i, role = rl, alg = al, data = dt,
                         ky_created_at = rfc3339nano now\<rparr>],
                     keys_last := i\<rparr>))"

section \<open>Quote writes\<close>

record QuoteRow =
  QSessionID :: string
  QSeq :: u64
  QPCRs :: "nat list option"
  QNonce :: bytes
  QAttestBlob :: bytes
  QSig :: bytes
  QAKHandle :: u32

text \<open>\<open>json.Marshal\<close> of a \<open>[]uint\<close>.\<close>

definition pcrs_json :: "nat list option \<Rightarrow> string" where
  "pcrs_json ps =
     json_print (case ps of None \<Rightarrow> JNull | Some xs \<Rightarrow> JArr (map (\<lambda>n. JNum (dec_nat n)) xs))"

definition WriteQuote :: "err option \<Rightarrow> gotime \<Rightarrow> QuoteRow \<Rightarrow> database \<Rightarrow> int res \<times> database" where
  "WriteQuote fault now q db =
     (if \<not> sql_uint_ok (QSeq q) then (Inl (Wrap ''hotbuffer: write quote'' high_bit_error), db)
      else case fault of
        Some e \<Rightarrow> (Inl (Wrap ''hotbuffer: write quote'' e), db)
      | None \<Rightarrow>
          (let i = quotes_last db + 1 in
           (Inr i, db\<lparr>quotes := quotes db @
                       [\<lparr>qt_id = i, qt_session_id = QSessionID q, qt_seq = QSeq q,
                         pcrs = pcrs_json (QPCRs q), nonce = QNonce q, attest_blob = QAttestBlob q,
                         qt_sig = QSig q, ak_handle = QAKHandle q, qt_created_at = rfc3339nano now\<rparr>],
                     quotes_last := i\<rparr>)))"

section \<open>Segment and upload\<close>

text \<open>\<open>LIMIT n\<close>: a negative limit is no limit.\<close>

definition sql_limit :: "int \<Rightarrow> 'a list \<Rightarrow> 'a list" where
  "sql_limit n xs = (if n < 0 then xs else take (nat n) xs)"

definition pending_rows :: "string \<Rightarrow> int \<Rightarrow> database \<Rightarrow> packet_row list" where
  "pending_rows sessionID maxBatch db =
     sql_limit maxBatch (sort_key (\<lambda>r. unat (seq r))
       (filter (\<lambda>r. session_id r = sessionID \<and> upload_state r = ''pending'') (packets db)))"

text \<open>The loop over \<open>seqs\<close>: how many from the start are consecutive.\<close>

fun contiguous :: "u64 list \<Rightarrow> nat" where
  "contiguous [] = 0"
| "contiguous [a] = 1"
| "contiguous (a # b # s) = (if b \<noteq> a + 1 then 1 else Suc (contiguous (b # s)))"

text \<open>\<open>PendingRange\<close>. The loop over the result does not look at \<open>rows.Err()\<close>: when reading
  stops early, after \<open>k\<close> rows (\<open>early = Some k\<close>), those rows are taken for all of them.\<close>

definition PendingRange ::
  "err option \<Rightarrow> nat option \<Rightarrow> string \<Rightarrow> int \<Rightarrow> database \<Rightarrow> (u64 \<times> u64 \<times> int list) res" where
  "PendingRange fault early sessionID maxBatch db =
     (case fault of
        Some e \<Rightarrow> Inl e
      | None \<Rightarrow>
          (let all_rows = pending_rows sessionID maxBatch db;
               rows = (case early of None \<Rightarrow> all_rows | Some k \<Rightarrow> take k all_rows);
               rowIDs = map pk_id rows; seqs = map seq rows
           in if seqs = [] then Inr (0, 0, [])
              else let n = contiguous seqs in Inr (seqs ! 0, seqs ! (n - 1), take n rowIDs)))"

definition mark_uploaded :: "int \<Rightarrow> int \<Rightarrow> database \<Rightarrow> database" where
  "mark_uploaded segID rowID db =
     db\<lparr>packets := map (\<lambda>r. if pk_id r = rowID
          then r\<lparr>upload_state := ''uploaded'', segment_id := Some segID\<rparr> else r) (packets db)\<rparr>"

text \<open>The updates of the transaction, each of which may fail.\<close>

fun mark_all :: "(int \<Rightarrow> err option) \<Rightarrow> int \<Rightarrow> int list \<Rightarrow> database \<Rightarrow> database res" where
  "mark_all fault segID [] db = Inr db"
| "mark_all fault segID (i # is) db =
     (case fault i of
        Some e \<Rightarrow> Inl e
      | None \<Rightarrow> mark_all fault segID is (mark_uploaded segID i db))"

text \<open>\<open>WriteSegment\<close>: one transaction. An error before or at the commit rolls everything
  back.\<close>

record tx_faults =
  begin_fault :: "err option"
  insert_fault :: "err option"
  update_fault :: "int \<Rightarrow> err option"
  commit_fault :: "err option"

definition WriteSegment ::
  "tx_faults \<Rightarrow> gotime \<Rightarrow> string \<Rightarrow> u64 \<Rightarrow> u64 \<Rightarrow> int \<Rightarrow> bytes \<Rightarrow> int list \<Rightarrow> database
     \<Rightarrow> err option \<times> database" where
  "WriteSegment fs now sessionID seqStart seqEnd packetCount merkleRoot rowIDs db =
     (case begin_fault fs of
        Some e \<Rightarrow> (Some e, db)
      | None \<Rightarrow>
      if \<not> sql_uint_ok seqStart \<or> \<not> sql_uint_ok seqEnd then (Some high_bit_error, db)
      else case insert_fault fs of
        Some e \<Rightarrow> (Some e, db)
      | None \<Rightarrow>
          (let segID = segments_last db + 1;
               db1 = db\<lparr>segments := segments db @
                         [\<lparr>sg_id = segID, sg_session_id = sessionID, seq_start = seqStart,
                           seq_end = seqEnd, packet_count = packetCount, merkle_root = merkleRoot,
                           sg_created_at = rfc3339nano now, sg_upload_state = ''pending''\<rparr>],
                       segments_last := segID\<rparr>
           in case mark_all (update_fault fs) segID rowIDs db1 of
                Inl e \<Rightarrow> (Some e, db)
              | Inr db2 \<Rightarrow>
                  (case commit_fault fs of Some e \<Rightarrow> (Some e, db) | None \<Rightarrow> (None, db2))))"

section \<open>Packet hashes\<close>

text \<open>The query has one placeholder per row id. That SQLite refuses a statement with too many of them
  (32766 by default, far above the configured batch of 60) is one of the failures that
  \<open>query_fault\<close> stands for.\<close>

text \<open>The map from row id to decoded hash that \<open>PacketHashes\<close> builds from the selected rows;
  a row without a hash has no entry.\<close>

fun hash_map :: "packet_row list \<Rightarrow> (int \<rightharpoonup> bytes) res" where
  "hash_map [] = Inr Map.empty"
| "hash_map (r # rs) =
     (case (case packet_blake3 r of
              None \<Rightarrow> Inr None
            | Some h \<Rightarrow>
                (case hex_decode h of
                   Inl e \<Rightarrow> Inl (Wrap (''hotbuffer: decode blake3 hash for row '' @ dec_int (pk_id r)) e)
                 | Inr b \<Rightarrow> Inr (Some b))) of
        Inl e \<Rightarrow> Inl e
      | Inr h \<Rightarrow>
          (case hash_map rs of
             Inl e \<Rightarrow> Inl e
           | Inr m \<Rightarrow> Inr (case h of None \<Rightarrow> m | Some b \<Rightarrow> m(pk_id r \<mapsto> b))))"

definition PacketHashes ::
  "err option \<Rightarrow> err option \<Rightarrow> int list \<Rightarrow> database \<Rightarrow> bytes option list res" where
  "PacketHashes query_fault rows_fault rowIDs db =
     (if rowIDs = [] then Inr []
      else case query_fault of
        Some e \<Rightarrow> Inl (Wrap ''hotbuffer: packet hashes'' e)
      | None \<Rightarrow>
          (case hash_map (filter (\<lambda>r. pk_id r \<in> set rowIDs) (packets db)) of
             Inl e \<Rightarrow> Inl e
           | Inr m \<Rightarrow>
               (case rows_fault of Some e \<Rightarrow> Inl e | None \<Rightarrow> Inr (map m rowIDs))))"

section \<open>The ledger the packetizer relies on\<close>

text \<open>
  A session's chain as the ledger shows it: for each packet its sequence number, the hash it
  names as its predecessor's, and its own hash (both as the stored hexadecimal text).
\<close>

record link =
  link_seq :: u64
  link_prev :: "string option"
  link_hash :: "string option"

definition row_link :: "PacketRow \<Rightarrow> link" where
  "row_link p = \<lparr>link_seq = RowSeq p, link_prev = hexOrNil (RowPrevPacketBLAKE3 p),
     link_hash = hexOrNil (RowPacketBLAKE3 p)\<rparr>"

definition chain :: "database \<Rightarrow> string \<Rightarrow> link list" where
  "chain db s = map (\<lambda>r. \<lparr>link_seq = seq r, link_prev = prev_packet_blake3 r,
     link_hash = packet_blake3 r\<rparr>) (filter (\<lambda>r. session_id r = s) (packets db))"

text \<open>Gap free: numbered 0, 1, 2, ... in order, each naming the hash of the one before.\<close>

definition gap_free :: "link list \<Rightarrow> bool" where
  "gap_free ls \<longleftrightarrow>
     (\<forall>i < length ls. unat (link_seq (ls ! i)) = i \<and> link_hash (ls ! i) \<noteq> None \<and>
        link_prev (ls ! i) = (if i = 0 then None else link_hash (ls ! (i - 1))))"

lemma gap_free_Nil [simp]: "gap_free []"
  by (simp add: gap_free_def)

lemma gap_free_snoc:
  "gap_free (ls @ [l]) \<longleftrightarrow>
     gap_free ls \<and> unat (link_seq l) = length ls \<and> link_hash l \<noteq> None \<and>
     link_prev l = (if ls = [] then None else link_hash (last ls))"
proof -
  let ?ok = "\<lambda>xs i. unat (link_seq (xs ! i)) = i \<and> link_hash (xs ! i) \<noteq> None \<and>
    link_prev (xs ! i) = (if i = 0 then None else link_hash (xs ! (i - 1)))"
  have "gap_free (ls @ [l]) \<longleftrightarrow> (\<forall>i < length ls. ?ok (ls @ [l]) i) \<and> ?ok (ls @ [l]) (length ls)"
    unfolding gap_free_def by (simp only: length_append_singleton less_Suc_eq) blast
  moreover have "?ok (ls @ [l]) i = ?ok ls i" if "i < length ls" for i
    using that by (simp add: nth_append less_imp_diff_less)
  moreover have "?ok (ls @ [l]) (length ls) \<longleftrightarrow> unat (link_seq l) = length ls \<and> link_hash l \<noteq> None \<and>
      link_prev l = (if ls = [] then None else link_hash (last ls))"
    by (cases ls rule: rev_cases) (simp_all add: nth_append)
  ultimately show ?thesis unfolding gap_free_def by simp
qed

text \<open>
  What a writer needs of such a ledger: a successful write appends its link to its session's
  chain and to no other, the number was free, numbers stay below \<open>2^63\<close>, and a failed write
  changes nothing.
\<close>

locale custody_ledger =
  fixes append_row :: "err option \<Rightarrow> PacketRow \<Rightarrow> 'd \<Rightarrow> int res \<times> 'd"
    and view :: "'d \<Rightarrow> string \<Rightarrow> link list"
  assumes write_appends: "append_row f p d = (Inr i, d') \<Longrightarrow>
      view d' s = (if s = RowSessionID p then view d s @ [row_link p] else view d s)"
    and write_free: "append_row f p d = (Inr i, d') \<Longrightarrow>
      l \<in> set (view d (RowSessionID p)) \<Longrightarrow> link_seq l \<noteq> RowSeq p"
    and write_bound: "append_row f p d = (Inr i, d') \<Longrightarrow> unat (RowSeq p) < 2 ^ 63"
    and write_error: "append_row f p d = (Inl e, d') \<Longrightarrow> d' = d"
begin

text \<open>The writer's position \<open>(s, n, h)\<close>: the next number is the length of the chain and \<open>h\<close> its
  last hash; or the session id was used before, the writer starts at 0, and is stuck there.\<close>

definition at_end :: "'d \<Rightarrow> string \<Rightarrow> u64 \<Rightarrow> string option \<Rightarrow> bool" where
  "at_end d s n h \<longleftrightarrow>
     (unat n = length (view d s) \<and> h = (if view d s = [] then None else link_hash (last (view d s))))
     \<or> (n = 0 \<and> view d s \<noteq> [])"

lemma write_gap_free:
  assumes gf: "\<forall>s. gap_free (view d s)" and pos: "at_end d (RowSessionID p) (RowSeq p) (link_prev (row_link p))"
    and hash: "link_hash (row_link p) \<noteq> None" and w: "append_row f p d = (Inr i, d')"
  shows "(\<forall>s. gap_free (view d' s)) \<and>
    at_end d' (RowSessionID p) (RowSeq p + 1) (link_hash (row_link p))"
proof -
  let ?v = "view d (RowSessionID p)"
  have gfv: "gap_free ?v" using gf by simp
  have "\<not> (RowSeq p = 0 \<and> ?v \<noteq> [])"
  proof
    assume z: "RowSeq p = 0 \<and> ?v \<noteq> []"
    then have "0 < length ?v" by simp
    with gfv have "unat (link_seq (?v ! 0)) = 0" unfolding gap_free_def by blast
    then have "link_seq (?v ! 0) = 0" by (simp add: unat_eq_0)
    moreover have "?v ! 0 \<in> set ?v" using z by simp
    ultimately show False using write_free [OF w] z by metis
  qed
  with pos have n: "unat (RowSeq p) = length ?v"
    and h: "link_prev (row_link p) = (if ?v = [] then None else link_hash (last ?v))"
    by (auto simp: at_end_def)
  have v': "view d' s = (if s = RowSessionID p then view d s @ [row_link p] else view d s)" for s
    by (rule write_appends [OF w])
  have "gap_free (?v @ [row_link p])"
    using gfv n h hash by (simp add: gap_free_snoc row_link_def)
  then have "\<forall>s. gap_free (view d' s)" using gf by (simp add: v')
  moreover have "unat (RowSeq p + 1) = Suc (unat (RowSeq p))"
    using write_bound [OF w] by (simp add: unat_word_ariths)
  ultimately show ?thesis by (simp add: at_end_def v' n)
qed

lemma failed_write: "append_row f p d = (Inl e, d') \<Longrightarrow> view d' s = view d s"
  by (drule write_error) simp

text \<open>A fresh session id puts the writer at the end of an empty chain.\<close>

lemma at_end_fresh: "view d s = [] \<Longrightarrow> at_end d s 0 None"
  by (simp add: at_end_def)

text \<open>Any start of a session is a position: at the end of an empty chain, or stuck.\<close>

lemma at_end_start: "at_end d s 0 None"
  by (cases "view d s = []") (simp_all add: at_end_def)

text \<open>A stuck writer stays stuck: its number is taken, so no write succeeds.\<close>

lemma stuck_forever:
  assumes "gap_free (view d (RowSessionID p))" "RowSeq p = 0" "view d (RowSessionID p) \<noteq> []"
  shows "\<exists>e. append_row f p d = (Inl e, d)"
proof -
  let ?v = "view d (RowSessionID p)"
  have "0 < length ?v" using assms(3) by simp
  with assms(1) have "unat (link_seq (?v ! 0)) = 0" unfolding gap_free_def by blast
  then have "link_seq (?v ! 0) = RowSeq p" using assms(2) by (simp add: unat_eq_0)
  moreover have "?v ! 0 \<in> set ?v" using assms(3) by simp
  ultimately have "append_row f p d \<noteq> (Inr i, d')" for i d' using write_free by blast
  then obtain e d' where w: "append_row f p d = (Inl e, d')" by (metis surj_pair sum.exhaust)
  then show ?thesis using write_error [OF w] by blast
qed

end

interpretation ledger: custody_ledger WritePacket chain
proof
  fix f p d i d' s l e
  show "WritePacket f p d = (Inr i, d') \<Longrightarrow>
      chain d' s = (if s = RowSessionID p then chain d s @ [row_link p] else chain d s)"
    by (auto simp: WritePacket_def Let_def chain_def row_link_def packet_columns_def
        split: option.splits if_splits)
  show "WritePacket f p d = (Inr i, d') \<Longrightarrow> l \<in> set (chain d (RowSessionID p)) \<Longrightarrow>
      link_seq l \<noteq> RowSeq p"
    by (auto simp: WritePacket_def Let_def chain_def seq_taken_def split: option.splits if_splits)
  show "WritePacket f p d = (Inr i, d') \<Longrightarrow> unat (RowSeq p) < 2 ^ 63"
    by (auto simp: WritePacket_def Let_def sql_uint_ok_def split: option.splits if_splits)
  show "WritePacket f p d = (Inl e, d') \<Longrightarrow> d' = d"
    by (auto simp: WritePacket_def Let_def split: option.splits if_splits)
qed

section \<open>Well-formed databases\<close>

text \<open>
  What the schema and the code keep true of the tables: ids count up from 1 and never exceed
  the last one given out, \<open>(session_id, seq)\<close> and \<open>(role, data)\<close> are unique, sequence
  numbers fit SQLite's integers, references point at existing rows, and a packet is uploaded
  exactly when it belongs to a segment.
\<close>

definition ids_ok :: "int list \<Rightarrow> int \<Rightarrow> bool" where
  "ids_ok ids n \<longleftrightarrow> sorted_wrt (<) ids \<and> (\<forall>i \<in> set ids. 0 < i \<and> i \<le> n) \<and> 0 \<le> n"

definition row_ok :: "database \<Rightarrow> packet_row \<Rightarrow> bool" where
  "row_ok db r \<longleftrightarrow>
     sql_uint_ok (seq r) \<and>
     (\<forall>q. quote_ref r = Some q \<longrightarrow> q \<in> qt_id ` set (quotes db)) \<and>
     (case segment_id r of
        None \<Rightarrow> upload_state r = ''pending''
      | Some g \<Rightarrow> upload_state r = ''uploaded'' \<and> g \<in> sg_id ` set (segments db))"

definition db_wf :: "database \<Rightarrow> bool" where
  "db_wf db \<longleftrightarrow>
     ids_ok (map pk_id (packets db)) (packets_last db) \<and>
     ids_ok (map qt_id (quotes db)) (quotes_last db) \<and>
     ids_ok (map sg_id (segments db)) (segments_last db) \<and>
     ids_ok (map ft_id (provenance_faults db)) (faults_last db) \<and>
     ids_ok (map ky_id (attestation_keys db)) (keys_last db) \<and>
     distinct (map (\<lambda>r. (session_id r, seq r)) (packets db)) \<and>
     distinct (map (\<lambda>k. (role k, data k)) (attestation_keys db)) \<and>
     (\<forall>r \<in> set (packets db). row_ok db r)"

lemma ids_ok_Nil [simp]: "ids_ok [] 0"
  by (simp add: ids_ok_def)

lemma ids_ok_snoc [simp]: "ids_ok ids n \<Longrightarrow> ids_ok (ids @ [n + 1]) (n + 1)"
  by (auto simp: ids_ok_def sorted_wrt_append)

lemma ids_ok_distinct: "ids_ok ids n \<Longrightarrow> distinct ids"
  by (simp add: ids_ok_def strict_sorted_iff)

lemma db_wf_empty [simp]: "db_wf empty_database"
  by (simp add: db_wf_def empty_database_def)

lemma row_ok_mono:
  "row_ok db r \<Longrightarrow> set (quotes db) \<subseteq> set (quotes db') \<Longrightarrow>
     set (segments db) \<subseteq> set (segments db') \<Longrightarrow> row_ok db' r"
  unfolding row_ok_def by (cases "segment_id r") (simp, meson image_mono subsetD)+

lemma db_wf_WritePacket: "db_wf db \<Longrightarrow> db_wf (snd (WritePacket f p db))"
proof -
  assume wf: "db_wf db"
  show ?thesis
  proof (cases "snd (WritePacket f p db) = db")
    case False
    let ?r = "packet_columns (packets_last db + 1) p"
    from False have ok: "sql_uint_ok (RowSeq p)" "\<not> seq_taken (RowSessionID p) (RowSeq p) db"
      and eq: "snd (WritePacket f p db) = db\<lparr>packets := packets db @ [?r], packets_last := packets_last db + 1\<rparr>"
      by (auto simp: WritePacket_def Let_def split: option.splits if_splits)
    have "row_ok db ?r" using ok by (simp add: row_ok_def packet_columns_def)
    then have "\<forall>r \<in> set (packets db @ [?r]). row_ok (snd (WritePacket f p db)) r"
      using wf row_ok_mono [of db _ "snd (WritePacket f p db)"] by (auto simp: db_wf_def eq)
    moreover have "(session_id ?r, seq ?r) \<notin> set (map (\<lambda>r. (session_id r, seq r)) (packets db))"
      using ok(2) by (auto simp: seq_taken_def packet_columns_def)
    moreover have "pk_id ?r = packets_last db + 1" by (simp add: packet_columns_def)
    ultimately show ?thesis using wf by (simp add: db_wf_def eq)
  qed (use wf in simp)
qed

lemma db_wf_update:
  assumes "db_wf db"
    and "\<And>r. pk_id (g r) = pk_id r \<and> session_id (g r) = session_id r \<and> seq (g r) = seq r"
    and "\<And>r. r \<in> set (packets db) \<Longrightarrow> row_ok db r \<Longrightarrow> row_ok db (g r)"
  shows "db_wf (db\<lparr>packets := map g (packets db)\<rparr>)"
proof -
  have "row_ok (db\<lparr>packets := ps\<rparr>) r = row_ok db r" for ps r
    by (simp add: row_ok_def split: option.split)
  moreover have "map pk_id (map g (packets db)) = map pk_id (packets db)"
    "map (\<lambda>r. (session_id r, seq r)) (map g (packets db)) = map (\<lambda>r. (session_id r, seq r)) (packets db)"
    using assms(2) by (simp_all add: comp_def)
  ultimately show ?thesis using assms(1,3) by (simp add: db_wf_def del: map_map)
qed

lemma db_wf_SetTPMSig: "db_wf db \<Longrightarrow> db_wf (snd (SetTPMSig f i sig q db))"
proof (cases "snd (SetTPMSig f i sig q db) = db")
  case False
  assume wf: "db_wf db"
  let ?g = "\<lambda>r. if pk_id r = i then r\<lparr>tpm_sig := sig, quote_ref := Some q\<rparr> else r"
  from False have eq: "snd (SetTPMSig f i sig q db) = db\<lparr>packets := map ?g (packets db)\<rparr>"
    and fk: "(\<exists>r \<in> set (packets db). pk_id r = i) \<Longrightarrow> q \<in> qt_id ` set (quotes db)"
    by (auto simp: SetTPMSig_def split: option.splits if_splits)
  show ?thesis unfolding eq
    by (rule db_wf_update [OF wf]) (use fk in \<open>auto simp: row_ok_def split: option.splits\<close>)
qed simp

lemma db_wf_extend:
  assumes "db_wf db" "packets db' = packets db" "packets_last db' = packets_last db"
    and "ids_ok (map qt_id (quotes db')) (quotes_last db')" "set (quotes db) \<subseteq> set (quotes db')"
    and "ids_ok (map sg_id (segments db')) (segments_last db')" "set (segments db) \<subseteq> set (segments db')"
    and "ids_ok (map ft_id (provenance_faults db')) (faults_last db')"
    and "ids_ok (map ky_id (attestation_keys db')) (keys_last db')"
    and "distinct (map (\<lambda>k. (role k, data k)) (attestation_keys db'))"
  shows "db_wf db'"
proof -
  have "\<forall>r \<in> set (packets db'). row_ok db' r"
    using assms(1,2,5,7) row_ok_mono [of db _ db'] by (auto simp: db_wf_def)
  with assms show ?thesis by (simp add: db_wf_def)
qed

lemma db_wf_RecordProvenanceFault:
  "db_wf db \<Longrightarrow> db_wf (snd (RecordProvenanceFault f now s n m db))"
  by (rule db_wf_extend [of db])
    (auto simp: RecordProvenanceFault_def Let_def db_wf_def split: option.splits)

lemma db_wf_WriteAttestationKey:
  "db_wf db \<Longrightarrow> db_wf (snd (WriteAttestationKey f now rl al dt db))"
  by (rule db_wf_extend [of db])
    (auto simp: WriteAttestationKey_def Let_def db_wf_def split: option.splits)

lemma db_wf_WriteQuote: "db_wf db \<Longrightarrow> db_wf (snd (WriteQuote f now q db))"
  by (rule db_wf_extend [of db])
    (auto simp: WriteQuote_def Let_def db_wf_def split: option.splits)

text \<open>The updates of \<open>WriteSegment\<close> without failure: the listed rows are marked.\<close>

definition mark :: "int \<Rightarrow> int set \<Rightarrow> packet_row \<Rightarrow> packet_row" where
  "mark g ids r =
     (if pk_id r \<in> ids then r\<lparr>upload_state := ''uploaded'', segment_id := Some g\<rparr> else r)"

lemma mark_simps [simp]:
  "pk_id (mark g ids r) = pk_id r" "session_id (mark g ids r) = session_id r"
  "seq (mark g ids r) = seq r" "packet_blake3 (mark g ids r) = packet_blake3 r"
  "prev_packet_blake3 (mark g ids r) = prev_packet_blake3 r" "tpm_sig (mark g ids r) = tpm_sig r"
  "telemetry_json (mark g ids r) = telemetry_json r" "quote_ref (mark g ids r) = quote_ref r"
  "packet_sha256 (mark g ids r) = packet_sha256 r"
  by (simp_all add: mark_def)

lemma mark_all_Inr:
  "mark_all f g is db = Inr db' \<Longrightarrow> db' = db\<lparr>packets := map (mark g (set is)) (packets db)\<rparr>"
proof (induction f g "is" db arbitrary: db' rule: mark_all.induct)
  case (1 f g db)
  then show ?case by (simp add: mark_def)
next
  case (2 f g i "is" db)
  then have "db' = (mark_uploaded g i db)\<lparr>packets := map (mark g (set is)) (packets (mark_uploaded g i db))\<rparr>"
    by (auto split: option.splits)
  then show ?case by (simp add: mark_uploaded_def mark_def comp_def)
qed

lemma mark_all_ok: "(\<And>i. i \<in> set is \<Longrightarrow> f i = None) \<Longrightarrow> \<exists>db'. mark_all f g is db = Inr db'"
  by (induction f g "is" db rule: mark_all.induct) (auto split: option.split)

text \<open>A transaction either leaves the database alone or inserts one segment and marks the rows.\<close>

definition segment_written ::
  "gotime \<Rightarrow> string \<Rightarrow> u64 \<Rightarrow> u64 \<Rightarrow> int \<Rightarrow> bytes \<Rightarrow> int list \<Rightarrow> database \<Rightarrow> database" where
  "segment_written now s a b n root ids db =
     (let g = segments_last db + 1 in
      db\<lparr>segments := segments db @
          [\<lparr>sg_id = g, sg_session_id = s, seq_start = a, seq_end = b, packet_count = n,
            merkle_root = root, sg_created_at = rfc3339nano now, sg_upload_state = ''pending''\<rparr>],
         segments_last := g, packets := map (mark g (set ids)) (packets db)\<rparr>)"

lemma WriteSegment_cases:
  obtains (rollback) e where "WriteSegment fs now s a b n root ids db = (Some e, db)"
  | (commit) "WriteSegment fs now s a b n root ids db =
      (None, segment_written now s a b n root ids db)" "sql_uint_ok a" "sql_uint_ok b"
proof -
  have "(\<exists>e. WriteSegment fs now s a b n root ids db = (Some e, db)) \<or>
      WriteSegment fs now s a b n root ids db = (None, segment_written now s a b n root ids db) \<and>
      sql_uint_ok a \<and> sql_uint_ok b"
    unfolding WriteSegment_def segment_written_def Let_def
    by (auto split: option.split sum.split dest!: mark_all_Inr)
  then show ?thesis using rollback commit by blast
qed

lemma db_wf_segment_written:
  "db_wf db \<Longrightarrow> db_wf (segment_written now s a b n root ids db)"
proof -
  assume wf: "db_wf db"
  let ?g = "segments_last db + 1"
  let ?db = "db\<lparr>segments := segments db @ [\<lparr>sg_id = ?g, sg_session_id = s, seq_start = a, seq_end = b,
      packet_count = n, merkle_root = root, sg_created_at = rfc3339nano now,
      sg_upload_state = ''pending''\<rparr>], segments_last := ?g\<rparr>"
  have "db_wf ?db" by (rule db_wf_extend [OF wf]) (use wf in \<open>auto simp: db_wf_def\<close>)
  then have "db_wf (?db\<lparr>packets := map (mark ?g (set ids)) (packets ?db)\<rparr>)"
    by (rule db_wf_update) (auto simp: row_ok_def mark_def)
  then show ?thesis by (simp add: segment_written_def Let_def)
qed

lemma db_wf_WriteSegment: "db_wf db \<Longrightarrow> db_wf (snd (WriteSegment fs now s a b n root ids db))"
  by (rule WriteSegment_cases [of fs now s a b n root ids db]) (auto simp: db_wf_segment_written)

lemma db_wf_Open: "Open f g path file = Inr db \<Longrightarrow> (\<And>d. file = Some d \<Longrightarrow> db_wf d) \<Longrightarrow> db_wf db"
  by (auto simp: Open_def migrate_def split: option.splits sum.splits)

end
