(* ===== verification/Moonraker_Types.thy ===== *)
theory Moonraker_Types
  imports Json GoTime "HOL-Library.Char_ord" "HOL-Library.List_Lexorder"
begin

text \<open>
  \<open>internal/moonraker/types.go\<close>: the JSON-RPC frames and the cached printer state, each
  struct a record, with the decoders that \<open>json.Unmarshal\<close> derives from the struct tags.
\<close>

section \<open>JSON-RPC wire types\<close>

record Request =
  ReqJSONRPC :: string
  ReqID :: int
  ReqMethod :: string
  ReqParams :: json

record RPCError =
  Code :: int
  Message :: string

record Response =
  JSONRPC :: string
  RespID :: int
  Method :: string
  Params :: "json option"
  Result :: "json option"
  RespError :: "RPCError option"

record IdentifyParams =
  IdClientName :: string
  IdVersion :: string
  IdType :: string
  IdURL :: string

type_synonym SubscribeParams = "(string \<times> json) list"

definition identify_json :: "IdentifyParams \<Rightarrow> json" where
  "identify_json p =
     JObj [(''client_name'', JStr (IdClientName p)), (''version'', JStr (IdVersion p)),
           (''type'', JStr (IdType p)), (''url'', JStr (IdURL p))]"

text \<open>The objects are a Go map, which is marshalled in the order of its keys.\<close>

definition subscribe_json :: "SubscribeParams \<Rightarrow> json" where
  "subscribe_json objects = JObj [(''objects'', JObj (sort_key fst objects))]"

text \<open>The JSON encoding of a request; its parameters are never empty text.\<close>

definition request_json :: "Request \<Rightarrow> json" where
  "request_json r =
     JObj [(''jsonrpc'', JStr (ReqJSONRPC r)), (''id'', JNum (dec_int (ReqID r))),
           (''method'', JStr (ReqMethod r)), (''params'', ReqParams r)]"

definition zero_response :: Response where
  "zero_response = \<lparr>JSONRPC = [], RespID = 0, Method = [], Params = None, Result = None,
     RespError = None\<rparr>"

definition set_rpc_error :: "string \<Rightarrow> json \<Rightarrow> RPCError \<Rightarrow> bool \<times> RPCError" where
  "set_rpc_error f j x =
     (if f = ''code'' then (let (ok, v) = unm_int j (Code x) in (ok, x\<lparr>Code := v\<rparr>))
      else (let (ok, v) = unm_string j (Message x) in (ok, x\<lparr>Message := v\<rparr>)))"

text \<open>A pointer field: null stores nil, another value is decoded into the old or a new struct.\<close>

definition unm_error :: "json \<Rightarrow> RPCError option \<Rightarrow> bool \<times> RPCError option" where
  "unm_error j old =
     (case j of
        JNull \<Rightarrow> (True, None)
      | _ \<Rightarrow>
          (let (ok, v) = unm_struct [''code'', ''message''] set_rpc_error j
                           (case old of Some e \<Rightarrow> e | None \<Rightarrow> \<lparr>Code = 0, Message = []\<rparr>)
           in (ok, Some v)))"

definition response_fields :: "string list" where
  "response_fields = [''jsonrpc'', ''id'', ''method'', ''params'', ''result'', ''error'']"

definition set_response :: "string \<Rightarrow> json \<Rightarrow> Response \<Rightarrow> bool \<times> Response" where
  "set_response f j x =
     (if f = ''jsonrpc'' then (let (ok, v) = unm_string j (JSONRPC x) in (ok, x\<lparr>JSONRPC := v\<rparr>))
      else if f = ''id'' then (let (ok, v) = unm_int j (RespID x) in (ok, x\<lparr>RespID := v\<rparr>))
      else if f = ''method'' then (let (ok, v) = unm_string j (Method x) in (ok, x\<lparr>Method := v\<rparr>))
      else if f = ''params'' then (True, x\<lparr>Params := Some j\<rparr>)
      else if f = ''result'' then (True, x\<lparr>Result := Some j\<rparr>)
      else (let (ok, v) = unm_error j (RespError x) in (ok, x\<lparr>RespError := v\<rparr>)))"

definition unm_response :: "json \<Rightarrow> Response \<Rightarrow> bool \<times> Response" where
  "unm_response = unm_struct response_fields set_response"

section \<open>Printer state types\<close>

record ExtruderState =
  ExTemperature :: f64
  ExTarget :: f64
  ExPower :: f64

record HeaterBedState =
  BedTemperature :: f64
  BedTarget :: f64
  BedPower :: f64

record MotionReportState =
  LiveVelocity :: f64
  LiveExtruderVelocity :: f64
  LivePosition :: "f64 slice"

record PrintStatsState =
  State :: string
  FilamentUsed :: f64
  PrintDuration :: f64

record MCUState =
  MCUVersion :: string
  MCUBuildVersions :: string

record PrinterState =
  Extruder :: ExtruderState
  HeaterBed :: HeaterBedState
  MotionReport :: MotionReportState
  PrintStats :: PrintStatsState
  MCU :: MCUState
  ChamberTempC :: f64
  ChamberPresent :: bool

definition zero_state :: PrinterState where
  "zero_state =
     \<lparr>Extruder = \<lparr>ExTemperature = 0, ExTarget = 0, ExPower = 0\<rparr>,
      HeaterBed = \<lparr>BedTemperature = 0, BedTarget = 0, BedPower = 0\<rparr>,
      MotionReport = \<lparr>LiveVelocity = 0, LiveExtruderVelocity = 0, LivePosition = NilSlice\<rparr>,
      PrintStats = \<lparr>State = [], FilamentUsed = 0, PrintDuration = 0\<rparr>,
      MCU = \<lparr>MCUVersion = [], MCUBuildVersions = []\<rparr>,
      ChamberTempC = 0, ChamberPresent = False\<rparr>"

definition IsActive :: "PrinterState \<Rightarrow> bool" where
  "IsActive s =
     (let st = State (PrintStats s) in st = ''printing'' \<or> st = ''paused'')"

definition set_extruder :: "string \<Rightarrow> json \<Rightarrow> ExtruderState \<Rightarrow> bool \<times> ExtruderState" where
  "set_extruder f j x =
     (if f = ''temperature'' then
        (let (ok, v) = unm_float j (ExTemperature x) in (ok, x\<lparr>ExTemperature := v\<rparr>))
      else if f = ''target'' then
        (let (ok, v) = unm_float j (ExTarget x) in (ok, x\<lparr>ExTarget := v\<rparr>))
      else (let (ok, v) = unm_float j (ExPower x) in (ok, x\<lparr>ExPower := v\<rparr>)))"

definition set_heater_bed :: "string \<Rightarrow> json \<Rightarrow> HeaterBedState \<Rightarrow> bool \<times> HeaterBedState" where
  "set_heater_bed f j x =
     (if f = ''temperature'' then
        (let (ok, v) = unm_float j (BedTemperature x) in (ok, x\<lparr>BedTemperature := v\<rparr>))
      else if f = ''target'' then
        (let (ok, v) = unm_float j (BedTarget x) in (ok, x\<lparr>BedTarget := v\<rparr>))
      else (let (ok, v) = unm_float j (BedPower x) in (ok, x\<lparr>BedPower := v\<rparr>)))"

definition set_motion :: "string \<Rightarrow> json \<Rightarrow> MotionReportState \<Rightarrow> bool \<times> MotionReportState" where
  "set_motion f j x =
     (if f = ''live_velocity'' then
        (let (ok, v) = unm_float j (LiveVelocity x) in (ok, x\<lparr>LiveVelocity := v\<rparr>))
      else if f = ''live_extruder_velocity'' then
        (let (ok, v) = unm_float j (LiveExtruderVelocity x)
         in (ok, x\<lparr>LiveExtruderVelocity := v\<rparr>))
      else (let (ok, v) = unm_slice unm_float 0 j (LivePosition x)
            in (ok, x\<lparr>LivePosition := v\<rparr>)))"

definition set_print_stats :: "string \<Rightarrow> json \<Rightarrow> PrintStatsState \<Rightarrow> bool \<times> PrintStatsState" where
  "set_print_stats f j x =
     (if f = ''state'' then
        (let (ok, v) = unm_string j (State x) in (ok, x\<lparr>State := v\<rparr>))
      else if f = ''filament_used'' then
        (let (ok, v) = unm_float j (FilamentUsed x) in (ok, x\<lparr>FilamentUsed := v\<rparr>))
      else (let (ok, v) = unm_float j (PrintDuration x) in (ok, x\<lparr>PrintDuration := v\<rparr>)))"

definition set_mcu :: "string \<Rightarrow> json \<Rightarrow> MCUState \<Rightarrow> bool \<times> MCUState" where
  "set_mcu f j x =
     (if f = ''mcu_version'' then
        (let (ok, v) = unm_string j (MCUVersion x) in (ok, x\<lparr>MCUVersion := v\<rparr>))
      else (let (ok, v) = unm_string j (MCUBuildVersions x) in (ok, x\<lparr>MCUBuildVersions := v\<rparr>)))"

definition unm_extruder :: "json \<Rightarrow> ExtruderState \<Rightarrow> bool \<times> ExtruderState" where
  "unm_extruder = unm_struct [''temperature'', ''target'', ''power''] set_extruder"

definition unm_heater_bed :: "json \<Rightarrow> HeaterBedState \<Rightarrow> bool \<times> HeaterBedState" where
  "unm_heater_bed = unm_struct [''temperature'', ''target'', ''power''] set_heater_bed"

definition unm_motion :: "json \<Rightarrow> MotionReportState \<Rightarrow> bool \<times> MotionReportState" where
  "unm_motion =
     unm_struct [''live_velocity'', ''live_extruder_velocity'', ''live_position''] set_motion"

definition unm_print_stats :: "json \<Rightarrow> PrintStatsState \<Rightarrow> bool \<times> PrintStatsState" where
  "unm_print_stats = unm_struct [''state'', ''filament_used'', ''print_duration''] set_print_stats"

definition unm_mcu :: "json \<Rightarrow> MCUState \<Rightarrow> bool \<times> MCUState" where
  "unm_mcu = unm_struct [''mcu_version'', ''mcu_build_versions''] set_mcu"

definition DefaultSubscribeObjects :: "(string \<times> json) list" where
  "DefaultSubscribeObjects =
     [(''extruder'', JNull), (''heater_bed'', JNull), (''motion_report'', JNull),
      (''print_stats'', JNull), (''mcu'', JNull), (''temperature_sensor chamber'', JNull)]"

section \<open>Status deltas\<close>

text \<open>What the client sends the packetizer for each \<open>notify_status_update\<close>. The status is a Go map:
  the list is one enumeration of it, so its keys are distinct and its order means nothing.\<close>

record StatusDelta =
  Status :: "(string \<times> json) list"
  EventTime :: f64
  ReceivedAt :: gotime

end
