(* ===== verification/Policy.thy ===== *)
theory Policy
  imports Json
begin

text \<open>
  \<open>internal/policy/engine.go\<close>: the Material-Process Profile evaluator. The evaluator's two
  violation counters are maps from field names, absent keys reading 0 as in Go; they count
  ticks, so they are unbounded integers here. Logging is left out.
\<close>

section \<open>Data\<close>

record ValidationRule =
  Field :: string
  TargetField :: string
  RuleType :: string
  MinValue :: f64
  MaxValue :: f64
  MaxNegativeDev :: f64
  MaxPositiveDev :: f64
  AllowedConsecutiveViolations :: int
  AllowedTotalViolations :: int

record Profile =
  MpfProfileID :: string
  MaterialCooldownAllowanceS :: int
  ValidationRules :: "ValidationRule slice"

record PolicyDecision =
  DPass :: bool
  DProfileID :: string
  DViolations :: "string list"

record Evaluator =
  profile :: "Profile option"
  consecutive :: "string \<Rightarrow> int"
  total :: "string \<Rightarrow> int"

section \<open>Operations\<close>

definition NewEvaluator :: Evaluator where
  "NewEvaluator = \<lparr>profile = None, consecutive = (\<lambda>_. 0), total = (\<lambda>_. 0)\<rparr>"

definition zero_rule :: ValidationRule where
  "zero_rule = \<lparr>Field = [], TargetField = [], RuleType = [], MinValue = 0, MaxValue = 0,
     MaxNegativeDev = 0, MaxPositiveDev = 0, AllowedConsecutiveViolations = 0,
     AllowedTotalViolations = 0\<rparr>"

definition rule_fields :: "string list" where
  "rule_fields = [''field'', ''target_field'', ''rule_type'', ''min_value'', ''max_value'',
     ''max_negative_deviation'', ''max_positive_deviation'',
     ''allowed_consecutive_violation_epochs'', ''allowed_total_violation_epochs'']"

definition set_rule :: "string \<Rightarrow> json \<Rightarrow> ValidationRule \<Rightarrow> bool \<times> ValidationRule" where
  "set_rule f j x =
     (if f = ''field'' then (let (ok, v) = unm_string j (Field x) in (ok, x\<lparr>Field := v\<rparr>))
      else if f = ''target_field'' then
        (let (ok, v) = unm_string j (TargetField x) in (ok, x\<lparr>TargetField := v\<rparr>))
      else if f = ''rule_type'' then
        (let (ok, v) = unm_string j (RuleType x) in (ok, x\<lparr>RuleType := v\<rparr>))
      else if f = ''min_value'' then
        (let (ok, v) = unm_float j (MinValue x) in (ok, x\<lparr>MinValue := v\<rparr>))
      else if f = ''max_value'' then
        (let (ok, v) = unm_float j (MaxValue x) in (ok, x\<lparr>MaxValue := v\<rparr>))
      else if f = ''max_negative_deviation'' then
        (let (ok, v) = unm_float j (MaxNegativeDev x) in (ok, x\<lparr>MaxNegativeDev := v\<rparr>))
      else if f = ''max_positive_deviation'' then
        (let (ok, v) = unm_float j (MaxPositiveDev x) in (ok, x\<lparr>MaxPositiveDev := v\<rparr>))
      else if f = ''allowed_consecutive_violation_epochs'' then
        (let (ok, v) = unm_int j (AllowedConsecutiveViolations x)
         in (ok, x\<lparr>AllowedConsecutiveViolations := v\<rparr>))
      else (let (ok, v) = unm_int j (AllowedTotalViolations x)
            in (ok, x\<lparr>AllowedTotalViolations := v\<rparr>)))"

definition set_profile :: "string \<Rightarrow> json \<Rightarrow> Profile \<Rightarrow> bool \<times> Profile" where
  "set_profile f j x =
     (if f = ''profile_id'' then
        (let (ok, v) = unm_string j (MpfProfileID x) in (ok, x\<lparr>MpfProfileID := v\<rparr>))
      else if f = ''material_cooldown_allowance_s'' then
        (let (ok, v) = unm_int j (MaterialCooldownAllowanceS x)
         in (ok, x\<lparr>MaterialCooldownAllowanceS := v\<rparr>))
      else (let (ok, v) = unm_slice (unm_struct rule_fields set_rule) zero_rule j (ValidationRules x)
            in (ok, x\<lparr>ValidationRules := v\<rparr>)))"

definition unm_profile :: "json \<Rightarrow> bool \<times> Profile" where
  "unm_profile j =
     unm_struct [''profile_id'', ''material_cooldown_allowance_s'', ''validation_rules''] set_profile j
       \<lparr>MpfProfileID = [], MaterialCooldownAllowanceS = 0, ValidationRules = NilSlice\<rparr>"

definition install :: "Profile option \<Rightarrow> Evaluator" where
  "install p = \<lparr>profile = p, consecutive = (\<lambda>_. 0), total = (\<lambda>_. 0)\<rparr>"

text \<open>\<open>LoadProfile\<close>: the error, if any, and the evaluator afterwards.\<close>

definition LoadProfile :: "bytes \<Rightarrow> Evaluator \<Rightarrow> err option \<times> Evaluator" where
  "LoadProfile profileJSON e =
     (case json_parse (string_of profileJSON) of
        None \<Rightarrow> (Some (Wrap ''policy: parse profile'' (Err ''invalid character'')), e)
      | Some j \<Rightarrow>
          (let (ok, p) = unm_profile j in
           if \<not> ok then (Some (Wrap ''policy: parse profile'' (Err ''json: cannot unmarshal'')), e)
           else if MpfProfileID p = [] then (Some (Err ''policy: profile_id is required''), e)
           else (None, install (Some p))))"

definition ClearProfile :: "Evaluator \<Rightarrow> Evaluator" where
  "ClearProfile e = install None"

text \<open>What one rule says of one telemetry snapshot: it does not apply (\<open>Skip\<close>, the
  loop's \<open>continue\<close>), it holds, or it is broken for a reason.\<close>

datatype outcome = Skip | Held | Broken string

definition check_rule :: "(string \<rightharpoonup> f64) \<Rightarrow> ValidationRule \<Rightarrow> outcome" where
  "check_rule telemetry rule =
     (case telemetry (Field rule) of
        None \<Rightarrow> Skip
      | Some val \<Rightarrow>
          if RuleType rule = ''absolute_minimum'' then
            (if f_lt val (MinValue rule)
             then Broken (Field rule @ ''='' @ fmt_f3 val @ '' below minimum '' @ fmt_f3 (MinValue rule))
             else Held)
          else if RuleType rule = ''absolute_maximum'' then
            (if f_lt (MaxValue rule) val
             then Broken (Field rule @ ''='' @ fmt_f3 val @ '' above maximum '' @ fmt_f3 (MaxValue rule))
             else Held)
          else if RuleType rule = ''dynamic_offset'' then
            (case telemetry (TargetField rule) of
               None \<Rightarrow> Skip
             | Some target \<Rightarrow>
                 (let delta = f_sub val target in
                  if f_lt delta (f_neg (MaxNegativeDev rule)) \<or> f_lt (MaxPositiveDev rule) delta
                  then Broken (Field rule @ '' delta='' @ fmt_f3 delta @ '' outside envelope [''
                         @ fmt_f3 (f_neg (MaxNegativeDev rule)) @ '', +'' @ fmt_f3 (MaxPositiveDev rule)
                         @ ''] (target='' @ fmt_f3 target @ '')'')
                  else Held))
          else Skip)"

text \<open>The loop of \<open>Evaluate\<close> over the rules, with the violations so far.\<close>

fun eval_rules ::
  "(string \<rightharpoonup> f64) \<Rightarrow> ValidationRule list \<Rightarrow> Evaluator \<Rightarrow> string list \<Rightarrow> Evaluator \<times> string list" where
  "eval_rules telemetry [] e violations = (e, violations)"
| "eval_rules telemetry (rule # rules) e violations =
     (case check_rule telemetry rule of
        Skip \<Rightarrow> eval_rules telemetry rules e violations
      | Held \<Rightarrow>
          eval_rules telemetry rules
            (e\<lparr>consecutive := (consecutive e)(Field rule := 0)\<rparr>) violations
      | Broken reason \<Rightarrow>
          (let e1 = e\<lparr>consecutive := (consecutive e)(Field rule := consecutive e (Field rule) + 1),
                      total := (total e)(Field rule := total e (Field rule) + 1)\<rparr>;
               maxConsec = AllowedConsecutiveViolations rule;
               maxTotal = AllowedTotalViolations rule
           in eval_rules telemetry rules e1
                (if (maxConsec = 0 \<or> maxConsec < consecutive e1 (Field rule)) \<and>
                    (maxTotal = 0 \<or> maxTotal < total e1 (Field rule))
                 then violations @ [reason] else violations)))"

definition Evaluate :: "(string \<rightharpoonup> f64) \<Rightarrow> Evaluator \<Rightarrow> PolicyDecision \<times> Evaluator" where
  "Evaluate telemetry e =
     (case profile e of
        None \<Rightarrow> (\<lparr>DPass = True, DProfileID = ''null'', DViolations = []\<rparr>, e)
      | Some p \<Rightarrow>
          (let (e1, violations) = eval_rules telemetry (slice_vals (ValidationRules p)) e []
           in (\<lparr>DPass = (length violations = 0), DProfileID = MpfProfileID p,
                DViolations = violations\<rparr>, e1)))"

definition TelemetryFromCustody ::
  "f64 \<Rightarrow> f64 \<Rightarrow> f64 \<Rightarrow> f64 \<Rightarrow> f64 \<Rightarrow> f64 \<Rightarrow> f64 \<Rightarrow> f64 \<Rightarrow> f64 \<Rightarrow> bool \<Rightarrow> (string \<rightharpoonup> f64)" where
  "TelemetryFromCustody extruderTemp extruderTarget extruderPower bedTemp bedTarget bedPower
     liveVelocity liveExtruderVelocity chamberTemp chamberPresent =
     (let m = map_of
        [(''extruder.temperature'', extruderTemp),
         (''extruder.target'', extruderTarget),
         (''extruder.power'', extruderPower),
         (''heater_bed.temperature'', bedTemp),
         (''heater_bed.target'', bedTarget),
         (''heater_bed.power'', bedPower),
         (''motion_report.live_velocity'', liveVelocity),
         (''motion_report.live_extruder_velocity'', liveExtruderVelocity)]
      in if chamberPresent then m(''temperature_sensor.chamber.temperature'' \<mapsto> chamberTemp) else m)"

text \<open>A run of ticks: the decisions in order, and the evaluator at the end.\<close>

fun evaluate_ticks ::
  "(string \<rightharpoonup> f64) list \<Rightarrow> Evaluator \<Rightarrow> PolicyDecision list \<times> Evaluator" where
  "evaluate_ticks [] e = ([], e)"
| "evaluate_ticks (t # ts) e =
     (let (d, e1) = Evaluate t e; (ds, e2) = evaluate_ticks ts e1 in (d # ds, e2))"

section \<open>What the counters mean\<close>

text \<open>
  Specification of grace periods on the history of one rule: the outcomes of the rule at the
  ticks so far. The streak is the number of broken ticks since the rule last held (ticks at
  which it did not apply neither extend nor end it), the tally is all broken ticks.
\<close>

fun broken :: "outcome \<Rightarrow> bool" where
  "broken (Broken r) = True"
| "broken _ = False"

definition streak :: "outcome list \<Rightarrow> int" where
  "streak os = int (length (takeWhile broken (rev (filter (\<lambda>x. x \<noteq> Skip) os))))"

definition tally :: "outcome list \<Rightarrow> int" where
  "tally os = int (length (filter broken os))"

definition escalates :: "ValidationRule \<Rightarrow> outcome list \<Rightarrow> bool" where
  "escalates r os \<longleftrightarrow>
     (AllowedConsecutiveViolations r = 0 \<or> AllowedConsecutiveViolations r < streak os) \<and>
     (AllowedTotalViolations r = 0 \<or> AllowedTotalViolations r < tally os)"

definition verdict :: "ValidationRule \<Rightarrow> outcome list \<Rightarrow> string list" where
  "verdict r os =
     (case last os of
        Broken reason \<Rightarrow> if escalates r os then [reason] else []
      | _ \<Rightarrow> [])"

definition history :: "(string \<rightharpoonup> f64) list \<Rightarrow> ValidationRule \<Rightarrow> outcome list" where
  "history ts r = map (\<lambda>t. check_rule t r) ts"

text \<open>The evaluator's counters hold the streak and the tally of every rule.\<close>

definition counts :: "ValidationRule list \<Rightarrow> (string \<rightharpoonup> f64) list \<Rightarrow> Evaluator \<Rightarrow> bool" where
  "counts rules ts e \<longleftrightarrow>
     (\<forall>r \<in> set rules. consecutive e (Field r) = streak (history ts r) \<and>
                      total e (Field r) = tally (history ts r))"

lemma streak_snoc [simp]:
  "streak (os @ [Skip]) = streak os"
  "streak (os @ [Held]) = 0"
  "streak (os @ [Broken r]) = streak os + 1"
  by (simp_all add: streak_def)

lemma tally_snoc [simp]:
  "tally (os @ [Skip]) = tally os"
  "tally (os @ [Held]) = tally os"
  "tally (os @ [Broken r]) = tally os + 1"
  by (simp_all add: tally_def)

lemma streak_Nil [simp]: "streak [] = 0" and tally_Nil [simp]: "tally [] = 0"
  by (simp_all add: streak_def tally_def)

lemma history_snoc [simp]: "history (ts @ [t]) r = history ts r @ [check_rule t r]"
  by (simp add: history_def)

lemma eval_rules_profile: "profile (fst (eval_rules t rules e vs)) = profile e"
  by (induction t rules e vs rule: eval_rules.induct) (simp_all add: Let_def split: outcome.split)

text \<open>Only the counters of the rules' own fields change.\<close>

lemma eval_rules_frame:
  "f \<notin> Field ` set rules \<Longrightarrow>
     consecutive (fst (eval_rules t rules e vs)) f = consecutive e f \<and>
     total (fst (eval_rules t rules e vs)) f = total e f"
  by (induction t rules e vs rule: eval_rules.induct)
    (auto simp: Let_def split: outcome.split)

lemma verdict_snoc:
  "verdict r (os @ [x]) =
     (case x of Broken reason \<Rightarrow> if escalates r (os @ [x]) then [reason] else [] | _ \<Rightarrow> [])"
  by (simp add: verdict_def)

text \<open>One tick of a profile whose rules watch different fields: the counters follow the
  histories, and the violations are the verdicts of the rules in order.\<close>

lemma eval_rules_counts:
  assumes "distinct (map Field rules)" "counts rules ts e"
  shows "counts rules (ts @ [t]) (fst (eval_rules t rules e vs)) \<and>
    snd (eval_rules t rules e vs) = vs @ concat (map (\<lambda>r. verdict r (history (ts @ [t]) r)) rules)"
  using assms
proof (induction rules arbitrary: e vs)
  case Nil
  then show ?case by (simp add: counts_def)
next
  case (Cons r rules)
  from Cons.prems have d: "distinct (map Field rules)" and new: "Field r \<notin> Field ` set rules"
    and cr: "consecutive e (Field r) = streak (history ts r)" "total e (Field r) = tally (history ts r)"
    by (auto simp: counts_def)
  have step: "counts (r # rules) (ts @ [t]) (fst (eval_rules t rules e1 vs1)) \<and>
      snd (eval_rules t rules e1 vs1) =
        vs1 @ concat (map (\<lambda>r. verdict r (history (ts @ [t]) r)) rules)"
    if "\<And>f. f \<noteq> Field r \<Longrightarrow> consecutive e1 f = consecutive e f \<and> total e1 f = total e f"
      and "consecutive e1 (Field r) = streak (history (ts @ [t]) r)"
      and "total e1 (Field r) = tally (history (ts @ [t]) r)" for e1 vs1
  proof -
    have "Field q \<noteq> Field r" if "q \<in> set rules" for q using new that by (metis imageI)
    with that(1) Cons.prems(2) have "counts rules ts e1" by (simp add: counts_def)
    from Cons.IH [OF d this, of vs1] eval_rules_frame [OF new, of t e1 vs1] that(2,3)
    show ?thesis by (simp add: counts_def)
  qed
  show ?case
  proof (cases "check_rule t r")
    case Skip
    with step [of e vs] cr show ?thesis by (simp add: verdict_snoc)
  next
    case Held
    with step [of "e\<lparr>consecutive := (consecutive e)(Field r := 0)\<rparr>" vs] cr show ?thesis
      by (simp add: verdict_snoc)
  next
    case (Broken reason)
    then show ?thesis using cr
      by (simp add: Let_def step verdict_snoc escalates_def)
  qed
qed

lemma counts_install [simp]: "counts rules [] (install p)"
  by (simp add: counts_def install_def history_def)

lemma Evaluate_Some:
  "profile e = Some p \<Longrightarrow> Evaluate t e =
    (let r = eval_rules t (slice_vals (ValidationRules p)) e []
     in (\<lparr>DPass = (snd r = []), DProfileID = MpfProfileID p, DViolations = snd r\<rparr>, fst r))"
  by (simp add: Evaluate_def split: prod.split)

lemma profile_Evaluate [simp]: "profile (snd (Evaluate t e)) = profile e"
proof (cases "profile e")
  case None
  then show ?thesis by (simp add: Evaluate_def)
next
  case (Some p)
  then show ?thesis by (simp add: Evaluate_Some eval_rules_profile Let_def)
qed

lemma evaluate_ticks_snoc:
  "evaluate_ticks (ts @ [t]) e =
     (let (ds, e1) = evaluate_ticks ts e; (d, e2) = Evaluate t e1 in (ds @ [d], e2))"
  by (induction ts arbitrary: e) (simp_all split: prod.split)

lemma evaluate_ticks_last:
  "snd (evaluate_ticks (ts @ [t]) e) = snd (Evaluate t (snd (evaluate_ticks ts e)))"
  "fst (evaluate_ticks (ts @ [t]) e) =
     fst (evaluate_ticks ts e) @ [fst (Evaluate t (snd (evaluate_ticks ts e)))]"
  by (simp_all add: evaluate_ticks_snoc split: prod.split)

lemma evaluate_ticks_counts:
  assumes "distinct (map Field (slice_vals (ValidationRules p)))"
  shows "profile (snd (evaluate_ticks ts (install (Some p)))) = Some p \<and>
    counts (slice_vals (ValidationRules p)) ts (snd (evaluate_ticks ts (install (Some p))))"
proof (induction ts rule: rev_induct)
  case Nil
  then show ?case by (simp add: install_def [of "Some p"]) (simp flip: install_def)
next
  case (snoc t ts)
  then show ?case
    using eval_rules_counts [OF assms, of ts _ t "[]"]
    by (simp add: evaluate_ticks_last Evaluate_Some eval_rules_profile Let_def)
qed

section \<open>Properties\<close>

text \<open>C17: Grace periods. For a profile whose rules watch different fields, the decision at
  every tick after loading is the one the rules' histories give: a rule is listed as a
  violation exactly when it is broken now, its streak of broken ticks exceeds its allowed
  consecutive count (or that is 0) and its tally exceeds its allowed total (or that is 0).\<close>

theorem policy_grace:
  assumes "distinct (map Field (slice_vals (ValidationRules p)))"
  shows "fst (Evaluate t (snd (evaluate_ticks ts (install (Some p))))) =
    (let vs = concat (map (\<lambda>r. verdict r (history (ts @ [t]) r)) (slice_vals (ValidationRules p)))
     in \<lparr>DPass = (vs = []), DProfileID = MpfProfileID p, DViolations = vs\<rparr>)"
  using evaluate_ticks_counts [OF assms, of ts] eval_rules_counts [OF assms, of ts _ t "[]"]
  by (simp add: Evaluate_Some)

lemma eval_rules_strict:
  assumes "\<forall>r \<in> set rules. AllowedConsecutiveViolations r = 0 \<and> AllowedTotalViolations r = 0"
  shows "snd (eval_rules t rules e vs) =
    vs @ concat (map (\<lambda>r. case check_rule t r of Broken m \<Rightarrow> [m] | _ \<Rightarrow> []) rules)"
  using assms
  by (induction t rules e vs rule: eval_rules.induct) (simp_all add: Let_def split: outcome.split)

text \<open>C18: Without grace the verdict has no memory: if no rule of the profile allows violations,
  a tick passes exactly when no rule is broken by it, whatever ticks came before and even if
  rules share a field.\<close>

theorem policy_strict:
  assumes "profile e = Some p"
    and "\<forall>r \<in> set (slice_vals (ValidationRules p)).
           AllowedConsecutiveViolations r = 0 \<and> AllowedTotalViolations r = 0"
  shows "DPass (fst (Evaluate t e)) \<longleftrightarrow>
    (\<forall>r \<in> set (slice_vals (ValidationRules p)). \<not> broken (check_rule t r))"
proof -
  have "broken x \<longleftrightarrow> (case x of Broken m \<Rightarrow> [m] | _ \<Rightarrow> []) \<noteq> []" for x
    by (cases x) simp_all
  then show ?thesis by (simp add: Evaluate_Some assms(1) eval_rules_strict [OF assms(2)])
qed

text \<open>A profile for the witnesses: at most 100.0 for the extruder temperature, no grace.\<close>

definition max_rule :: ValidationRule where
  "max_rule = zero_rule\<lparr>Field := ''extruder.temperature'', RuleType := ''absolute_maximum'',
     MaxValue := 4636737291354636288\<rparr>"

definition max_profile :: Profile where
  "max_profile = \<lparr>MpfProfileID = ''test-v1'', MaterialCooldownAllowanceS = 0,
     ValidationRules = Slice [max_rule] []\<rparr>"

lemma max_rule_200: "broken (check_rule [''extruder.temperature'' \<mapsto> 4641240890982006784] max_rule)"
  by (simp add: check_rule_def max_rule_def f_lt_def is_nan_def f_val_def f_sign_def f_ord_def
      inf_ord_def f_mag_def)

theorem policy_strict_witness:
  "\<not> DPass (fst (Evaluate [''extruder.temperature'' \<mapsto> 4641240890982006784]
       (install (Some max_profile))))"
  using max_rule_200
  by (subst policy_strict [where p = max_profile])
    (simp_all add: install_def max_profile_def max_rule_def zero_rule_def)

text \<open>C37: The counters are kept per field, not per rule. With two rules on one field, the first
  with a grace of at least one consecutive tick, ticks that break the first and satisfy the
  second never fail, however many there are: the second rule resets the first one's streak.\<close>

theorem policy_shared_field:
  assumes "slice_vals (ValidationRules p) = [r1, r2]" "Field r1 = Field r2"
    and "0 < AllowedConsecutiveViolations r1"
    and "\<forall>t \<in> set ts. broken (check_rule t r1) \<and> check_rule t r2 = Held"
  shows "\<forall>d \<in> set (fst (evaluate_ticks ts (install (Some p)))). DPass d"
proof -
  have "profile e = Some p \<and> consecutive e (Field r1) = 0 \<Longrightarrow>
      \<forall>d \<in> set (fst (evaluate_ticks ts e)). DPass d" for e
    using assms(4)
  proof (induction ts arbitrary: e)
    case (Cons t ts)
    from Cons.prems(2) obtain m where "check_rule t r1 = Broken m" "check_rule t r2 = Held"
      by (cases "check_rule t r1") auto
    with Cons.prems(1) assms(1-3) have
      "DPass (fst (Evaluate t e)) \<and> consecutive (snd (Evaluate t e)) (Field r1) = 0"
      by (simp add: Evaluate_Some Let_def)
    then show ?case using Cons.prems Cons.IH [of "snd (Evaluate t e)"]
      by (simp split: prod.split) (metis fst_conv snd_conv profile_Evaluate)
  qed simp
  from this [of "install (Some p)"] show ?thesis by (simp add: install_def [of "Some p"])
qed

text \<open>The witness: at most 100.0 with a grace of 3, and at least 0.0, on one field, at 200.0.\<close>

definition min_rule :: ValidationRule where
  "min_rule = zero_rule\<lparr>Field := ''extruder.temperature'', RuleType := ''absolute_minimum''\<rparr>"

definition shared_profile :: Profile where
  "shared_profile = \<lparr>MpfProfileID = ''test-v1'', MaterialCooldownAllowanceS = 0,
     ValidationRules = Slice [max_rule\<lparr>AllowedConsecutiveViolations := 3\<rparr>, min_rule] []\<rparr>"

theorem policy_shared_field_witness:
  "list_all DPass (fst (evaluate_ticks (replicate 1000 [''extruder.temperature'' \<mapsto> 4641240890982006784])
       (install (Some shared_profile))))"
  unfolding list_all_iff
proof (rule policy_shared_field)
  show "slice_vals (ValidationRules shared_profile) =
      [max_rule\<lparr>AllowedConsecutiveViolations := 3\<rparr>, min_rule]"
    by (simp add: shared_profile_def)
  show "\<forall>t \<in> set (replicate 1000 [''extruder.temperature'' \<mapsto> 4641240890982006784]).
      broken (check_rule t (max_rule\<lparr>AllowedConsecutiveViolations := 3\<rparr>)) \<and> check_rule t min_rule = Held"
    using max_rule_200
    by (simp add: check_rule_def max_rule_def min_rule_def zero_rule_def f_lt_def f_val_def
        f_sign_def f_ord_def is_nan_def inf_ord_def f_mag_def)
qed (simp_all add: max_rule_def min_rule_def zero_rule_def)

text \<open>C19: A \<open>dynamic_offset\<close> rule is broken only if the exact difference of value and target,
  not just the rounded one the code computes, is outside the envelope; and a difference
  outside it goes unreported only if it rounds to the bound itself.\<close>

theorem policy_envelope:
  assumes "RuleType r = ''dynamic_offset''"
    and "telemetry (Field r) = Some v" "telemetry (TargetField r) = Some tgt"
    and "is_finite v" "is_finite tgt" "is_finite (MaxNegativeDev r)" "is_finite (MaxPositiveDev r)"
  shows "broken (check_rule telemetry r) \<longleftrightarrow>
    f_val v - f_val tgt < - f_val (MaxNegativeDev r) \<and>
      f_val (f_sub v tgt) \<noteq> - f_val (MaxNegativeDev r) \<or>
    f_val (MaxPositiveDev r) < f_val v - f_val tgt \<and>
      f_val (f_sub v tgt) \<noteq> f_val (MaxPositiveDev r)"
  using assms
  by (simp add: check_rule_def Let_def f_sub_below_iff f_sub_above_iff)

text \<open>The witness is the example of the engine's own test: 230.0 against a target of 240.0 with
  the envelope from -5.0 to +10.0.\<close>

definition offset_rule :: ValidationRule where
  "offset_rule = zero_rule\<lparr>Field := ''extruder.temperature'', TargetField := ''extruder.target'',
     RuleType := ''dynamic_offset'', MaxNegativeDev := 4617315517961601024, MaxPositiveDev := 4621819117588971520\<rparr>"

theorem policy_envelope_witness:
  "broken (check_rule [''extruder.temperature'' \<mapsto> 4642296422144671744, ''extruder.target'' \<mapsto> 4642648265865560064]
     offset_rule)"
proof -
  have fin: "is_finite 4642296422144671744" "is_finite 4642648265865560064" "is_finite 13845191154443747328"
    "is_finite 4617315517961601024" "is_finite 4621819117588971520"
    by (simp_all add: f64_eval)
  have "f_val 4642296422144671744 - f_val 4642648265865560064 = f_val 13845191154443747328" by (simp add: f64_eval)
  from f_sub_exact [OF fin(1-3) this] this fin show ?thesis
    by (subst policy_envelope [where v = 4642296422144671744 and tgt = 4642648265865560064])
      (simp_all add: offset_rule_def zero_rule_def, simp add: f64_eval)
qed

text \<open>The profile of the second of the engine's tests on grace: the same rule with 3 consecutive
  violations allowed. Three broken ticks pass, the fourth fails.\<close>

definition grace_profile :: Profile where
  "grace_profile = \<lparr>MpfProfileID = ''test-v1'', MaterialCooldownAllowanceS = 0,
     ValidationRules = Slice [max_rule\<lparr>AllowedConsecutiveViolations := 3\<rparr>] []\<rparr>"

definition hot_tick :: "string \<rightharpoonup> f64" where
  "hot_tick = [''extruder.temperature'' \<mapsto> 4641240890982006784]"

theorem policy_grace_witness:
  "DPass (fst (Evaluate hot_tick (snd (evaluate_ticks [hot_tick, hot_tick] (install (Some grace_profile))))))
   \<and> \<not> DPass (fst (Evaluate hot_tick
        (snd (evaluate_ticks [hot_tick, hot_tick, hot_tick] (install (Some grace_profile))))))"
proof -
  have d: "distinct (map Field (slice_vals (ValidationRules grace_profile)))"
    by (simp add: grace_profile_def)
  have "broken (check_rule hot_tick (max_rule\<lparr>AllowedConsecutiveViolations := 3\<rparr>))"
    using max_rule_200 by (simp add: check_rule_def max_rule_def hot_tick_def split: if_splits)
  then obtain m where "check_rule hot_tick (max_rule\<lparr>AllowedConsecutiveViolations := 3\<rparr>) = Broken m"
    by (cases "check_rule hot_tick (max_rule\<lparr>AllowedConsecutiveViolations := 3\<rparr>)") auto
  then show ?thesis
    unfolding policy_grace [OF d]
    by (simp add: grace_profile_def verdict_def history_def escalates_def streak_def tally_def
        max_rule_def zero_rule_def)
qed

lemma Evaluate_profile: "profile e = Some p \<Longrightarrow> DProfileID (fst (Evaluate t e)) = MpfProfileID p"
  by (simp add: Evaluate_def Let_def split: prod.split)

text \<open>C30: Loading a profile succeeds exactly when the text is JSON, its values have the types of
  the profile's fields and the profile id is not empty; then the evaluator has exactly this
  profile, both counters are zero for every field, every decision names the profile, and all later decisions are
  those of any other evaluator that loads the same text, whatever either had seen before. Otherwise
  the error says which of the two checks failed and the evaluator, with its profile and counters, is
  as it was.\<close>

theorem policy_load:
  "case LoadProfile raw e of (err, e1) \<Rightarrow>
     (err = None \<longleftrightarrow>
       (\<exists>j p. json_parse (string_of raw) = Some j \<and> unm_profile j = (True, p) \<and> MpfProfileID p \<noteq> [])) \<and>
     (err = Some (Err ''policy: profile_id is required'') \<longleftrightarrow>
       (\<exists>j p. json_parse (string_of raw) = Some j \<and> unm_profile j = (True, p) \<and> MpfProfileID p = [])) \<and>
     (err \<noteq> None \<longrightarrow> e1 = e) \<and>
     (err = None \<longrightarrow>
       (\<exists>j p. json_parse (string_of raw) = Some j \<and> unm_profile j = (True, p) \<and>
          profile e1 = Some p \<and> (\<forall>f. consecutive e1 f = 0 \<and> total e1 f = 0) \<and>
          (\<forall>t. DProfileID (fst (Evaluate t e1)) = MpfProfileID p) \<and>
          (\<forall>ts e'. fst (evaluate_ticks ts (snd (LoadProfile raw e'))) = fst (evaluate_ticks ts e1))))"
proof (cases "json_parse (string_of raw)")
  case None
  then show ?thesis by (simp add: LoadProfile_def)
next
  case (Some j)
  obtain ok p where p: "unm_profile j = (ok, p)" by fastforce
  show ?thesis
  proof (cases "ok \<and> MpfProfileID p \<noteq> []")
    case True
    then have "LoadProfile raw x = (None, install (Some p))" for x by (simp add: LoadProfile_def Some p)
    moreover have "profile (install (Some p)) = Some p" by (simp add: install_def)
    ultimately show ?thesis using Some p True by (simp add: Evaluate_profile) (simp add: install_def)
  next
    case False
    then show ?thesis using Some p by (cases ok) (simp_all add: LoadProfile_def)
  qed
qed

text \<open>A profile as text, loaded by an evaluator that has counted violations.\<close>

definition profile_text :: string where
  "profile_text = json_print (JObj [(''profile_id'', JStr ''pla-1''), (''validation_rules'', JArr [JObj
     [(''field'', JStr ''extruder''), (''rule_type'', JStr ''absolute_maximum''), (''allowed_total_violation_epochs'', JNum ''5'')]])])"

theorem policy_load_witness:
  "fst (LoadProfile (bytes_of profile_text) (NewEvaluator\<lparr>total := (\<lambda>_. 3)\<rparr>)) = None \<and>
   total (snd (LoadProfile (bytes_of profile_text) (NewEvaluator\<lparr>total := (\<lambda>_. 3)\<rparr>))) ''extruder'' = 0 \<and>
   DProfileID (fst (Evaluate hot_tick (snd (LoadProfile (bytes_of profile_text) (NewEvaluator\<lparr>total := (\<lambda>_. 3)\<rparr>))))) = ''pla-1''"
proof -
  let ?e = "NewEvaluator\<lparr>total := (\<lambda>_. 3)\<rparr>"
  obtain j where j: "json_parse (string_of (bytes_of profile_text)) = Some j" "fst (unm_profile j)"
      "MpfProfileID (snd (unm_profile j)) = ''pla-1''"
  proof -
    have "(case json_parse profile_text of None \<Rightarrow> False
        | Some j \<Rightarrow> fst (unm_profile j) \<and> MpfProfileID (snd (unm_profile j)) = ''pla-1'')" by code_simp
    then show thesis using that by (auto split: option.splits)
  qed
  then obtain p where p: "unm_profile j = (True, p)" "MpfProfileID p = ''pla-1''" by (metis prod.collapse)
  obtain err e1 where l: "LoadProfile (bytes_of profile_text) ?e = (err, e1)" by fastforce
  have "err = None" using policy_load [of "bytes_of profile_text" ?e] j(1) p by (auto simp: l)
  moreover from this have "total e1 ''extruder'' = 0" "DProfileID (fst (Evaluate hot_tick e1)) = ''pla-1''"
    using policy_load [of "bytes_of profile_text" ?e] j(1) p by (auto simp: l)
  ultimately show ?thesis by (simp add: l)
qed

end
