(* ===== verification/Telemetry.thy ===== *)
theory Telemetry
  imports Json GoTime
begin

text \<open>
  \<open>internal/telemetry/packet.go\<close>: the custody packet, the decision and the segment, and
  the JSON that \<open>json.Marshal\<close> derives from the packet's struct tags, field by field in
  declaration order with the \<open>omitempty\<close> fields left out when empty.
\<close>

record Decision =
  Pass :: bool
  ProfileID :: string
  Violations :: "string list"

record CustodyPacket =
  PktSessionID :: string
  PktNodeLabel :: string
  PktPrinterID :: string
  Seq :: u64
  Tick :: gotime
  TickMonoNs :: int
  ExtruderTemp :: f64
  ExtruderTarget :: f64
  ExtruderPower :: f64
  PktBedTemp :: f64
  PktBedTarget :: f64
  PktBedPower :: f64
  ChamberTemp :: f64
  PktChamberPresent :: bool
  PktLiveVelocity :: f64
  PktLiveExtruderVelocity :: f64
  PktLivePosition :: "f64 slice"
  PrintState :: string
  FilamentUsedMM :: f64
  PrintDurationS :: f64
  PktMCUVersion :: string
  PktMCUBuildVersions :: string
  PktDecision :: "Decision option"
  AnomalyExtruderThermal :: bool
  AnomalyBedThermal :: bool
  AnomalyLoadCell :: bool
  RecoveredFromCache :: bool
  PrevPacketBLAKE3 :: "bytes option"
  PacketSHA256 :: "bytes option"
  PacketBLAKE3 :: "bytes option"
  TPMSig :: "bytes option"
  QuoteRef :: int

record Segment =
  SegSessionID :: string
  SegNodeLabel :: string
  SeqStart :: u64
  SeqEnd :: u64
  PacketCount :: int
  MerkleRoot :: bytes

section \<open>Marshal\<close>

text \<open>A member of the object, or the whole marshalling fails (\<open>None\<close>).\<close>

definition json_member :: "string \<Rightarrow> json \<Rightarrow> (string \<times> json) list" where
  "json_member k v = [(k, v)]"

definition omit_if :: "bool \<Rightarrow> string \<Rightarrow> json \<Rightarrow> (string \<times> json) list" where
  "omit_if is_empty k v = (if is_empty then [] else [(k, v)])"

definition float_json :: "f64 \<Rightarrow> json option" where
  "float_json x = map_option JNum (fmt_json x)"

fun all_some :: "'a option list \<Rightarrow> 'a list option" where
  "all_some [] = Some []"
| "all_some (None # xs) = None"
| "all_some (Some x # xs) = map_option ((#) x) (all_some xs)"

definition float_member :: "string \<Rightarrow> f64 \<Rightarrow> (string \<times> json) list option" where
  "float_member k x = map_option (json_member k) (float_json x)"

definition slice_json :: "f64 slice \<Rightarrow> json option" where
  "slice_json s =
     (case s of
        NilSlice \<Rightarrow> Some JNull
      | Slice xs _ \<Rightarrow> map_option JArr (all_some (map float_json xs)))"

definition bytes_member :: "string \<Rightarrow> bytes option \<Rightarrow> (string \<times> json) list" where
  "bytes_member k b = omit_if (opt_bytes b = []) k (JStr (base64 (opt_bytes b)))"

definition decision_json :: "Decision \<Rightarrow> json" where
  "decision_json d =
     JObj (json_member ''pass'' (JBool (Pass d)) @ json_member ''profile_id'' (JStr (ProfileID d))
       @ omit_if (Violations d = []) ''violations'' (JArr (map JStr (Violations d))))"

text \<open>The members of the packet's object, in the order of the struct.\<close>

definition packet_members :: "CustodyPacket \<Rightarrow> (string \<times> json) list option list" where
  "packet_members p =
     [Some (json_member ''session_id'' (JStr (PktSessionID p))),
      Some (json_member ''node_label'' (JStr (PktNodeLabel p))),
      Some (json_member ''printer_id'' (JStr (PktPrinterID p))),
      Some (json_member ''seq'' (JNum (dec_nat (unat (Seq p))))),
      map_option (\<lambda>t. json_member ''tick'' (JStr t)) (time_json (Tick p)),
      Some (json_member ''tick_mono_ns'' (JNum (dec_int (TickMonoNs p)))),
      float_member ''extruder_temp'' (ExtruderTemp p),
      float_member ''extruder_target'' (ExtruderTarget p),
      float_member ''extruder_power'' (ExtruderPower p),
      float_member ''bed_temp'' (PktBedTemp p),
      float_member ''bed_target'' (PktBedTarget p),
      float_member ''bed_power'' (PktBedPower p),
      (if f_ord (ChamberTemp p) = 0 then Some [] else float_member ''chamber_temp'' (ChamberTemp p)),
      Some (omit_if (\<not> PktChamberPresent p) ''chamber_present'' (JBool (PktChamberPresent p))),
      float_member ''live_velocity'' (PktLiveVelocity p),
      float_member ''live_extruder_velocity'' (PktLiveExtruderVelocity p),
      map_option (json_member ''live_position'') (slice_json (PktLivePosition p)),
      Some (json_member ''print_state'' (JStr (PrintState p))),
      float_member ''filament_used_mm'' (FilamentUsedMM p),
      float_member ''print_duration_s'' (PrintDurationS p),
      Some (json_member ''mcu_version'' (JStr (PktMCUVersion p))),
      Some (json_member ''mcu_build_versions'' (JStr (PktMCUBuildVersions p))),
      Some (case PktDecision p of None \<Rightarrow> [] | Some d \<Rightarrow> json_member ''decision'' (decision_json d)),
      Some (omit_if (\<not> AnomalyExtruderThermal p) ''anomaly_extruder_thermal''
              (JBool (AnomalyExtruderThermal p))),
      Some (omit_if (\<not> AnomalyBedThermal p) ''anomaly_bed_thermal'' (JBool (AnomalyBedThermal p))),
      Some (omit_if (\<not> AnomalyLoadCell p) ''anomaly_load_cell'' (JBool (AnomalyLoadCell p))),
      Some (omit_if (\<not> RecoveredFromCache p) ''recovered_from_cache''
              (JBool (RecoveredFromCache p))),
      Some (bytes_member ''prev_packet_blake3'' (PrevPacketBLAKE3 p)),
      Some (bytes_member ''packet_sha256'' (PacketSHA256 p)),
      Some (bytes_member ''packet_blake3'' (PacketBLAKE3 p)),
      Some (bytes_member ''tpm_sig'' (TPMSig p)),
      Some (omit_if (QuoteRef p = 0) ''quote_ref'' (JNum (dec_int (QuoteRef p))))]"

definition packet_json :: "CustodyPacket \<Rightarrow> json option" where
  "packet_json p = map_option (\<lambda>ms. JObj (concat ms)) (all_some (packet_members p))"

text \<open>\<open>json.Marshal(pkt)\<close>.\<close>

definition marshal_packet :: "CustodyPacket \<Rightarrow> bytes res" where
  "marshal_packet p =
     (case packet_json p of
        None \<Rightarrow> Inl (Err ''json: unsupported value'')
      | Some j \<Rightarrow> Inr (bytes_of (json_print j)))"

end
