(* ===== verification/Sha256.thy ===== *)
theory Sha256
  imports Prelude
begin

text \<open>
  SHA-256, the hash of Go's standard library package \<open>crypto/sha256\<close> that
  \<open>internal/custody\<close> and \<open>internal/tpm\<close> call (\<open>sha256.Sum256\<close> and
  \<open>crypto.SHA256.New\<close>). It is defined on 32-bit words and executable; a digest is
  32 bytes long whatever the message (\<open>length_sha256\<close>). The interface
  \<open>digest\<close> states what the code relies on of any 32-byte hash; it is interpreted
  here on \<open>sha256\<close>.
\<close>

unbundle bit_operations_syntax

section \<open>The digest interface\<close>

text \<open>Two different messages with the same digest.\<close>

definition collision :: "(bytes \<Rightarrow> bytes) \<Rightarrow> bytes \<Rightarrow> bytes \<Rightarrow> bool" where
  "collision H x y \<longleftrightarrow> x \<noteq> y \<and> H x = H y"

locale digest =
  fixes H :: "bytes \<Rightarrow> bytes"
  assumes H_length: "length (H m) = 32"
begin

lemma H_nonempty: "H m \<noteq> []"
  using H_length [of m] by auto

text \<open>Two digests at the end, or at the start, of equal messages are equal: a digest is a
  field of fixed width.\<close>

lemma H_suffix: "xs @ H a = ys @ H b \<longleftrightarrow> xs = ys \<and> H a = H b"
  by (simp add: H_length append_eq_same_suffix_length)

lemma H_prefix: "H a @ xs = H b @ ys \<longleftrightarrow> H a = H b \<and> xs = ys"
  by (simp add: H_length append_eq_same_length)

lemma H_hex_length: "length (hex_encode (H m)) = 64"
  by (simp add: H_length)

lemma H_truncate: "32 \<le> n \<Longrightarrow> take n (H m) = H m"
  by (simp add: H_length)

end

section \<open>Padding and blocks\<close>

definition be64 :: "u64 \<Rightarrow> bytes" where
  "be64 w = rev (le64 w)"

definition sha_pad :: "bytes \<Rightarrow> bytes" where
  "sha_pad m = m @ [128] @ replicate ((119 - length m mod 64) mod 64) 0 @ be64 (8 * of_nat (length m))"

definition be32 :: "u32 \<Rightarrow> bytes" where
  "be32 w = [ucast (drop_bit 24 w), ucast (drop_bit 16 w), ucast (drop_bit 8 w), ucast w]"

fun sha_words :: "bytes \<Rightarrow> u32 list" where
  "sha_words (a # b # c # d # r) =
     (push_bit 24 (ucast a) + push_bit 16 (ucast b) + push_bit 8 (ucast c) + ucast d) # sha_words r"
| "sha_words _ = []"

section \<open>Message schedule and rounds\<close>

definition sha_k :: "u32 list" where
  "sha_k =
    [1116352408, 1899447441, 3049323471, 3921009573, 961987163, 1508970993,
     2453635748, 2870763221, 3624381080, 310598401, 607225278, 1426881987,
     1925078388, 2162078206, 2614888103, 3248222580, 3835390401, 4022224774,
     264347078, 604807628, 770255983, 1249150122, 1555081692, 1996064986,
     2554220882, 2821834349, 2952996808, 3210313671, 3336571891, 3584528711,
     113926993, 338241895, 666307205, 773529912, 1294757372, 1396182291,
     1695183700, 1986661051, 2177026350, 2456956037, 2730485921, 2820302411,
     3259730800, 3345764771, 3516065817, 3600352804, 4094571909, 275423344,
     430227734, 506948616, 659060556, 883997877, 958139571, 1322822218,
     1537002063, 1747873779, 1955562222, 2024104815, 2227730452, 2361852424,
     2428436474, 2756734187, 3204031479, 3329325298]"

definition sha_init :: "u32 list" where
  "sha_init =
    [1779033703, 3144134277, 1013904242, 2773480762,
     1359893119, 2600822924, 528734635, 1541459225]"

definition small_sigma0 :: "u32 \<Rightarrow> u32" where
  "small_sigma0 x = word_rotr 7 x XOR word_rotr 18 x XOR drop_bit 3 x"

definition small_sigma1 :: "u32 \<Rightarrow> u32" where
  "small_sigma1 x = word_rotr 17 x XOR word_rotr 19 x XOR drop_bit 10 x"

definition big_sigma0 :: "u32 \<Rightarrow> u32" where
  "big_sigma0 x = word_rotr 2 x XOR word_rotr 13 x XOR word_rotr 22 x"

definition big_sigma1 :: "u32 \<Rightarrow> u32" where
  "big_sigma1 x = word_rotr 6 x XOR word_rotr 11 x XOR word_rotr 25 x"

text \<open>The schedule is kept newest first: position \<open>i\<close> of the list is \<open>W[t - 1 - i]\<close>.\<close>

fun sha_extend :: "nat \<Rightarrow> u32 list \<Rightarrow> u32 list" where
  "sha_extend 0 w = w"
| "sha_extend (Suc n) w =
     sha_extend n ((small_sigma1 (w ! 1) + w ! 6 + small_sigma0 (w ! 14) + w ! 15) # w)"

definition sha_schedule :: "bytes \<Rightarrow> u32 list" where
  "sha_schedule block = rev (sha_extend 48 (rev (sha_words block)))"

fun sha_round :: "u32 list \<Rightarrow> u32 \<times> u32 \<Rightarrow> u32 list" where
  "sha_round [a, b, c, d, e, f, g, h] (k, w) =
     (let t1 = h + big_sigma1 e + ((e AND f) XOR (NOT e AND g)) + k + w;
          t2 = big_sigma0 a + ((a AND b) XOR (a AND c) XOR (b AND c))
      in [t1 + t2, a, b, c, d + t1, e, f, g])"
| "sha_round s _ = s"

definition sha_compress :: "u32 list \<Rightarrow> bytes \<Rightarrow> u32 list" where
  "sha_compress s block = map2 (+) s (foldl sha_round s (zip sha_k (sha_schedule block)))"

function sha_blocks :: "u32 list \<Rightarrow> bytes \<Rightarrow> u32 list" where
  "sha_blocks s m = (if m = [] then s else sha_blocks (sha_compress s (take 64 m)) (drop 64 m))"
  by pat_completeness auto
termination
  by (relation "measure (\<lambda>(s, m). length m)") auto

declare sha_blocks.simps [simp del]

text \<open>\<open>sha256.Sum256(m)\<close>.\<close>

definition sha256 :: "bytes \<Rightarrow> bytes" where
  "sha256 m = concat (map be32 (sha_blocks sha_init (sha_pad m)))"

section \<open>A digest is 32 bytes\<close>

lemma length_sha_round [simp]: "length (sha_round s x) = length s"
  by (induction s x rule: sha_round.induct) (simp_all add: Let_def)

lemma length_foldl_sha_round [simp]: "length (foldl sha_round s xs) = length s"
  by (induction xs arbitrary: s) simp_all

lemma length_sha_compress [simp]: "length (sha_compress s b) = length s"
  by (simp add: sha_compress_def)

lemma length_sha_blocks: "length (sha_blocks s m) = length s"
proof (induction s m rule: sha_blocks.induct)
  case (1 s m)
  then show ?case by (simp add: sha_blocks.simps [of s m])
qed

lemma length_concat_be32: "length (concat (map be32 ws)) = 4 * length ws"
  by (induction ws) (simp_all add: be32_def)

lemma length_sha256 [simp]: "length (sha256 m) = 32"
  by (simp add: sha256_def length_concat_be32 length_sha_blocks sha_init_def)

lemma sha_pad_blocks: "64 dvd length (sha_pad m)"
proof -
  define q r where "q = length m div 64" and "r = length m mod 64"
  then have m: "length m = 64 * q + r" and "r < 64" by simp_all
  then have k: "(119 - r) mod 64 = (if r \<le> 55 then 55 - r else 119 - r)"
    by (auto simp: mod_if)
  have "length (sha_pad m) = length m + 9 + (119 - r) mod 64"
    by (simp add: sha_pad_def be64_def r_def)
  also have "\<dots> = 64 * (if r \<le> 55 then q + 1 else q + 2)"
    using \<open>r < 64\<close> by (simp add: m k)
  finally show ?thesis by simp
qed

interpretation sha: digest sha256
  by unfold_locales simp

end
