(* ===== verification/Tpm.thy ===== *)
theory Tpm
  imports Prelude Sha256 Config
begin

text \<open>
  \<open>internal/tpm/attestation.go\<close>: signing, quoting and provisioning. The TPM itself and
  \<open>go-tpm\<close> are a parameter, \<open>tpm_api\<close>: the commands the source executes on a device
  of type \<open>'d\<close>, with the marshalled part of each reply that the source keeps. A
  command may answer differently each time, since it takes and returns the device. What the
  source computes itself (digests, nonces, PCR bitmaps, command contents and their order) is
  modelled in full.
\<close>

section \<open>Commands\<close>

datatype algorithm = TPMAlgRSA | TPMAlgRSAPSS | TPMAlgSHA256

datatype hierarchy = TPMRHNull | TPMRHOwner

record SignCommand =
  SKeyHandle :: u32
  SDigest :: bytes
  SScheme :: algorithm
  SHashAlg :: algorithm

record QuoteCommand =
  QSignHandle :: u32
  QualifyingData :: bytes
  QScheme :: algorithm
  QHashAlg :: algorithm
  PCRSelections :: "(algorithm \<times> bytes) list"

record KeyTemplate =
  KType :: algorithm
  KNameAlg :: algorithm
  FixedTPM :: bool
  FixedParent :: bool
  SensitiveDataOrigin :: bool
  UserWithAuth :: bool
  Restricted :: bool
  SignEncrypt :: bool
  KScheme :: algorithm
  KHashAlg :: algorithm
  KeyBits :: nat

record 'd tpm_api =
  OpenFile :: "string \<Rightarrow> 'd res"
  CloseFile :: "'d \<Rightarrow> err option"
  ReadPublic :: "u32 \<Rightarrow> 'd \<Rightarrow> bytes res \<times> 'd"
  Sign :: "SignCommand \<Rightarrow> 'd \<Rightarrow> bytes res \<times> 'd"
  QuoteExec :: "QuoteCommand \<Rightarrow> 'd \<Rightarrow> (bytes \<times> bytes) res \<times> 'd"
  CreatePrimary :: "hierarchy \<Rightarrow> KeyTemplate \<Rightarrow> 'd \<Rightarrow> u32 res \<times> 'd"
  EvictControl :: "hierarchy \<Rightarrow> u32 \<Rightarrow> u32 \<Rightarrow> 'd \<Rightarrow> err option \<times> 'd"
  FlushContext :: "u32 \<Rightarrow> 'd \<Rightarrow> err option \<times> 'd"

section \<open>The worker\<close>

record TpmConfig =
  TDevice :: string
  TPCRs :: "nat list option"
  TSignKeyHandle :: u32
  TAKHandle :: u32

record 'd Worker =
  dev :: 'd
  wcfg :: TpmConfig
  signPub :: "bytes option"
  akPub :: "bytes option"

record KeyEvidence =
  SignPub :: "bytes option"
  AKPub :: "bytes option"

definition KeyEvidence_of :: "'d Worker \<Rightarrow> KeyEvidence" where
  "KeyEvidence_of w = \<lparr>SignPub = signPub w, AKPub = akPub w\<rparr>"

text \<open>\<open>fmt.Sprintf("0x%08x", h)\<close>.\<close>

definition hex_handle :: "u32 \<Rightarrow> string" where
  "hex_handle h =
     ''0x'' @ map (\<lambda>i. hex_digit (unat h div 16 ^ i mod 16)) (rev [0..<8])"

definition checkHandles :: "'d tpm_api \<Rightarrow> 'd Worker \<Rightarrow> err option \<times> 'd Worker" where
  "checkHandles api w =
     (case ReadPublic api (TSignKeyHandle (wcfg w)) (dev w) of
        (Inl e, d1) \<Rightarrow>
          (Some (Wrap (''tpm: sign key handle '' @ hex_handle (TSignKeyHandle (wcfg w)) @ '' not found'') e),
           w\<lparr>dev := d1\<rparr>)
      | (Inr sp, d1) \<Rightarrow>
          (case ReadPublic api (TAKHandle (wcfg w)) d1 of
             (Inl e, d2) \<Rightarrow>
               (Some (Wrap (''tpm: AK handle '' @ hex_handle (TAKHandle (wcfg w)) @ '' not found'') e),
                w\<lparr>dev := d2, signPub := Some sp\<rparr>)
           | (Inr ap, d2) \<Rightarrow> (None, w\<lparr>dev := d2, signPub := Some sp, akPub := Some ap\<rparr>)))"

definition TpmOpen :: "'d tpm_api \<Rightarrow> TpmConfig \<Rightarrow> 'd Worker res" where
  "TpmOpen api cfg =
     (case OpenFile api (TDevice cfg) of
        Inl e \<Rightarrow> Inl (Wrap (''tpm: open '' @ TDevice cfg) e)
      | Inr f \<Rightarrow>
          (let w = \<lparr>dev = f, wcfg = cfg, signPub = None, akPub = None\<rparr> in
           case checkHandles api w of
             (Some e, w1) \<Rightarrow> Inl e
           | (None, w1) \<Rightarrow> Inr w1))"

definition TpmClose :: "'d tpm_api \<Rightarrow> 'd Worker \<Rightarrow> err option" where
  "TpmClose api w = CloseFile api (dev w)"

section \<open>Sign\<close>

definition SignPacket :: "'d tpm_api \<Rightarrow> bytes \<Rightarrow> 'd Worker \<Rightarrow> bytes res \<times> 'd Worker" where
  "SignPacket api packetPayload w =
     (let digest = sha256 packetPayload;
          sign = \<lparr>SKeyHandle = TSignKeyHandle (wcfg w), SDigest = digest,
                  SScheme = TPMAlgRSAPSS, SHashAlg = TPMAlgSHA256\<rparr>
      in case Sign api sign (dev w) of
           (Inl e, d) \<Rightarrow> (Inl (Wrap ''tpm: sign'' e), w\<lparr>dev := d\<rparr>)
         | (Inr sig, d) \<Rightarrow> (Inr sig, w\<lparr>dev := d\<rparr>))"

section \<open>Quote\<close>

record QuoteResult =
  RNonce :: bytes
  RAttestBlob :: bytes
  RSig :: bytes

text \<open>\<open>pcrBitmap\<close>: \<open>bm[p/8] |= 1 << (p % 8)\<close> for every index below 24.\<close>

definition pcr_set :: "bytes \<Rightarrow> nat \<Rightarrow> bytes" where
  "pcr_set bm p =
     (if p < 24 then bm[p div 8 := or (bm ! (p div 8)) (push_bit (p mod 8) 1)] else bm)"

definition pcrBitmap :: "nat list option \<Rightarrow> bytes" where
  "pcrBitmap pcrs = foldl pcr_set [0, 0, 0] (case pcrs of None \<Rightarrow> [] | Some ps \<Rightarrow> ps)"

definition Quote :: "'d tpm_api \<Rightarrow> bytes \<Rightarrow> 'd Worker \<Rightarrow> QuoteResult res \<times> 'd Worker" where
  "Quote api nonce w =
     (let nonce1 = (if 64 < length nonce then take 64 nonce else nonce);
          quote = \<lparr>QSignHandle = TAKHandle (wcfg w), QualifyingData = nonce1,
                   QScheme = TPMAlgRSAPSS, QHashAlg = TPMAlgSHA256,
                   PCRSelections = [(TPMAlgSHA256, pcrBitmap (TPCRs (wcfg w)))]\<rparr>
      in case QuoteExec api quote (dev w) of
           (Inl e, d) \<Rightarrow> (Inl (Wrap ''tpm: quote'' e), w\<lparr>dev := d\<rparr>)
         | (Inr (attestBlob, sig), d) \<Rightarrow>
             (Inr \<lparr>RNonce = nonce1, RAttestBlob = attestBlob, RSig = sig\<rparr>, w\<lparr>dev := d\<rparr>))"

text \<open>What \<open>DeriveQuoteNonce\<close> writes to the hash, in order, and the digest.\<close>

definition nonce_preimage :: "bytes \<Rightarrow> bytes \<Rightarrow> bytes option \<Rightarrow> u64 \<Rightarrow> bytes" where
  "nonce_preimage sessionNonce packetSHA256 prevHash sq =
     sessionNonce @ packetSHA256 @ le64 sq @ opt_bytes prevHash"

definition DeriveQuoteNonce :: "bytes \<Rightarrow> bytes \<Rightarrow> bytes option \<Rightarrow> u64 \<Rightarrow> bytes" where
  "DeriveQuoteNonce sessionNonce packetSHA256 prevHash sq =
     sha256 (nonce_preimage sessionNonce packetSHA256 prevHash sq)"

section \<open>Provisioning\<close>

text \<open>The two functions differ in the template only. The deferred \<open>FlushContext\<close> runs when the
  function returns, after \<open>EvictControl\<close>, and its error is dropped.\<close>

definition create_persistent ::
  "'d tpm_api \<Rightarrow> KeyTemplate \<Rightarrow> u32 \<Rightarrow> 'd \<Rightarrow> err option \<times> 'd" where
  "create_persistent api template handle d =
     (case CreatePrimary api TPMRHNull template d of
        (Inl e, d1) \<Rightarrow> (Some e, d1)
      | (Inr obj, d1) \<Rightarrow>
          (let (err, d2) = EvictControl api TPMRHOwner obj handle d1;
               (_, d3) = FlushContext api obj d2
           in (err, d3)))"

definition sign_template :: KeyTemplate where
  "sign_template =
     \<lparr>KType = TPMAlgRSA, KNameAlg = TPMAlgSHA256, FixedTPM = True, FixedParent = True,
      SensitiveDataOrigin = True, UserWithAuth = True, Restricted = False, SignEncrypt = True,
      KScheme = TPMAlgRSAPSS, KHashAlg = TPMAlgSHA256, KeyBits = 2048\<rparr>"

definition ak_template :: KeyTemplate where
  "ak_template =
     \<lparr>KType = TPMAlgRSA, KNameAlg = TPMAlgSHA256, FixedTPM = True, FixedParent = True,
      SensitiveDataOrigin = True, UserWithAuth = True, Restricted = True, SignEncrypt = True,
      KScheme = TPMAlgRSAPSS, KHashAlg = TPMAlgSHA256, KeyBits = 2048\<rparr>"

definition createPersistentRSAPSSKey :: "'d tpm_api \<Rightarrow> u32 \<Rightarrow> 'd \<Rightarrow> err option \<times> 'd" where
  "createPersistentRSAPSSKey api handle d = create_persistent api sign_template handle d"

definition createPersistentAK :: "'d tpm_api \<Rightarrow> u32 \<Rightarrow> 'd \<Rightarrow> err option \<times> 'd" where
  "createPersistentAK api handle d = create_persistent api ak_template handle d"

text \<open>\<open>ProvisionKeys\<close>: the error and, when the device could be opened, the device at its close.\<close>

definition ProvisionKeys :: "'d tpm_api \<Rightarrow> TpmConfig \<Rightarrow> err option \<times> 'd option" where
  "ProvisionKeys api cfg =
     (case OpenFile api (TDevice cfg) of
        Inl e \<Rightarrow> (Some (Wrap (''tpm: open '' @ TDevice cfg) e), None)
      | Inr t \<Rightarrow>
          (case createPersistentRSAPSSKey api (TSignKeyHandle cfg) t of
             (Some e, d1) \<Rightarrow> (Some (Wrap ''tpm: create sign key'' e), Some d1)
           | (None, d1) \<Rightarrow>
               (case createPersistentAK api (TAKHandle cfg) d1 of
                  (Some e, d2) \<Rightarrow> (Some (Wrap ''tpm: create AK'' e), Some d2)
                | (None, d2) \<Rightarrow> (None, Some d2))))"

section \<open>PCR selection\<close>

lemma length_pcr_set [simp]: "length (pcr_set bm p) = length bm"
  by (simp add: pcr_set_def)

lemma bit_pcr_set:
  "length bm = 3 \<Longrightarrow> q < 24 \<Longrightarrow>
     bit (pcr_set bm p ! (q div 8)) (q mod 8) \<longleftrightarrow> bit (bm ! (q div 8)) (q mod 8) \<or> p = q"
proof -
  assume len: "length bm = 3" and q: "q < 24"
  have d: "q div 8 < 3" using q by (simp add: div_less_iff_less_mult)
  have "p div 8 = q div 8 \<and> p mod 8 = q mod 8 \<longleftrightarrow> p = q" by (metis div_mult_mod_eq)
  with len q d show ?thesis
    by (auto simp: pcr_set_def nth_list_update bit_or_iff bit_exp_iff)
qed

lemma bit_pcr_fold:
  "length bm = 3 \<Longrightarrow> q < 24 \<Longrightarrow>
     bit (foldl pcr_set bm ps ! (q div 8)) (q mod 8) \<longleftrightarrow> bit (bm ! (q div 8)) (q mod 8) \<or> q \<in> set ps"
  by (induction ps arbitrary: bm) (auto simp: bit_pcr_set)

lemma length_pcr_fold: "length (foldl pcr_set bm ps) = length bm"
  by (induction ps arbitrary: bm) simp_all

lemma zero_bitmap: "q < 24 \<Longrightarrow> \<not> bit ([0, 0, 0 :: byte] ! (q div 8)) (q mod 8)"
proof -
  assume "q < 24"
  then have "q div 8 \<in> {0, 1, 2}" by (auto simp: div_less_iff_less_mult)
  then show ?thesis by auto
qed

section \<open>Nonces\<close>

lemma nonce_preimage_inject:
  assumes "length a = length b" "length x = length y"
  shows "nonce_preimage a x p m = nonce_preimage b y q n \<longleftrightarrow>
    a = b \<and> x = y \<and> m = n \<and> opt_bytes p = opt_bytes q"
  using assms by (auto simp: nonce_preimage_def)

lemma length_DeriveQuoteNonce [simp]: "length (DeriveQuoteNonce s x p n) = 32"
  by (simp add: DeriveQuoteNonce_def)

text \<open>A derived nonce is short enough to reach the TPM whole.\<close>

lemma Quote_nonce:
  "length nonce \<le> 64 \<Longrightarrow> Quote api nonce w = (Inr r, w') \<Longrightarrow> RNonce r = nonce"
  by (auto simp: Quote_def Let_def split: prod.splits sum.splits)

lemma worker_frame [frame_simps]:
  "Quote api nonce w = (r, w') \<Longrightarrow> wcfg w' = wcfg w"
  "SignPacket api b w = (r', w') \<Longrightarrow> wcfg w' = wcfg w"
  by (auto simp: Quote_def SignPacket_def Let_def split: prod.splits sum.splits)

section \<open>Properties\<close>

text \<open>C29: \<open>pcrBitmap\<close> is exact: the bitmap has three bytes, and for every PCR index below
  24 the bit \<open>p mod 8\<close> of byte \<open>p / 8\<close> is set exactly when the index is in the configured list, so
  a quote covers the configured PCRs and no other, whatever the order and repetitions of the list;
  larger indices change nothing.\<close>

theorem pcr_bitmap_exact:
  assumes "p < 24"
  shows "length (pcrBitmap (Some ps)) = 3 \<and>
    (bit (pcrBitmap (Some ps) ! (p div 8)) (p mod 8) \<longleftrightarrow> p \<in> set ps) \<and>
    pcrBitmap (Some (filter (\<lambda>q. q < 24) ps)) = pcrBitmap (Some ps)"
proof -
  have "foldl pcr_set bm (filter (\<lambda>q. q < 24) ps) = foldl pcr_set bm ps" for bm
    by (induction ps arbitrary: bm) (simp_all add: pcr_set_def)
  with assms show ?thesis by (simp add: pcrBitmap_def length_pcr_fold bit_pcr_fold zero_bitmap)
qed

text \<open>The default PCRs 10, 11, 12 and 15 select the middle byte \<open>0x9c\<close>.\<close>

theorem pcr_bitmap_exact_witness:
  "bit (pcrBitmap (Some [10, 11, 12, 15]) ! 1) 7 \<and> \<not> bit (pcrBitmap (Some [10, 11, 12, 15]) ! 1) 6
   \<and> pcrBitmap (Some [10, 11, 12, 15]) = [0, 0x9c, 0]"
  using pcr_bitmap_exact [of 15 "[10, 11, 12, 15]"] pcr_bitmap_exact [of 14 "[10, 11, 12, 15]"]
  by (simp add: pcrBitmap_def pcr_set_def)

text \<open>C27: the qualifying nonce of a quote binds it to one point of one session: a quote that succeeds is the
  answer of the TPM to exactly one command, for the attestation key and the configured PCRs, whose
  qualifying data is the whole nonce of 32 bytes; attestation and signature of the result are what the TPM
  answered, and the nonce of the result is the one it was given. If two points that differ in the session nonce,
  the packet digest, the sequence number or the previous hash had the same nonce, their two preimages would
  be a SHA-256 collision.\<close>

theorem quote_nonce_binding:
  assumes "length sn = length sn'" "length sha = length sha'"
    and "(sn, sha, sq, opt_bytes prev) \<noteq> (sn', sha', sq', opt_bytes prev')"
    and "Quote api (DeriveQuoteNonce sn sha prev sq) w = (Inr r, w')"
  shows "QuoteExec api \<lparr>QSignHandle = TAKHandle (wcfg w), QualifyingData = sha256 (sn @ sha @ le64 sq @ opt_bytes prev),
        QScheme = TPMAlgRSAPSS, QHashAlg = TPMAlgSHA256,
        PCRSelections = [(TPMAlgSHA256, pcrBitmap (TPCRs (wcfg w)))]\<rparr> (dev w) = (Inr (RAttestBlob r, RSig r), dev w') \<and>
    RNonce r = sha256 (sn @ sha @ le64 sq @ opt_bytes prev) \<and> length (RNonce r) = 32 \<and>
    (RNonce r = DeriveQuoteNonce sn' sha' prev' sq' \<longrightarrow>
     collision sha256 (nonce_preimage sn sha prev sq) (nonce_preimage sn' sha' prev' sq'))"
proof -
  have "QuoteExec api \<lparr>QSignHandle = TAKHandle (wcfg w), QualifyingData = DeriveQuoteNonce sn sha prev sq,
        QScheme = TPMAlgRSAPSS, QHashAlg = TPMAlgSHA256,
        PCRSelections = [(TPMAlgSHA256, pcrBitmap (TPCRs (wcfg w)))]\<rparr> (dev w) = (Inr (RAttestBlob r, RSig r), dev w')"
    using assms(4) by (auto simp: Quote_def Let_def split: prod.splits sum.splits)
  moreover have "RNonce r = DeriveQuoteNonce sn sha prev sq" using Quote_nonce [OF _ assms(4)] by simp
  ultimately show ?thesis
    using assms(1-3) by (auto simp: collision_def nonce_preimage_inject DeriveQuoteNonce_def)
      (simp_all add: nonce_preimage_def)
qed

text \<open>A TPM with one key per handle that signs by repeating what it is given, to evaluate the
  operations on.\<close>

definition echo_tpm :: "unit tpm_api" where
  "echo_tpm =
     \<lparr>OpenFile = (\<lambda>_. Inr ()), CloseFile = (\<lambda>_. None), ReadPublic = (\<lambda>h d. (Inr [ucast h], d)),
      Sign = (\<lambda>c d. (Inr (SDigest c), d)),
      QuoteExec = (\<lambda>c d. (Inr (QualifyingData c, []), d)),
      CreatePrimary = (\<lambda>_ _ d. (Inr 0x80000000, d)),
      EvictControl = (\<lambda>_ _ _ d. (Some (Err ''TPM_RC_HIERARCHY''), d)),
      FlushContext = (\<lambda>_ d. (None, d))\<rparr>"

definition echo_config :: TpmConfig where
  "echo_config = \<lparr>TDevice = ''/dev/tpmrm0'', TPCRs = Some [10, 11, 12, 15],
     TSignKeyHandle = 0x81000001, TAKHandle = 0x81000002\<rparr>"

theorem quote_nonce_binding_witness:
  "\<exists>r w'. Quote echo_tpm (DeriveQuoteNonce [1] [2] None 0) \<lparr>dev = (), wcfg = echo_config,
       signPub = None, akPub = None\<rparr> = (Inr r, w') \<and> length (RNonce r) = 32 \<and>
     RAttestBlob r = sha256 ([1, 2] @ le64 0)"
proof -
  let ?w = "\<lparr>dev = (), wcfg = echo_config, signPub = None, akPub = None\<rparr>"
  obtain r w' where q: "Quote echo_tpm (DeriveQuoteNonce [1] [2] None 0) ?w = (Inr r, w')"
    by (simp add: Quote_def echo_tpm_def Let_def)
  from quote_nonce_binding [of "[1]" "[3]" "[2]" "[2]" 0 None 1 "Some [4]" echo_tpm ?w r w'] q
  have "length (RNonce r) = 32" "RAttestBlob r = sha256 ([1, 2] @ le64 0)" by (auto simp: echo_tpm_def)
  then show ?thesis using q by blast
qed

text \<open>C28: \<open>Open\<close> returns a worker exactly when the device opens and both persistent
  handles can be read, and then the key evidence holds exactly what the two handles
  answered, in this order; so the daemon never runs with a TPM whose keys it could not seal, and a
  worker's evidence is never nil.\<close>

theorem tpm_open_evidence:
  "TpmOpen api cfg = Inr w \<longleftrightarrow>
     (\<exists>f sp ap d1 d2. OpenFile api (TDevice cfg) = Inr f \<and>
        ReadPublic api (TSignKeyHandle cfg) f = (Inr sp, d1) \<and>
        ReadPublic api (TAKHandle cfg) d1 = (Inr ap, d2) \<and>
        KeyEvidence_of w = \<lparr>SignPub = Some sp, AKPub = Some ap\<rparr> \<and> wcfg w = cfg \<and> dev w = d2)"
  by (cases w) (auto simp: TpmOpen_def checkHandles_def KeyEvidence_of_def Let_def
      split: sum.splits prod.splits option.splits)

text \<open>C40: \<open>ProvisionKeys\<close> cannot succeed on a TPM that, as the TPM 2.0 library
  specification requires of \<open>TPM2_EvictControl\<close>, refuses to make an object of the null
  hierarchy persistent: both keys are created under \<open>TPM_RH_NULL\<close>, so the call reports an
  error whatever the configuration.\<close>

theorem provision_null_hierarchy:
  assumes "\<And>t d obj d' auth h. CreatePrimary api TPMRHNull t d = (Inr obj, d') \<Longrightarrow>
      fst (EvictControl api auth obj h d') \<noteq> None"
  shows "fst (ProvisionKeys api cfg) \<noteq> None"
proof -
  have "fst (create_persistent api t h d) \<noteq> None" for t h d
    using assms [of t d _ _ TPMRHOwner h]
    by (fastforce simp: create_persistent_def split: sum.splits prod.splits)
  then have "\<exists>e d'. create_persistent api t h d = (Some e, d')" for t h d
    by (metis prod.collapse option.exhaust)
  then obtain e d' where
    "OpenFile api (TDevice cfg) = Inr f \<Longrightarrow>
       createPersistentRSAPSSKey api (TSignKeyHandle cfg) f = (Some (e f), d' f)" for f
    unfolding createPersistentRSAPSSKey_def by metis
  then show ?thesis by (simp add: ProvisionKeys_def split: sum.split)
qed

theorem provision_null_hierarchy_witness:
  "fst (ProvisionKeys echo_tpm echo_config) \<noteq> None"
  by (rule provision_null_hierarchy) (simp add: echo_tpm_def)

end
