(* ===== verification/Custody.thy ===== *)
theory Custody
  imports Hotbuffer Moonraker_Types Policy Telemetry Tpm
begin

text \<open>
  \<open>internal/custody/packetizer.go\<close>: the custody clock. The packetizer is a record of the
  fields of the struct; the trust buffer it shares with the uploader is the \<^typ>\<open>database\<close> that its
  handlers take and return. What an event finds outside the program (clock readings, random bytes,
  database failures) is an argument of the handler; the TPM is a parameter as in \<open>Tpm\<close>, and
  BLAKE3 (\<open>zeebo/blake3\<close>) is the parameter \<open>B\<close>. Logging is left out. The one goroutine of
  \<open>Run\<close> is the only user of the struct, so the mutex has no effect. \<open>silentTicks\<close> counts
  ticks and is reset above \<open>MaxSilentTicks\<close>, so it is an unbounded integer here.
\<close>

section \<open>Data\<close>

record PacketizerConfig =
  PNodeLabel :: string
  PPrinterID :: string
  PPeriod :: int
  PMaxSilentTicks :: int
  PQuoteInterval :: int
  PQuoteOnLifecycle :: bool
  PPCRs :: "nat list option"
  PAKHandle :: u32

record 'd Packetizer =
  pcfg :: PacketizerConfig
  tpm :: "'d Worker option"
  policy :: Evaluator
  pstate :: PrinterState
  sessionID :: string
  sessionNonce :: bytes
  pseq :: u64
  prevBlake3 :: "bytes option"
  lastQuoteID :: int
  silentTicks :: int
  immediateQuote :: bool
  lastQuoteAt :: gotime
  quoteInterval :: int

definition NewPacketizer :: "PacketizerConfig \<Rightarrow> 'd Worker option \<Rightarrow> 'd Packetizer" where
  "NewPacketizer cfg t =
     \<lparr>pcfg = cfg, tpm = t, policy = NewEvaluator, pstate = zero_state, sessionID = [],
      sessionNonce = [], pseq = 0, prevBlake3 = None, lastQuoteID = 0, silentTicks = 0,
      immediateQuote = False, lastQuoteAt = zero_time, quoteInterval = PQuoteInterval cfg\<rparr>"

section \<open>Sessions and the state cache\<close>

text \<open>The bytes \<open>crypto/rand\<close> delivers for the two reads of \<open>startNewSession\<close>.\<close>

record session_rand =
  rand_id :: bytes
  rand_nonce :: bytes

text \<open>A buffer of \<open>n\<close> zero bytes after \<open>rand.Read\<close> filled it, as far as it got (its error is
  not looked at).\<close>

definition filled :: "nat \<Rightarrow> bytes \<Rightarrow> bytes" where
  "filled n b = take n (b @ replicate n 0)"

definition startNewSession :: "session_rand \<Rightarrow> 'd Packetizer \<Rightarrow> 'd Packetizer" where
  "startNewSession rnd p =
     p\<lparr>sessionID := hex_encode (filled 16 (rand_id rnd)), sessionNonce := filled 32 (rand_nonce rnd),
       pseq := 0, prevBlake3 := None, lastQuoteID := 0, silentTicks := 0, lastQuoteAt := zero_time\<rparr>"

definition scheduleImmediateQuote :: "'d Packetizer \<Rightarrow> 'd Packetizer" where
  "scheduleImmediateQuote p = p\<lparr>immediateQuote := True\<rparr>"

definition detectLifecycleEdge ::
  "session_rand \<Rightarrow> string \<Rightarrow> string \<Rightarrow> 'd Packetizer \<Rightarrow> 'd Packetizer" where
  "detectLifecycleEdge rnd prev nxt p =
     (if prev = nxt then p
      else let p1 = (if nxt = ''printing'' \<and> prev \<noteq> ''paused'' then startNewSession rnd p else p)
           in if PQuoteOnLifecycle (pcfg p1) \<and> tpm p1 \<noteq> None then scheduleImmediateQuote p1 else p1)"

text \<open>The anonymous struct that the chamber sensor is decoded into.\<close>

definition unm_chamber :: "json \<Rightarrow> bool \<times> f64" where
  "unm_chamber raw = unm_struct [''temperature''] (\<lambda>f j x. unm_float j x) raw 0"

text \<open>One iteration of the loop over the delta's map.\<close>

definition apply_object :: "session_rand \<Rightarrow> string \<Rightarrow> json \<Rightarrow> 'd Packetizer \<Rightarrow> 'd Packetizer" where
  "apply_object rnd obj raw p =
     (let st = pstate p in
      if obj = ''extruder'' then
        p\<lparr>pstate := st\<lparr>Extruder := snd (unm_extruder raw (Extruder st))\<rparr>\<rparr>
      else if obj = ''heater_bed'' then
        p\<lparr>pstate := st\<lparr>HeaterBed := snd (unm_heater_bed raw (HeaterBed st))\<rparr>\<rparr>
      else if obj = ''motion_report'' then
        p\<lparr>pstate := st\<lparr>MotionReport := snd (unm_motion raw (MotionReport st))\<rparr>\<rparr>
      else if obj = ''print_stats'' then
        (let new = snd (unm_print_stats raw (PrintStats st))
         in detectLifecycleEdge rnd (State (PrintStats st)) (State new)
              (p\<lparr>pstate := st\<lparr>PrintStats := new\<rparr>\<rparr>))
      else if obj = ''mcu'' then
        p\<lparr>pstate := st\<lparr>MCU := snd (unm_mcu raw (MCU st))\<rparr>\<rparr>
      else if obj = ''temperature_sensor chamber'' then
        (case unm_chamber raw of
           (True, t) \<Rightarrow> p\<lparr>pstate := st\<lparr>ChamberTempC := t, ChamberPresent := True\<rparr>\<rparr>
         | (False, _) \<Rightarrow> p)
      else p)"

fun apply_objects :: "session_rand \<Rightarrow> (string \<times> json) list \<Rightarrow> 'd Packetizer \<Rightarrow> 'd Packetizer" where
  "apply_objects rnd [] p = p"
| "apply_objects rnd ((obj, raw) # ms) p = apply_objects rnd ms (apply_object rnd obj raw p)"

definition applyDelta :: "session_rand \<Rightarrow> StatusDelta \<Rightarrow> 'd Packetizer \<Rightarrow> 'd Packetizer" where
  "applyDelta rnd delta p = apply_objects rnd (Status delta) p"

section \<open>The tick\<close>

text \<open>What one call of \<open>onTick\<close> finds outside: the ticker's time, random bytes for a
  session it may start, the clock readings, and whether each database statement fails.\<close>

record tick_env =
  te_tick :: gotime
  te_rand :: session_rand
  te_mono :: int
  te_now :: gotime
  te_fault_now :: gotime
  te_fault_err :: "err option"
  te_quote_now :: gotime
  te_quote_err :: "err option"
  te_packet_err :: "err option"
  te_sig_err :: "err option"

definition silence_reason :: string where
  "silence_reason = ''printer telemetry silence exceeded threshold''"

definition silence_step :: "tick_env \<Rightarrow> 'd Packetizer \<Rightarrow> database \<Rightarrow> 'd Packetizer \<times> database" where
  "silence_step env p db =
     (let p1 = p\<lparr>silentTicks := silentTicks p + 1\<rparr> in
      if PMaxSilentTicks (pcfg p1) < silentTicks p1
      then (p1\<lparr>silentTicks := 0\<rparr>,
            snd (RecordProvenanceFault (te_fault_err env) (te_fault_now env) (sessionID p1) (pseq p1)
                   silence_reason db))
      else (p1, db))"

definition telemetry_map :: "PrinterState \<Rightarrow> (string \<rightharpoonup> f64)" where
  "telemetry_map state =
     TelemetryFromCustody
       (ExTemperature (Extruder state)) (ExTarget (Extruder state)) (ExPower (Extruder state))
       (BedTemperature (HeaterBed state)) (BedTarget (HeaterBed state)) (BedPower (HeaterBed state))
       (LiveVelocity (MotionReport state)) (LiveExtruderVelocity (MotionReport state))
       (ChamberTempC state) (ChamberPresent state)"

definition tick_decision :: "PolicyDecision \<Rightarrow> Decision option" where
  "tick_decision pverdict =
     (if DProfileID pverdict \<noteq> ''null''
      then Some \<lparr>Pass = DPass pverdict, ProfileID = DProfileID pverdict, Violations = DViolations pverdict\<rparr>
      else None)"

text \<open>The packet before signing: the fields that are filled later have their zero value.\<close>

definition build_packet ::
  "'d Packetizer \<Rightarrow> PrinterState \<Rightarrow> gotime \<Rightarrow> int \<Rightarrow> Decision option \<Rightarrow> CustodyPacket" where
  "build_packet p state tick monoNs decision =
     \<lparr>PktSessionID = sessionID p, PktNodeLabel = PNodeLabel (pcfg p),
      PktPrinterID = PPrinterID (pcfg p), Seq = pseq p, Tick = tick, TickMonoNs = monoNs,
      ExtruderTemp = ExTemperature (Extruder state), ExtruderTarget = ExTarget (Extruder state),
      ExtruderPower = ExPower (Extruder state), PktBedTemp = BedTemperature (HeaterBed state),
      PktBedTarget = BedTarget (HeaterBed state), PktBedPower = BedPower (HeaterBed state),
      ChamberTemp = ChamberTempC state, PktChamberPresent = ChamberPresent state,
      PktLiveVelocity = LiveVelocity (MotionReport state),
      PktLiveExtruderVelocity = LiveExtruderVelocity (MotionReport state),
      PktLivePosition = LivePosition (MotionReport state),
      PrintState = State (PrintStats state), FilamentUsedMM = FilamentUsed (PrintStats state),
      PrintDurationS = PrintDuration (PrintStats state),
      PktMCUVersion = MCUVersion (MCU state), PktMCUBuildVersions = MCUBuildVersions (MCU state),
      PktDecision = decision, AnomalyExtruderThermal = False, AnomalyBedThermal = False,
      AnomalyLoadCell = False, RecoveredFromCache = False, PrevPacketBLAKE3 = prevBlake3 p,
      PacketSHA256 = None, PacketBLAKE3 = None, TPMSig = None, QuoteRef = lastQuoteID p\<rparr>"

definition shouldQuote :: "gotime \<Rightarrow> 'd Packetizer \<Rightarrow> bool" where
  "shouldQuote now p =
     (if immediateQuote p then True
      else if is_zero_time (lastQuoteAt p) then True
      else quoteInterval p \<le> time_since now (lastQuoteAt p))"

text \<open>The quote section: the quote id the packet will refer to.\<close>

definition quote_step ::
  "'d tpm_api \<Rightarrow> tick_env \<Rightarrow> bytes \<Rightarrow> 'd Packetizer \<Rightarrow> database \<Rightarrow> int \<times> 'd Packetizer \<times> database" where
  "quote_step api env sha p db =
     (case tpm p of
        None \<Rightarrow> (lastQuoteID p, p, db)
      | Some w \<Rightarrow>
          if \<not> shouldQuote (te_now env) p then (lastQuoteID p, p, db)
          else
            (case Quote api (DeriveQuoteNonce (sessionNonce p) sha (prevBlake3 p) (pseq p)) w of
               (Inl e, w1) \<Rightarrow> (lastQuoteID p, p\<lparr>tpm := Some w1\<rparr>, db)
             | (Inr qr, w1) \<Rightarrow>
                 (case WriteQuote (te_quote_err env) (te_quote_now env)
                         \<lparr>QSessionID = sessionID p, QSeq = pseq p, QPCRs = PPCRs (pcfg p),
                          QNonce = RNonce qr, QAttestBlob = RAttestBlob qr, QSig = RSig qr,
                          QAKHandle = PAKHandle (pcfg p)\<rparr> db of
                    (Inl e, db1) \<Rightarrow> (lastQuoteID p, p\<lparr>tpm := Some w1\<rparr>, db1)
                  | (Inr qid, db1) \<Rightarrow>
                      (qid, p\<lparr>tpm := Some w1, lastQuoteID := qid, lastQuoteAt := te_tick env,
                              immediateQuote := False\<rparr>, db1))))"

definition sign_step :: "'d tpm_api \<Rightarrow> bytes \<Rightarrow> 'd Packetizer \<Rightarrow> bytes option \<times> 'd Packetizer" where
  "sign_step api canonical p =
     (case tpm p of
        None \<Rightarrow> (None, p)
      | Some w \<Rightarrow>
          (case SignPacket api canonical w of
             (Inl e, w1) \<Rightarrow> (None, p\<lparr>tpm := Some w1\<rparr>)
           | (Inr sig, w1) \<Rightarrow> (Some sig, p\<lparr>tpm := Some w1\<rparr>)))"

text \<open>What \<open>computePacketBLAKE3\<close> writes to the hash, in order, and the digest.\<close>

definition packet_preimage ::
  "u64 \<Rightarrow> string \<Rightarrow> bytes \<Rightarrow> bytes option \<Rightarrow> bytes option \<Rightarrow> bytes" where
  "packet_preimage sq sid canonical tpmSig prevHash =
     [0] @ le64 sq @ bytes_of sid @ canonical @ opt_bytes tpmSig @ opt_bytes prevHash"

definition computePacketBLAKE3 ::
  "(bytes \<Rightarrow> bytes) \<Rightarrow> u64 \<Rightarrow> string \<Rightarrow> bytes \<Rightarrow> bytes option \<Rightarrow> bytes option \<Rightarrow> bytes" where
  "computePacketBLAKE3 B sq sid canonical tpmSig prevHash =
     B (packet_preimage sq sid canonical tpmSig prevHash)"

definition tick_row ::
  "'d Packetizer \<Rightarrow> tick_env \<Rightarrow> bytes \<Rightarrow> Decision option \<Rightarrow> bytes \<Rightarrow> bytes \<Rightarrow> PacketRow" where
  "tick_row p env canonical decision sha hash =
     \<lparr>RowSessionID = sessionID p, RowSeq = pseq p, RowTickUTC = te_tick env,
      RowTickMonoNs = te_mono env, TelemetryJSON = canonical,
      RowAnomalyExtruder = (case decision of None \<Rightarrow> False | Some d \<Rightarrow> \<not> Pass d),
      RowAnomalyBed = False, RowAnomalyLoadCell = False, RowRecoveredFromCache = False,
      RowPrevPacketBLAKE3 = prevBlake3 p, RowPacketSHA256 = sha, RowPacketBLAKE3 = Some hash\<rparr>"

text \<open>From the canonical text on: quote, sign, hash, write, backfill the signature, advance.\<close>

definition seal_tick ::
  "(bytes \<Rightarrow> bytes) \<Rightarrow> 'd tpm_api \<Rightarrow> tick_env \<Rightarrow> Decision option \<Rightarrow> bytes \<Rightarrow> 'd Packetizer \<Rightarrow> database
     \<Rightarrow> 'd Packetizer \<times> database" where
  "seal_tick B api env decision canonical p db =
     (let sha = sha256 canonical;
          (quoteID, p1, db1) = quote_step api env sha p db;
          (tpmSig, p2) = sign_step api canonical p1;
          hash = computePacketBLAKE3 B (pseq p2) (sessionID p2) canonical tpmSig (prevBlake3 p2)
      in case WritePacket (te_packet_err env) (tick_row p2 env canonical decision sha hash) db1 of
           (Inl e, db2) \<Rightarrow> (p2, db2)
         | (Inr rowID, db2) \<Rightarrow>
             (p2\<lparr>prevBlake3 := Some hash, pseq := pseq p2 + 1\<rparr>,
              case tpmSig of
                None \<Rightarrow> db2
              | Some sig \<Rightarrow> snd (SetTPMSig (te_sig_err env) rowID (Some sig) quoteID db2)))"

definition onTick ::
  "(bytes \<Rightarrow> bytes) \<Rightarrow> 'd tpm_api \<Rightarrow> tick_env \<Rightarrow> 'd Packetizer \<Rightarrow> database
     \<Rightarrow> 'd Packetizer \<times> database" where
  "onTick B api env p db =
     (let state = pstate p in
      if \<not> IsActive state then (p, db)
      else
        let p1 = (if sessionID p = [] then startNewSession (te_rand env) p else p);
            (p2, db1) = silence_step env p1 db;
            (pverdict, evaluator) = Evaluate (telemetry_map state) (policy p2);
            p3 = p2\<lparr>policy := evaluator\<rparr>;
            decision = tick_decision pverdict
        in case marshal_packet (build_packet p3 state (te_tick env) (te_mono env) decision) of
             Inl e \<Rightarrow> (p3, db1)
           | Inr canonical \<Rightarrow> seal_tick B api env decision canonical p3 db1)"

section \<open>The loop\<close>

text \<open>What the \<open>select\<close> of \<open>Run\<close> may receive: the cancelled context, the closed channel, a delta
  or a tick.\<close>

datatype event = Done | Closed | Delta session_rand StatusDelta | TickEvent tick_env

fun run_loop ::
  "(bytes \<Rightarrow> bytes) \<Rightarrow> 'd tpm_api \<Rightarrow> event list \<Rightarrow> 'd Packetizer \<Rightarrow> database \<Rightarrow> 'd Packetizer \<times> database"
where
  "run_loop B api [] p db = (p, db)"
| "run_loop B api (Done # es) p db = (p, db)"
| "run_loop B api (Closed # es) p db = (p, db)"
| "run_loop B api (Delta rnd d # es) p db =
     run_loop B api es ((applyDelta rnd d p)\<lparr>silentTicks := 0\<rparr>) db"
| "run_loop B api (TickEvent env # es) p db =
     (let (p1, db1) = onTick B api env p db in run_loop B api es p1 db1)"

text \<open>\<open>Run\<close>: \<open>time.NewTicker\<close> panics unless the period is positive (\<open>None\<close>).\<close>

definition Run ::
  "(bytes \<Rightarrow> bytes) \<Rightarrow> 'd tpm_api \<Rightarrow> event list \<Rightarrow> 'd Packetizer \<Rightarrow> database
     \<Rightarrow> ('d Packetizer \<times> database) option" where
  "Run B api es p db =
     (if PPeriod (pcfg p) \<le> 0 then None else Some (run_loop B api es p db))"

end
