(* ===== verification/Hotbuffer_Props.thy ===== *)
theory Hotbuffer_Props
  imports Hotbuffer "HOL-Library.Multiset"
begin

text \<open>
  What the hot buffer's operations promise: the pending range the uploader takes, the hashes in
  the order asked for, and the invariant every operation keeps.
\<close>

section \<open>Contiguous prefixes\<close>

lemma contiguous_le: "contiguous xs \<le> length xs"
  by (induction xs rule: contiguous.induct) auto

lemma contiguous_pos: "xs \<noteq> [] \<Longrightarrow> 0 < contiguous xs"
  by (induction xs rule: contiguous.induct) auto

lemma contiguous_nth: "i < contiguous xs \<Longrightarrow> xs ! i = xs ! 0 + of_nat i"
proof (induction xs arbitrary: i rule: contiguous.induct)
  case (3 a b s)
  show ?case
  proof (cases i)
    case (Suc j)
    with "3.prems" have "b = a + 1" and j: "j < contiguous (b # s)" by (auto split: if_splits)
    moreover have "(b # s) ! j = (b # s) ! 0 + of_nat j"
      using "3.IH" [OF _ j] \<open>b = a + 1\<close> by simp
    ultimately show ?thesis using Suc by (simp add: add.assoc)
  qed simp
qed auto

lemma contiguous_stop: "contiguous xs < length xs \<Longrightarrow> xs ! contiguous xs \<noteq> xs ! (contiguous xs - 1) + 1"
proof (induction xs rule: contiguous.induct)
  case (3 a b s)
  then show ?case using contiguous_pos [of "b # s"] by (cases "contiguous (b # s)") auto
qed auto

text \<open>Numbers that fit \<open>2^63\<close> do not wrap, so a contiguous prefix is an interval.\<close>

lemma contiguous_interval:
  assumes "\<forall>x \<in> set xs. unat x < 2 ^ 63"
  shows "map unat (take (contiguous xs) xs) = [unat (xs ! 0) ..< unat (xs ! 0) + contiguous xs]"
proof (rule nth_equalityI)
  show "length (map unat (take (contiguous xs) xs)) = length [unat (xs ! 0) ..< unat (xs ! 0) + contiguous xs]"
    using contiguous_le [of xs] by simp
  fix i assume "i < length (map unat (take (contiguous xs) xs))"
  then have i: "i < contiguous xs" by simp
  then have "unat (xs ! i) = unat (xs ! 0) + i"
  proof (induction i)
    case (Suc i)
    have "xs ! Suc i = xs ! i + 1" using contiguous_nth [of i xs] contiguous_nth [OF Suc.prems] Suc.prems
      by simp
    moreover have "unat (xs ! i) < 2 ^ 63"
      using assms Suc.prems contiguous_le [of xs] by simp
    ultimately show ?case using Suc by (simp add: unat_word_ariths)
  qed simp
  with i show "map unat (take (contiguous xs) xs) ! i = [unat (xs ! 0) ..< unat (xs ! 0) + contiguous xs] ! i"
    using contiguous_le [of xs] by simp
qed

section \<open>The pending range\<close>

definition pending :: "string \<Rightarrow> database \<Rightarrow> packet_row set" where
  "pending s db = {r \<in> set (packets db). session_id r = s \<and> upload_state r = ''pending''}"

definition pending_sorted :: "string \<Rightarrow> database \<Rightarrow> packet_row list" where
  "pending_sorted s db = sort_key (\<lambda>r. unat (seq r))
     (filter (\<lambda>r. session_id r = s \<and> upload_state r = ''pending'') (packets db))"

lemma set_pending_sorted [simp]: "set (pending_sorted s db) = pending s db"
  by (auto simp: pending_sorted_def pending_def)

lemma pending_rows_prefix:
  "pending_rows s m db = sql_limit m (pending_sorted s db)"
  by (simp add: pending_rows_def pending_sorted_def)

lemma distinct_second:
  "distinct (map (\<lambda>r. (f r, g r)) xs) \<Longrightarrow> distinct (map g (filter (\<lambda>r. f r = s \<and> Q r) xs))"
  by (induction xs) (auto simp: image_iff)

lemma distinct_map_sort_key: "distinct (map k (sort_key k xs)) = distinct (map k xs)"
  by (metis mset_eq_imp_distinct_iff mset_map mset_sort)

lemma pending_strict:
  assumes "db_wf db" shows "sorted_wrt (<) (map (\<lambda>r. unat (seq r)) (pending_sorted s db))"
proof -
  let ?xs = "filter (\<lambda>r. session_id r = s \<and> upload_state r = ''pending'') (packets db)"
  have "distinct (map seq ?xs)"
    using assms by (intro distinct_second) (simp add: db_wf_def)
  then have "distinct (map unat (map seq ?xs))"
    by (subst distinct_map) (simp add: inj_on_def word_unat_eq_iff)
  then show ?thesis
    by (simp add: strict_sorted_iff pending_sorted_def distinct_map_sort_key comp_def)
qed

lemma pending_bound: "db_wf db \<Longrightarrow> r \<in> pending s db \<Longrightarrow> unat (seq r) < 2 ^ 63"
  by (auto simp: db_wf_def pending_def row_ok_def sql_uint_ok_def)

lemma sql_limit_take: "\<exists>k. sql_limit m xs = take k xs"
  by (metis sql_limit_def take_all_iff order_refl)

text \<open>Reading the first \<open>k\<close> pending rows, for whatever reason it stops there, gives an
  interval that starts at the first of them.\<close>

lemma pending_prefix_interval:
  assumes "db_wf db" "rows = take k (pending_sorted s db)" "n = contiguous (map seq rows)" "rows \<noteq> []"
  shows "map (\<lambda>r. unat (seq r)) (take n rows) = [unat (seq (hd rows)) ..< Suc (unat (seq (rows ! (n - 1))))]"
    and "n \<le> length rows" and "0 < n"
    and "\<forall>r \<in> pending s db. unat (seq (hd rows)) \<le> unat (seq r)"
proof -
  show n: "n \<le> length rows" and pos: "0 < n"
    using contiguous_le [of "map seq rows"] contiguous_pos [of "map seq rows"] assms(3,4) by simp_all
  have "set rows \<subseteq> pending s db"
    using assms(2) set_take_subset [of k "pending_sorted s db"] by simp
  then have iv: "map unat (take n (map seq rows)) = [unat (map seq rows ! 0) ..< unat (map seq rows ! 0) + n]"
    unfolding assms(3) using pending_bound [OF assms(1)] by (intro contiguous_interval) auto
  have hd0: "map seq rows ! 0 = seq (hd rows)" using assms(4) by (simp add: hd_conv_nth)
  have eq: "map (\<lambda>r. unat (seq r)) (take n rows) = [unat (seq (hd rows)) ..< unat (seq (hd rows)) + n]"
    using iv hd0 by (simp add: take_map comp_def)
  moreover have "map (\<lambda>r. unat (seq r)) (take n rows) ! (n - 1) = unat (seq (rows ! (n - 1)))"
    using n pos by simp
  ultimately have last: "Suc (unat (seq (rows ! (n - 1)))) = unat (seq (hd rows)) + n"
    using pos by simp
  show "map (\<lambda>r. unat (seq r)) (take n rows) =
      [unat (seq (hd rows)) ..< Suc (unat (seq (rows ! (n - 1))))]"
    unfolding last by (rule eq)
  have hd: "hd rows = hd (pending_sorted s db)" and ne: "pending_sorted s db \<noteq> []"
    using assms(2,4) by (auto simp: hd_take)
  show "\<forall>r \<in> pending s db. unat (seq (hd rows)) \<le> unat (seq r)"
    using pending_strict [OF assms(1), of s] ne unfolding hd set_pending_sorted [symmetric]
    by (cases "pending_sorted s db") auto
qed

text \<open>The range cannot be extended: the row after it, if one was read, is not the next number.\<close>

lemma strict_between:
  assumes "sorted_wrt (<) (xs :: nat list)" "x \<in> set xs" "n < length xs" "0 < n" "x = Suc (xs ! (n - 1))"
  shows "xs ! n = x"
proof -
  obtain j where j: "j < length xs" "xs ! j = x" using assms(2) by (auto simp: in_set_conv_nth)
  have "xs ! (n - 1) < xs ! n"
    using assms by (intro sorted_wrt_nth_less [OF assms(1)]) simp_all
  moreover have "\<not> j \<le> n - 1"
  proof
    assume "j \<le> n - 1"
    then have "xs ! j \<le> xs ! (n - 1)"
      using sorted_wrt_nth_less [OF assms(1), of j "n - 1"] less_imp_diff_less [OF assms(3), of 1]
      by (cases "j = n - 1") auto
    then show False using assms(5) j(2) by simp
  qed
  then have "j \<noteq> n \<Longrightarrow> xs ! n < xs ! j"
    using j(1) by (intro sorted_wrt_nth_less [OF assms(1)]) simp_all
  ultimately show ?thesis using assms(5) j(2) by (cases "j = n") auto
qed

lemma pending_maximal:
  assumes wf: "db_wf db" and rows: "rows = sql_limit m (pending_sorted s db)"
    and n: "n = contiguous (map seq rows)" and ne: "rows \<noteq> []"
    and r: "r \<in> pending s db" "seq r = seq (rows ! (n - 1)) + 1"
  shows "int n = m"
proof -
  let ?ps = "pending_sorted s db" and ?key = "\<lambda>r. unat (seq r)"
  obtain k where k: "rows = take k ?ps" using rows sql_limit_take by blast
  note pre = pending_prefix_interval [OF wf k n ne]
  have sorted: "sorted_wrt (<) (map ?key ?ps)" by (rule pending_strict [OF wf])
  have "rows ! (n - 1) \<in> set rows" using pre(2,3) by simp
  then have "rows ! (n - 1) \<in> pending s db"
    using k set_take_subset [of k ?ps] by auto
  then have key: "?key r = Suc (?key (rows ! (n - 1)))"
    using r(2) pending_bound [OF wf, of "rows ! (n - 1)" s] by (simp add: unat_word_ariths)
  have "n - 1 < k" using pre(2,3) k by auto
  then have nth: "rows ! (n - 1) = ?ps ! (n - 1)" using k by simp
  have mem: "?key r \<in> set (map ?key ?ps)" using r(1) by simp
  have len: "n \<le> length ?ps" using pre(2) k by simp
  have next_key: "n < length ?ps \<Longrightarrow> map ?key ?ps ! n = ?key r"
    using strict_between [OF sorted mem, of n] key nth pre(3) len by simp
  show ?thesis
  proof (cases "n < length rows")
    case True
    then have lt: "n < length ?ps" and eq: "rows ! n = ?ps ! n" using k by simp_all
    from next_key [OF lt] lt eq have "unat (seq (rows ! n)) = unat (seq r)" by simp
    then have "seq (rows ! n) = seq (rows ! (n - 1)) + 1" using r(2) by (simp add: word_unat_eq_iff)
    moreover have "map seq rows ! contiguous (map seq rows) \<noteq> map seq rows ! (contiguous (map seq rows) - 1) + 1"
      using True by (intro contiguous_stop) (simp add: n)
    ultimately show ?thesis using True pre(2,3) by (simp add: n [symmetric])
  next
    case False
    with pre(2) have n_eq: "n = length rows" by simp
    have "rows \<noteq> ?ps"
    proof
      assume all: "rows = ?ps"
      obtain j where "j < length ?ps" "?ps ! j = r" using r(1) by (metis in_set_conv_nth set_pending_sorted)
      moreover from this have "j < n - 1 \<or> j = n - 1" using n_eq all by auto
      ultimately have "?key r \<le> ?key (?ps ! (n - 1))"
        using sorted_wrt_nth_less [OF sorted, of j "n - 1"] n_eq all pre(3) by (cases "j = n - 1") auto
      then show False using key nth by simp
    qed
    then show ?thesis using rows n_eq by (auto simp: sql_limit_def min_def split: if_splits)
  qed
qed

section \<open>Hashes in the order asked for\<close>

text \<open>The decoded hash of a row that has a well-formed one.\<close>

definition stored_hash :: "packet_row \<Rightarrow> bytes option" where
  "stored_hash r =
     (case packet_blake3 r of
        None \<Rightarrow> None
      | Some h \<Rightarrow> (case hex_decode h of Inl _ \<Rightarrow> None | Inr b \<Rightarrow> Some b))"

lemma hash_map_Inr:
  "hash_map rs = Inr m \<Longrightarrow> distinct (map pk_id rs) \<Longrightarrow>
     m i = (case find (\<lambda>r. pk_id r = i) rs of None \<Rightarrow> None | Some r \<Rightarrow> stored_hash r)"
proof (induction rs arbitrary: m)
  case (Cons r rs)
  from Cons.prems obtain m' where m': "hash_map rs = Inr m'"
    and m: "m = (case stored_hash r of None \<Rightarrow> m' | Some b \<Rightarrow> m'(pk_id r \<mapsto> b))"
    by (auto simp: stored_hash_def split: option.splits sum.splits)
  have IH: "m' i = (case find (\<lambda>r. pk_id r = i) rs of None \<Rightarrow> None | Some r \<Rightarrow> stored_hash r)"
    using Cons.IH [OF m'] Cons.prems(2) by simp
  have "pk_id r = i \<Longrightarrow> find (\<lambda>r. pk_id r = i) rs = None"
    using Cons.prems(2) by (auto simp: find_None_iff image_iff)
  then show ?case using IH by (auto simp: m split: option.splits)
qed simp

lemma find_filter_mem:
  "P x \<Longrightarrow> find (\<lambda>r. f r = x) (filter (\<lambda>r. P (f r)) rs) = find (\<lambda>r. f r = x) rs"
  by (induction rs) auto

lemma PacketHashes_stored:
  assumes "db_wf db" "PacketHashes qf rf rowIDs db = Inr hs"
  shows "hs = map (\<lambda>i. case find (\<lambda>r. pk_id r = i) (packets db) of
                      None \<Rightarrow> None | Some r \<Rightarrow> stored_hash r) rowIDs"
proof (cases "rowIDs = []")
  case False
  let ?rs = "filter (\<lambda>r. pk_id r \<in> set rowIDs) (packets db)"
  from False assms(2) obtain m where m: "hash_map ?rs = Inr m" "hs = map m rowIDs"
    by (auto simp: PacketHashes_def split: option.splits sum.splits)
  have "distinct (map pk_id (packets db))"
    using assms(1) by (auto simp: db_wf_def intro: ids_ok_distinct)
  then have "distinct (map pk_id ?rs)" by (rule distinct_map_filter)
  from hash_map_Inr [OF m(1) this] m(2) show ?thesis
    by (simp add: find_filter_mem [where f = pk_id and P = "\<lambda>i. i \<in> set rowIDs"])
qed (use assms(2) in \<open>simp add: PacketHashes_def\<close>)

section \<open>Properties\<close>

lemma PendingRange_rows:
  assumes "db_wf db" "PendingRange f early s m db = Inr (a, b, ids)" "ids \<noteq> []"
  obtains rows n where
    "rows = (case early of None \<Rightarrow> sql_limit m (pending_sorted s db) | Some k \<Rightarrow> take k (sql_limit m (pending_sorted s db)))"
    "n = contiguous (map seq rows)" "rows \<noteq> []" "b = seq (rows ! (n - 1))" "ids = map pk_id (take n rows)"
    "n \<le> length rows" "set (take n rows) \<subseteq> pending s db"
    "map (\<lambda>r. unat (seq r)) (take n rows) = [unat a ..< Suc (unat b)]"
    "\<forall>r \<in> pending s db. unat a \<le> unat (seq r)"
proof -
  let ?all = "sql_limit m (pending_sorted s db)"
  define rows where "rows = (case early of None \<Rightarrow> ?all | Some k \<Rightarrow> take k ?all)"
  define n where "n = contiguous (map seq rows)"
  have f: "f = None" using assms(2) by (cases f) (simp_all add: PendingRange_def)
  from assms(2,3) have ne: "rows \<noteq> []" and a: "a = seq (hd rows)" and b: "b = seq (rows ! (n - 1))"
    and ids: "ids = map pk_id (take n rows)"
    using contiguous_le [of "map seq rows"] contiguous_pos [of "map seq rows"]
    by (auto simp: f PendingRange_def pending_rows_prefix Let_def rows_def [symmetric] n_def [symmetric]
        take_map hd_conv_nth split: if_splits)
  obtain k0 where "?all = take k0 (pending_sorted s db)" using sql_limit_take by blast
  then have "rows = take (case early of None \<Rightarrow> k0 | Some j \<Rightarrow> min j k0) (pending_sorted s db)"
    by (simp add: rows_def split: option.split)
  then obtain k where k: "rows = take k (pending_sorted s db)" by blast
  note pre = pending_prefix_interval [OF assms(1) k n_def ne]
  have "set (take n rows) \<subseteq> pending s db"
    using set_take_subset [of n rows] set_take_subset [of k "pending_sorted s db"] k by auto
  then show ?thesis using that [OF rows_def n_def ne b ids pre(2)] pre(1,4) unfolding a b by blast
qed

lemma PendingRange_interval:
  assumes "db_wf db" "PendingRange f early s m db = Inr (a, b, ids)" "ids \<noteq> []"
  shows "\<exists>rs. rs \<noteq> [] \<and> set rs \<subseteq> pending s db \<and> map pk_id rs = ids \<and>
    map (\<lambda>r. unat (seq r)) rs = [unat a ..< Suc (unat b)]"
  by (rule PendingRange_rows [OF assms]) (use assms(3) in blast)

text \<open>C9: The pending range. The ids \<open>PendingRange\<close> returns are rows of the session that are
  still pending, with exactly the numbers from the first returned to the last, without a gap;
  no pending row has a smaller number; there are at most \<open>maxBatch\<close>; and when the result set
  was read to its end, the range is as long as possible: it has \<open>maxBatch\<close> rows, or the next
  number is not pending.\<close>

theorem pending_range:
  assumes "db_wf db" "PendingRange None early s m db = Inr (a, b, ids)" "ids \<noteq> []"
  shows "(\<exists>rs. set rs \<subseteq> pending s db \<and> map pk_id rs = ids \<and>
       map (\<lambda>r. unat (seq r)) rs = [unat a ..< Suc (unat b)]) \<and>
    (\<forall>r \<in> pending s db. unat a \<le> unat (seq r)) \<and>
    (0 \<le> m \<longrightarrow> int (length ids) \<le> m) \<and>
    (early = None \<longrightarrow> int (length ids) = m \<or> (\<forall>r \<in> pending s db. seq r \<noteq> b + 1))"
proof (rule PendingRange_rows [OF assms])
  fix rows n
  assume rows: "rows = (case early of None \<Rightarrow> sql_limit m (pending_sorted s db)
      | Some k \<Rightarrow> take k (sql_limit m (pending_sorted s db)))"
    and n: "n = contiguous (map seq rows)" and ne: "rows \<noteq> []" and b: "b = seq (rows ! (n - 1))"
    and ids: "ids = map pk_id (take n rows)" and len: "n \<le> length rows"
    and rest: "set (take n rows) \<subseteq> pending s db" "map (\<lambda>r. unat (seq r)) (take n rows) = [unat a ..< Suc (unat b)]"
    "\<forall>r \<in> pending s db. unat a \<le> unat (seq r)"
  have "0 \<le> m \<longrightarrow> int (length ids) \<le> m"
  proof
    assume "0 \<le> m"
    then have "length rows \<le> nat m" by (auto simp: rows sql_limit_def split: option.split)
    then show "int (length ids) \<le> m" using \<open>0 \<le> m\<close> by (simp add: ids)
  qed
  moreover have "early = None \<longrightarrow> int (length ids) = m \<or> (\<forall>r \<in> pending s db. seq r \<noteq> b + 1)"
    using pending_maximal [OF assms(1) _ n ne] len by (auto simp: ids b rows)
  ultimately show ?thesis using rest unfolding ids by blast
qed

text \<open>C26: \<open>PacketHashes\<close> answers in the order of the ids it is given: entry by entry the hash
  stored in the row of that id, nil where there is no such row or no hash.\<close>

theorem packet_hashes_order:
  assumes "db_wf db" "PacketHashes qf rf rowIDs db = Inr hs"
  shows "hs = map (\<lambda>i. case find (\<lambda>r. pk_id r = i) (packets db) of
                      None \<Rightarrow> None | Some r \<Rightarrow> stored_hash r) rowIDs"
  using PacketHashes_stored [OF assms] .

text \<open>A small ledger for the witnesses: two packets of one session.\<close>

definition sample_row :: "u64 \<Rightarrow> bytes option \<Rightarrow> bytes \<Rightarrow> PacketRow" where
  "sample_row n prev h = \<lparr>RowSessionID = ''s'', RowSeq = n, RowTickUTC = zero_time, RowTickMonoNs = 0,
     TelemetryJSON = [], RowAnomalyExtruder = False, RowAnomalyBed = False, RowAnomalyLoadCell = False,
     RowRecoveredFromCache = False, RowPrevPacketBLAKE3 = prev, RowPacketSHA256 = [],
     RowPacketBLAKE3 = Some h\<rparr>"

definition sample_db :: database where
  "sample_db = snd (WritePacket None (sample_row 1 (Some [1]) [2])
     (snd (WritePacket None (sample_row 0 None [1]) empty_database)))"

lemma sample_db_wf: "db_wf sample_db"
  by (simp add: sample_db_def db_wf_WritePacket)

lemma sample_db_packets:
  "packets sample_db = [packet_columns 1 (sample_row 0 None [1]), packet_columns 2 (sample_row 1 (Some [1]) [2])]"
  by (simp add: sample_db_def WritePacket_def Let_def empty_database_def sql_uint_ok_def seq_taken_def
      sample_row_def packet_columns_def)

lemma sample_pending: "PendingRange None None ''s'' 60 sample_db = Inr (0, 1, [1, 2])"
  by (simp add: PendingRange_def pending_rows_def sample_db_packets packet_columns_def sample_row_def
      sql_limit_def Let_def)

theorem pending_range_witness:
  "(\<exists>rs. set rs \<subseteq> pending ''s'' sample_db \<and> map pk_id rs = [1, 2] \<and>
       map (\<lambda>r. unat (seq r)) rs = [unat (0 :: u64) ..< Suc (unat (1 :: u64))]) \<and>
    2 \<notin> seq ` pending ''s'' sample_db"
  using pending_range [OF sample_db_wf sample_pending] by auto

theorem packet_hashes_order_witness:
  "PacketHashes None None [2, 1, 7] sample_db = Inr [Some [2], Some [1], None]"
proof -
  obtain hs where hs: "PacketHashes None None [2, 1, 7] sample_db = Inr hs"
    by (simp add: PacketHashes_def sample_db_packets packet_columns_def sample_row_def hexOrNil_def)
  from packet_hashes_order [OF sample_db_wf hs] have "hs = [Some [2], Some [1], None]"
    by (simp add: sample_db_packets packet_columns_def sample_row_def stored_hash_def hexOrNil_def)
  with hs show ?thesis by simp
qed

text \<open>C11: Every operation of the buffer keeps the database well formed: ids counting up,
  \<open>(session_id, seq)\<close> and \<open>(role, data)\<close> unique, references resolved, sequence numbers
  below \<open>2^63\<close>, a packet uploaded exactly when it has a segment. This holds whatever the
  arguments and whether or not the statements fail.\<close>

theorem buffer_invariant:
  assumes "db_wf db"
  shows "db_wf (snd (WritePacket f p db)) \<and> db_wf (snd (SetTPMSig f i sg q db)) \<and>
    db_wf (snd (RecordProvenanceFault f now s n m db)) \<and>
    db_wf (snd (WriteAttestationKey f now rl al dt db)) \<and>
    db_wf (snd (WriteQuote f now qr db)) \<and>
    db_wf (snd (WriteSegment fs now s n n' c root ids db)) \<and>
    (\<forall>o1 o2 path db'. Open o1 o2 path (Some db) = Inr db' \<longrightarrow> db_wf db')"
  using assms
  by (simp add: db_wf_WritePacket db_wf_SetTPMSig db_wf_RecordProvenanceFault
      db_wf_WriteAttestationKey db_wf_WriteQuote db_wf_WriteSegment) (metis db_wf_Open option.inject)

theorem buffer_invariant_witness:
  "db_wf (snd (SetTPMSig None 1 (Some [9]) 1 (snd (WriteQuote None zero_time
     \<lparr>QSessionID = ''s'', QSeq = 0, QPCRs = Some [10], QNonce = [1], QAttestBlob = [2], QSig = [3],
       QAKHandle = 5\<rparr> sample_db))))"
  by (rule buffer_invariant [THEN conjunct2, THEN conjunct1],
      rule buffer_invariant [THEN conjunct2, THEN conjunct2, THEN conjunct2, THEN conjunct2, THEN conjunct1],
      rule sample_db_wf)

text \<open>C10: \<open>WriteSegment\<close> is atomic: on any error the database is unchanged, otherwise the new
  segment row is there and exactly the listed packets changed, to uploaded and to that segment.\<close>

theorem segment_atomic:
  "case WriteSegment fs now s a b n root ids db of
     (Some e, db') \<Rightarrow> db' = db
   | (None, db') \<Rightarrow>
       segments db' = segments db @
         [\<lparr>sg_id = segments_last db + 1, sg_session_id = s, seq_start = a, seq_end = b,
           packet_count = n, merkle_root = root, sg_created_at = rfc3339nano now,
           sg_upload_state = ''pending''\<rparr>] \<and>
       packets db' = map (\<lambda>r. if pk_id r \<in> set ids
         then r\<lparr>upload_state := ''uploaded'', segment_id := Some (segments_last db + 1)\<rparr> else r)
         (packets db)"
  by (rule WriteSegment_cases [of fs now s a b n root ids db])
    (simp_all add: segment_written_def Let_def mark_def cong: map_cong)

text \<open>Registering attestation keys is idempotent and lossless: after a successful call the
  key is stored, a second call with the same role and bytes changes nothing, and keys stored
  before stay as they were.\<close>

lemma attestation_key_idempotent:
  assumes "WriteAttestationKey f now rl al dt db = (None, db1)"
  shows "(\<exists>k \<in> set (attestation_keys db1). role k = rl \<and> data k = dt) \<and>
    WriteAttestationKey None now' rl al' dt db1 = (None, db1) \<and>
    (\<exists>ks. attestation_keys db1 = attestation_keys db @ ks) \<and> packets db1 = packets db"
  using assms by (auto simp: WriteAttestationKey_def Let_def split: option.splits if_splits)

text \<open>C25: What is written is what the uploader reads. After a packet was inserted, and whatever
  then happens to its signature and to a segment transaction that may include it, asking for the
  hash of its row gives back the bytes that were written, through the hexadecimal text of the
  column.\<close>

theorem hash_roundtrip:
  assumes "db_wf db" "WritePacket f p db = (Inr i, db1)"
  shows "PacketHashes None None [i]
      (snd (WriteSegment fs now s a b n root ids (snd (SetTPMSig g i sg q db1)))) = Inr [RowPacketBLAKE3 p]"
proof -
  let ?db2 = "snd (SetTPMSig g i sg q db1)"
  let ?db3 = "snd (WriteSegment fs now s a b n root ids ?db2)"
  have rows: "packets db1 = packets db @ [packet_columns i p]" and i: "i = packets_last db + 1"
    using assms(2) by (auto simp: WritePacket_def Let_def split: option.splits if_splits)
  have old: "\<forall>r \<in> set (packets db). pk_id r \<noteq> i" using assms(1) i by (force simp: db_wf_def ids_ok_def)
  have 2: "\<exists>h. packets ?db2 = map h (packets db1) \<and> (\<forall>r. pk_id (h r) = pk_id r \<and> packet_blake3 (h r) = packet_blake3 r)"
    by (rule exI [of _ "if ?db2 = db1 then id else (\<lambda>r. if pk_id r = i then r\<lparr>tpm_sig := sg, quote_ref := Some q\<rparr> else r)"])
      (auto simp: SetTPMSig_def split: option.split)
  have 3: "\<exists>h. packets ?db3 = map h (packets ?db2) \<and> (\<forall>r. pk_id (h r) = pk_id r \<and> packet_blake3 (h r) = packet_blake3 r)"
  proof (rule WriteSegment_cases [of fs now s a b n root ids ?db2])
    fix e assume "WriteSegment fs now s a b n root ids ?db2 = (Some e, ?db2)"
    then show ?thesis by (intro exI [of _ id]) simp
  next
    assume "WriteSegment fs now s a b n root ids ?db2 = (None, segment_written now s a b n root ids ?db2)"
    then show ?thesis by (intro exI [of _ "mark (segments_last ?db2 + 1) (set ids)"]) (simp add: segment_written_def Let_def)
  qed
  obtain h where h: "packets ?db3 = map h (packets db1)" "\<And>r. pk_id (h r) = pk_id r" "\<And>r. packet_blake3 (h r) = packet_blake3 r"
    using 2 3 by (metis (no_types, lifting) comp_apply map_map)
  have "filter (\<lambda>r. pk_id r = i) (packets ?db3) = [h (packet_columns i p)]"
    using old by (simp add: h(1,2) rows filter_map comp_def) (simp add: packet_columns_def)
  moreover have "packet_blake3 (h (packet_columns i p)) = hexOrNil (RowPacketBLAKE3 p)" "pk_id (h (packet_columns i p)) = i"
    by (simp_all add: h(2,3) packet_columns_def)
  ultimately show ?thesis by (cases "RowPacketBLAKE3 p") (simp_all add: PacketHashes_def hexOrNil_def)
qed

theorem hash_roundtrip_witness:
  "PacketHashes None None [3]
     (snd (WriteSegment \<lparr>begin_fault = None, insert_fault = None, update_fault = (\<lambda>_. None), commit_fault = None\<rparr>
        zero_time ''s'' 0 2 3 [9] [1, 2, 3]
        (snd (SetTPMSig None 3 (Some [5]) 1 (snd (WritePacket None (sample_row 2 (Some [2]) [3]) sample_db)))))) =
   Inr [Some [3]]"
proof -
  obtain db1 where w: "WritePacket None (sample_row 2 (Some [2]) [3]) sample_db = (Inr 3, db1)"
    by (simp add: WritePacket_def Let_def sample_db_packets packet_columns_def sample_row_def sql_uint_ok_def
        seq_taken_def) (simp add: sample_db_def WritePacket_def Let_def empty_database_def sql_uint_ok_def
        seq_taken_def sample_row_def packet_columns_def)
  show ?thesis unfolding w snd_conv hash_roundtrip [OF sample_db_wf w] by (simp add: sample_row_def)
qed

end
