(* ===== verification/Custody_Chain.thy ===== *)
theory Custody_Chain
  imports Custody Hotbuffer_Props
begin

text \<open>
  The custody chain: whatever the packetizer receives and whatever fails, every session's packets
  are numbered without gaps and each names the hash of the one before. The packetizer is a client
  of the \<open>custody_ledger\<close> interface; its position in the chain is the invariant.
\<close>

section \<open>What the other statements leave alone\<close>

lemma chain_other [frame_simps]:
  "chain (snd (RecordProvenanceFault f now s n m db)) = chain db"
  "chain (snd (WriteQuote f now q db)) = chain db"
  "chain (snd (WriteAttestationKey f now rl al dt db)) = chain db"
  by (auto simp: chain_def fun_eq_iff RecordProvenanceFault_def WriteQuote_def
      WriteAttestationKey_def Let_def split: option.split)

lemma chain_map:
  assumes "\<And>r. session_id (g r) = session_id r" "\<And>r. seq (g r) = seq r"
    "\<And>r. prev_packet_blake3 (g r) = prev_packet_blake3 r" "\<And>r. packet_blake3 (g r) = packet_blake3 r"
  shows "chain (db\<lparr>packets := map g (packets db)\<rparr>) = chain db"
  by (simp add: chain_def fun_eq_iff filter_map comp_def assms)

lemma chain_SetTPMSig [frame_simps]: "chain (snd (SetTPMSig f i sig q db)) = chain db"
  by (auto simp: SetTPMSig_def intro!: chain_map split: option.split)

lemma chain_segment_written: "chain (segment_written now s a b n root ids db) = chain db"
proof -
  have "chain (segment_written now s a b n root ids db) =
      chain (db\<lparr>packets := map (mark (segments_last db + 1) (set ids)) (packets db)\<rparr>)"
    by (simp add: segment_written_def Let_def chain_def fun_eq_iff)
  also have "\<dots> = chain db" by (rule chain_map) simp_all
  finally show ?thesis .
qed

lemma chain_WriteSegment [frame_simps]:
  "chain (snd (WriteSegment fs now s a b n root ids db)) = chain db"
  by (rule WriteSegment_cases [of fs now s a b n root ids db]) (simp_all add: chain_segment_written)

section \<open>What the steps of a tick leave alone\<close>

lemma silence_step_frame [frame_simps]:
  "sessionID (fst (silence_step env p db)) = sessionID p"
  "pseq (fst (silence_step env p db)) = pseq p"
  "prevBlake3 (fst (silence_step env p db)) = prevBlake3 p"
  "policy (fst (silence_step env p db)) = policy p"
  "pstate (fst (silence_step env p db)) = pstate p"
  "pcfg (fst (silence_step env p db)) = pcfg p"
  "tpm (fst (silence_step env p db)) = tpm p"
  "sessionNonce (fst (silence_step env p db)) = sessionNonce p"
  "lastQuoteID (fst (silence_step env p db)) = lastQuoteID p"
  "lastQuoteAt (fst (silence_step env p db)) = lastQuoteAt p"
  "immediateQuote (fst (silence_step env p db)) = immediateQuote p"
  "quoteInterval (fst (silence_step env p db)) = quoteInterval p"
  by (simp_all add: silence_step_def Let_def)

lemma silence_step_packets [frame_simps]:
  "packets (snd (silence_step env p db)) = packets db"
  "packets_last (snd (silence_step env p db)) = packets_last db"
  "quotes (snd (silence_step env p db)) = quotes db"
  "quotes_last (snd (silence_step env p db)) = quotes_last db"
  "segments (snd (silence_step env p db)) = segments db"
  "segments_last (snd (silence_step env p db)) = segments_last db"
  by (simp_all add: silence_step_def RecordProvenanceFault_def Let_def split: option.split)

lemma quote_step_frame [frame_simps]:
  assumes "quote_step api env sha p db = (q, p', db')"
  shows "sessionID p' = sessionID p" "pseq p' = pseq p" "prevBlake3 p' = prevBlake3 p"
    "policy p' = policy p" "pstate p' = pstate p" "pcfg p' = pcfg p" "sessionNonce p' = sessionNonce p"
    "silentTicks p' = silentTicks p" "quoteInterval p' = quoteInterval p"
    "tpm p' = None \<longleftrightarrow> tpm p = None" "q = lastQuoteID p'"
    "packets db' = packets db" "packets_last db' = packets_last db"
  using assms by (auto simp: quote_step_def WriteQuote_def Let_def
      split: option.splits if_splits prod.splits sum.splits)

lemma sign_step_frame [frame_simps]:
  assumes "sign_step api canonical p = (sig, p')"
  shows "sessionID p' = sessionID p" "pseq p' = pseq p" "prevBlake3 p' = prevBlake3 p"
    "policy p' = policy p" "pstate p' = pstate p" "pcfg p' = pcfg p" "sessionNonce p' = sessionNonce p"
    "silentTicks p' = silentTicks p" "lastQuoteID p' = lastQuoteID p" "quoteInterval p' = quoteInterval p"
    "lastQuoteAt p' = lastQuoteAt p" "immediateQuote p' = immediateQuote p"
    "tpm p' = None \<longleftrightarrow> tpm p = None" "tpm p = None \<Longrightarrow> sig = None"
  using assms by (auto simp: sign_step_def split: option.splits prod.splits sum.splits)

lemma chain_packets: "packets db' = packets db \<Longrightarrow> chain db' = chain db"
  by (simp add: chain_def fun_eq_iff)

section \<open>The outcome of a sealed tick\<close>

text \<open>The row that a sealed tick tries to write, and what follows when it can or cannot: the
  position moves by one and the hash of the row is the new head, or the position stays.\<close>

lemma seal_tick_cases:
  obtains (ok) q p1 sig p2 db1 i db2 hash where
      "quote_step api env (sha256 canonical) p db = (q, p1, db1)"
      "sign_step api canonical p1 = (sig, p2)"
      "hash = computePacketBLAKE3 B (pseq p) (sessionID p) canonical sig (prevBlake3 p)"
      "WritePacket (te_packet_err env) (tick_row p env canonical decision (sha256 canonical) hash) db1
         = (Inr i, db2)"
      "seal_tick B api env decision canonical p db =
         (p2\<lparr>prevBlake3 := Some hash, pseq := pseq p + 1\<rparr>,
          case sig of None \<Rightarrow> db2
          | Some s \<Rightarrow> snd (SetTPMSig (te_sig_err env) i (Some s) q db2))"
  | (failed) q p1 sig p2 db1 e hash where
      "quote_step api env (sha256 canonical) p db = (q, p1, db1)"
      "sign_step api canonical p1 = (sig, p2)"
      "hash = computePacketBLAKE3 B (pseq p) (sessionID p) canonical sig (prevBlake3 p)"
      "WritePacket (te_packet_err env) (tick_row p env canonical decision (sha256 canonical) hash) db1
         = (Inl e, db1)"
      "seal_tick B api env decision canonical p db = (p2, db1)"
proof -
  obtain q p1 db1 where q: "quote_step api env (sha256 canonical) p db = (q, p1, db1)"
    by (metis prod_cases3)
  obtain sig p2 where s: "sign_step api canonical p1 = (sig, p2)" by fastforce
  define hash where "hash = computePacketBLAKE3 B (pseq p) (sessionID p) canonical sig (prevBlake3 p)"
  let ?row = "tick_row p env canonical decision (sha256 canonical) hash"
  have same: "tick_row p2 env canonical decision (sha256 canonical) hash = ?row"
    using quote_step_frame(1-3) [OF q] sign_step_frame(1-3) [OF s] by (simp add: tick_row_def)
  have eq: "seal_tick B api env decision canonical p db =
      (case WritePacket (te_packet_err env) ?row db1 of
         (Inl e, db2) \<Rightarrow> (p2, db2)
       | (Inr i, db2) \<Rightarrow>
           (p2\<lparr>prevBlake3 := Some hash, pseq := pseq p + 1\<rparr>,
            case sig of None \<Rightarrow> db2
            | Some s \<Rightarrow> snd (SetTPMSig (te_sig_err env) i (Some s) q db2)))"
    using quote_step_frame(1-3) [OF q] sign_step_frame(1-3) [OF s] same
    by (simp add: seal_tick_def q s hash_def Let_def split: prod.split sum.split)
  show ?thesis
  proof (cases "WritePacket (te_packet_err env) ?row db1")
    case (Pair r db2)
    show ?thesis
    proof (cases r)
      case (Inl e)
      then have "db2 = db1" using Pair ledger.write_error by blast
      then show ?thesis using failed [OF q s hash_def] Pair Inl eq by simp
    next
      case (Inr i)
      then show ?thesis using ok [OF q s hash_def] Pair eq by simp
    qed
  qed
qed

section \<open>The invariant\<close>

definition in_position :: "'d Packetizer \<Rightarrow> database \<Rightarrow> bool" where
  "in_position p db \<longleftrightarrow>
     (\<forall>s. gap_free (chain db s)) \<and>
     ledger.at_end db (sessionID p) (pseq p) (hexOrNil (prevBlake3 p))"

text \<open>It depends on the writer's position and the chains only.\<close>

lemma in_position_cong:
  "sessionID p' = sessionID p \<Longrightarrow> pseq p' = pseq p \<Longrightarrow> prevBlake3 p' = prevBlake3 p \<Longrightarrow>
     chain db' = chain db \<Longrightarrow> in_position p' db' = in_position p db"
  by (simp add: in_position_def ledger.at_end_def)

lemma hexOrNil_None [simp]: "hexOrNil None = None"
  and hexOrNil_Some [simp]: "hexOrNil (Some b) = Some (hex_encode b)"
  by (simp_all add: hexOrNil_def)

lemma in_position_startNewSession: "in_position p db \<Longrightarrow> in_position (startNewSession rnd p) db"
  by (simp add: in_position_def startNewSession_def ledger.at_end_start)

lemma in_position_apply_object: "in_position p db \<Longrightarrow> in_position (apply_object rnd obj raw p) db"
proof -
  assume inv: "in_position p db"
  have upd: "in_position (p\<lparr>pstate := st\<rparr>) db" for st
    using inv in_position_cong [of "p\<lparr>pstate := st\<rparr>" p] by simp
  have quote: "in_position p' db \<Longrightarrow> in_position (scheduleImmediateQuote p') db" for p' :: "'a Packetizer"
    using in_position_cong [of "scheduleImmediateQuote p'" p'] by (simp add: scheduleImmediateQuote_def)
  have edge: "in_position p' db \<Longrightarrow> in_position (detectLifecycleEdge rnd a b p') db" for a b and p' :: "'a Packetizer"
    by (simp add: detectLifecycleEdge_def Let_def quote in_position_startNewSession)
  show ?thesis
    by (simp add: apply_object_def Let_def upd edge inv split: prod.split bool.split)
qed

lemma in_position_applyDelta: "in_position p db \<Longrightarrow> in_position (applyDelta rnd d p) db"
proof -
  have "in_position p db \<Longrightarrow> in_position (apply_objects rnd ms p) db" for ms
    by (induction rnd ms p rule: apply_objects.induct) (simp_all add: in_position_apply_object)
  then show "in_position p db \<Longrightarrow> ?thesis" by (simp add: applyDelta_def)
qed

lemma in_position_seal_tick:
  assumes "in_position p db" "seal_tick B api env decision canonical p db = (p', db')"
  shows "in_position p' db'"
proof (rule seal_tick_cases [of api env canonical p db B decision])
  fix q p1 sig p2 db1 i db2 hash
  assume q: "quote_step api env (sha256 canonical) p db = (q, p1, db1)"
    and s: "sign_step api canonical p1 = (sig, p2)"
    and w: "WritePacket (te_packet_err env) (tick_row p env canonical decision (sha256 canonical) hash) db1
         = (Inr i, db2)"
    and eq: "seal_tick B api env decision canonical p db =
         (p2\<lparr>prevBlake3 := Some hash, pseq := pseq p + 1\<rparr>,
          case sig of None \<Rightarrow> db2 | Some s \<Rightarrow> snd (SetTPMSig (te_sig_err env) i (Some s) q db2))"
  let ?row = "tick_row p env canonical decision (sha256 canonical) hash"
  have "chain db1 = chain db" by (rule chain_packets [OF quote_step_frame(12) [OF q]])
  then have pos: "\<forall>s. gap_free (chain db1 s)"
    "ledger.at_end db1 (RowSessionID ?row) (RowSeq ?row) (link_prev (row_link ?row))"
    using assms(1)
    by (auto simp: in_position_def ledger.at_end_def tick_row_def row_link_def split: if_splits)
  have "(\<forall>s. gap_free (chain db2 s)) \<and>
      ledger.at_end db2 (RowSessionID ?row) (RowSeq ?row + 1) (link_hash (row_link ?row))"
    by (rule ledger.write_gap_free [OF pos _ w]) (simp add: row_link_def tick_row_def)
  moreover have "chain db' = chain db2"
    using eq assms(2) by (auto simp: frame_simps split: option.splits)
  ultimately show ?thesis
    using assms(2) eq quote_step_frame(1-3) [OF q] sign_step_frame(1-3) [OF s]
    by (auto simp: in_position_def ledger.at_end_def tick_row_def row_link_def)
next
  fix q p1 sig p2 db1 e hash
  assume q: "quote_step api env (sha256 canonical) p db = (q, p1, db1)"
    and s: "sign_step api canonical p1 = (sig, p2)"
    and eq: "seal_tick B api env decision canonical p db = (p2, db1)"
  then show ?thesis
    using assms quote_step_frame(1-3) [OF q] sign_step_frame(1-3) [OF s] in_position_cong [of p2 p db1 db]
      chain_packets [OF quote_step_frame(12) [OF q]] by simp
qed

text \<open>An active tick up to the packet: session, silence and policy.\<close>

definition prepare ::
  "tick_env \<Rightarrow> 'd Packetizer \<Rightarrow> database \<Rightarrow> 'd Packetizer \<times> database \<times> Decision option" where
  "prepare env p db =
     (let p1 = (if sessionID p = [] then startNewSession (te_rand env) p else p);
          (p2, db1) = silence_step env p1 db;
          (v, ev) = Evaluate (telemetry_map (pstate p)) (policy p2)
      in (p2\<lparr>policy := ev\<rparr>, db1, tick_decision v))"

lemma onTick_active:
  assumes "IsActive (pstate p)" "prepare env p db = (p1, db1, decision)"
  shows "onTick B api env p db =
     (case marshal_packet (build_packet p1 (pstate p) (te_tick env) (te_mono env) decision) of
        Inl e \<Rightarrow> (p1, db1)
      | Inr canonical \<Rightarrow> seal_tick B api env decision canonical p1 db1)"
  using assms by (auto simp: onTick_def prepare_def Let_def split: prod.splits)

lemma onTick_idle: "\<not> IsActive (pstate p) \<Longrightarrow> onTick B api env p db = (p, db)"
  by (simp add: onTick_def)

lemma prepare_frame:
  assumes "prepare env p db = (p1, db1, decision)"
  shows "pstate p1 = pstate p" "pcfg p1 = pcfg p" "tpm p1 = tpm p" "packets db1 = packets db"
    "quotes db1 = quotes db" "quotes_last db1 = quotes_last db" "packets_last db1 = packets_last db"
    "(sessionID p1, sessionNonce p1, pseq p1, prevBlake3 p1, lastQuoteID p1, lastQuoteAt p1) =
       (let q = if sessionID p = [] then startNewSession (te_rand env) p else p
        in (sessionID q, sessionNonce q, pseq q, prevBlake3 q, lastQuoteID q, lastQuoteAt q))"
proof -
  let ?q = "if sessionID p = [] then startNewSession (te_rand env) p else p"
  have eq: "\<exists>ev. p1 = fst (silence_step env ?q db)\<lparr>policy := ev\<rparr>" "db1 = snd (silence_step env ?q db)"
    using assms by (auto simp: prepare_def Let_def split: prod.splits if_splits)
  show "packets db1 = packets db" "quotes db1 = quotes db" "quotes_last db1 = quotes_last db"
    "packets_last db1 = packets_last db"
    using eq(2) silence_step_packets [of env ?q db] by metis+
  have "pstate ?q = pstate p" "pcfg ?q = pcfg p" "tpm ?q = tpm p" by (simp_all add: startNewSession_def)
  then show "pstate p1 = pstate p" "pcfg p1 = pcfg p" "tpm p1 = tpm p"
    using eq(1) by (auto simp: silence_step_frame simp del: if_split)
  show "(sessionID p1, sessionNonce p1, pseq p1, prevBlake3 p1, lastQuoteID p1, lastQuoteAt p1) =
       (let q = ?q in (sessionID q, sessionNonce q, pseq q, prevBlake3 q, lastQuoteID q, lastQuoteAt q))"
    using eq(1) by (auto simp: silence_step_frame Let_def)
qed

lemma in_position_prepare:
  assumes "in_position p db" "prepare env p db = (p1, db1, decision)"
  shows "in_position p1 db1"
proof -
  let ?q = "if sessionID p = [] then startNewSession (te_rand env) p else p"
  have "in_position ?q db" using assms(1) by (simp add: in_position_startNewSession)
  moreover have "sessionID p1 = sessionID ?q" "pseq p1 = pseq ?q" "prevBlake3 p1 = prevBlake3 ?q"
    using prepare_frame(8) [OF assms(2)] by (simp_all add: Let_def del: if_split)
  ultimately show ?thesis
    using in_position_cong [of p1 ?q db1 db] chain_packets [OF prepare_frame(4) [OF assms(2)]] by blast
qed

lemma in_position_onTick:
  assumes "in_position p db" "onTick B api env p db = (p', db')"
  shows "in_position p' db'"
proof (cases "IsActive (pstate p)")
  case True
  obtain p1 db1 decision where pr: "prepare env p db = (p1, db1, decision)" by (metis prod_cases3)
  from in_position_prepare [OF assms(1) pr] assms(2) in_position_seal_tick [of p1 db1]
  show ?thesis by (auto simp: onTick_active [OF True pr] split: sum.splits)
next
  case False
  then show ?thesis using assms by (simp add: onTick_idle)
qed

lemma in_position_run_loop:
  "in_position p db \<Longrightarrow> run_loop B api es p db = (p', db') \<Longrightarrow> in_position p' db'"
proof (induction B api es p db rule: run_loop.induct)
  case (4 B api rnd d es p db)
  have "in_position ((applyDelta rnd d p)\<lparr>silentTicks := 0\<rparr>) db"
    using in_position_applyDelta [OF "4.prems"(1), of rnd d]
      in_position_cong [of "(applyDelta rnd d p)\<lparr>silentTicks := 0\<rparr>" "applyDelta rnd d p" db db] by simp
  then show ?case using 4 by simp
next
  case (5 B api env es p db)
  then show ?case using in_position_onTick [OF "5.prems"(1)] by (auto split: prod.splits)
qed auto

lemma in_position_NewPacketizer:
  "(\<forall>s. gap_free (chain db s)) \<Longrightarrow> in_position (NewPacketizer cfg t) db"
  by (simp add: in_position_def NewPacketizer_def ledger.at_end_start)

end
