(* ===== verification/Custody_Props.thy ===== *)
theory Custody_Props
  imports Custody_Chain
begin

text \<open>
  What the packetizer promises beyond the chain's shape: every active tick writes a packet whatever
  the TPM does, deltas are merged in any order and touch only what they name, sessions
  follow the print state, silence is recorded, quotes follow their schedule.
\<close>

section \<open>Decoding into structs\<close>

lemma unm_members_inv:
  assumes "\<And>f j x. P x \<Longrightarrow> P (snd (upd f j x))" "P x"
  shows "P (snd (unm_members names upd ms x))"
  using assms(2)
proof (induction ms arbitrary: x)
  case (Cons m ms)
  obtain k v where m: "m = (k, v)" by fastforce
  show ?case
  proof (cases "select_field names k")
    case (Some f)
    obtain ok y where u: "upd f v x = (ok, y)" by fastforce
    then have "P y" using assms(1) [OF Cons.prems, of f v] by simp
    then show ?thesis using Cons.IH m Some u by (simp add: split: prod.split) (metis snd_conv)
  qed (use Cons m in simp)
qed simp

lemma unm_struct_inv:
  "(\<And>f j x. P x \<Longrightarrow> P (snd (upd f j x))) \<Longrightarrow> P x \<Longrightarrow> P (snd (unm_struct names upd j x))"
  by (auto simp: unm_struct_def intro: unm_members_inv split: json.split)

text \<open>A field that no member of the object selects keeps its value.\<close>

lemma unm_struct_absent:
  assumes "\<And>g j x. g \<noteq> f \<Longrightarrow> get (snd (upd g j x)) = get x"
    and "\<forall>(k, v) \<in> set ms. select_field names k \<noteq> Some f"
  shows "get (snd (unm_struct names upd (JObj ms) x)) = get x"
proof -
  have "\<forall>(k, v) \<in> set ms. select_field names k \<noteq> Some f \<Longrightarrow>
      get (snd (unm_members names upd ms x)) = get x" for ms x
  proof (induction ms arbitrary: x)
    case (Cons m ms)
    obtain k v where m: "m = (k, v)" by fastforce
    show ?case
    proof (cases "select_field names k")
      case (Some g)
      obtain ok y where u: "upd g v x = (ok, y)" by fastforce
      have "get y = get x" using assms(1) [of g v x] Cons.prems m Some u by auto
      then show ?thesis using Cons m Some u by (auto split: prod.split) (metis snd_conv)
    qed (use Cons m in auto)
  qed simp
  with assms(2) show ?thesis by (simp add: unm_struct_def)
qed

section \<open>Decoded numbers are finite\<close>

lemma parse_float_finite: "parse_float s = Some x \<Longrightarrow> is_finite x"
  using inf_ord_less by (auto simp: parse_float_def Let_def is_finite_def split: if_splits)

lemma unm_float_finite: "is_finite x \<Longrightarrow> is_finite (snd (unm_float j x))"
  by (auto simp: unm_float_def parse_float_finite split: json.split option.split)

lemma unm_elems_inv:
  "(\<And>j x. P x \<Longrightarrow> P (snd (dec j x))) \<Longrightarrow> P z \<Longrightarrow> list_all P old \<Longrightarrow>
     list_all P (snd (unm_elems dec z js old))"
proof (induction js arbitrary: old)
  case (Cons j js)
  have "P (case old of [] \<Rightarrow> z | o1 # _ \<Rightarrow> o1)" "list_all P (tl old)"
    using Cons.prems by (auto split: list.split) (cases old; simp)
  then show ?case using Cons by (auto split: prod.split) (metis snd_conv)+
qed simp

lemma unm_slice_inv:
  assumes "\<And>j x. P x \<Longrightarrow> P (snd (dec j x))" "P z" "list_all P (slice_backing old)"
  shows "list_all P (slice_backing (snd (unm_slice dec z j old)))"
proof -
  have drop: "list_all P (drop n (slice_backing old))" for n
    using assms(3) by (auto simp: list_all_iff dest: in_set_dropD)
  show ?thesis
    using unm_elems_inv [of P dec z "slice_backing old", OF assms] assms(3) drop
    by (auto simp: unm_slice_def case_prod_beta simp del: unm_elems.simps split: json.split list.split)
qed

definition state_finite :: "PrinterState \<Rightarrow> bool" where
  "state_finite st \<longleftrightarrow>
     is_finite (ExTemperature (Extruder st)) \<and> is_finite (ExTarget (Extruder st)) \<and>
     is_finite (ExPower (Extruder st)) \<and> is_finite (BedTemperature (HeaterBed st)) \<and>
     is_finite (BedTarget (HeaterBed st)) \<and> is_finite (BedPower (HeaterBed st)) \<and>
     is_finite (LiveVelocity (MotionReport st)) \<and> is_finite (LiveExtruderVelocity (MotionReport st)) \<and>
     list_all is_finite (slice_backing (LivePosition (MotionReport st))) \<and>
     is_finite (FilamentUsed (PrintStats st)) \<and> is_finite (PrintDuration (PrintStats st)) \<and>
     is_finite (ChamberTempC st)"

lemma is_finite_0 [simp]: "is_finite 0"
  by (simp add: is_finite_def f_ord_def inf_ord_def)

lemma state_finite_zero [simp]: "state_finite zero_state"
  by (simp add: state_finite_def zero_state_def)

lemma pstate_lifecycle [simp]: "pstate (detectLifecycleEdge rnd a b p) = pstate p"
  by (simp add: detectLifecycleEdge_def Let_def startNewSession_def scheduleImmediateQuote_def)

lemma unm_extruder_finite:
  "is_finite (ExTemperature x) \<and> is_finite (ExTarget x) \<and> is_finite (ExPower x) \<Longrightarrow>
     (\<lambda>x. is_finite (ExTemperature x) \<and> is_finite (ExTarget x) \<and> is_finite (ExPower x))
       (snd (unm_extruder j x))"
  unfolding unm_extruder_def
  by (rule unm_struct_inv)
    (auto simp: set_extruder_def split: prod.split, (metis snd_conv unm_float_finite)+)

lemma unm_heater_bed_finite:
  "is_finite (BedTemperature x) \<and> is_finite (BedTarget x) \<and> is_finite (BedPower x) \<Longrightarrow>
     (\<lambda>x. is_finite (BedTemperature x) \<and> is_finite (BedTarget x) \<and> is_finite (BedPower x))
       (snd (unm_heater_bed j x))"
  unfolding unm_heater_bed_def
  by (rule unm_struct_inv)
    (auto simp: set_heater_bed_def split: prod.split, (metis snd_conv unm_float_finite)+)

lemma unm_motion_finite:
  "is_finite (LiveVelocity x) \<and> is_finite (LiveExtruderVelocity x) \<and>
     list_all is_finite (slice_backing (LivePosition x)) \<Longrightarrow>
   (\<lambda>x. is_finite (LiveVelocity x) \<and> is_finite (LiveExtruderVelocity x) \<and>
     list_all is_finite (slice_backing (LivePosition x))) (snd (unm_motion j x))"
proof -
  have slice: "list_all is_finite (slice_backing old) \<Longrightarrow> unm_slice unm_float 0 j old = (ok, y) \<Longrightarrow>
      list_all is_finite (slice_backing y)" for j old ok y
    using unm_slice_inv [of is_finite unm_float 0 old j] unm_float_finite by simp
  show "is_finite (LiveVelocity x) \<and> is_finite (LiveExtruderVelocity x) \<and>
     list_all is_finite (slice_backing (LivePosition x)) \<Longrightarrow> ?thesis"
    unfolding unm_motion_def
    by (rule unm_struct_inv)
      (auto simp: set_motion_def split: prod.split intro: slice, (metis snd_conv unm_float_finite)+)
qed

lemma unm_print_stats_finite:
  "is_finite (FilamentUsed x) \<and> is_finite (PrintDuration x) \<Longrightarrow>
     (\<lambda>x. is_finite (FilamentUsed x) \<and> is_finite (PrintDuration x)) (snd (unm_print_stats j x))"
  unfolding unm_print_stats_def
  by (rule unm_struct_inv)
    (auto simp: set_print_stats_def split: prod.split, (metis snd_conv unm_float_finite)+)

lemma unm_chamber_finite: "is_finite (snd (unm_chamber j))"
  unfolding unm_chamber_def
  by (rule unm_struct_inv) (simp_all add: unm_float_finite)

lemma state_finite_apply_object:
  "state_finite (pstate p) \<Longrightarrow> state_finite (pstate (apply_object rnd obj raw p))"
  using unm_extruder_finite [of "Extruder (pstate p)" raw]
    unm_heater_bed_finite [of "HeaterBed (pstate p)" raw]
    unm_motion_finite [of "MotionReport (pstate p)" raw]
    unm_print_stats_finite [of "PrintStats (pstate p)" raw] unm_chamber_finite [of raw]
  by (auto simp: state_finite_def apply_object_def Let_def split: prod.split bool.split)

lemma state_finite_applyDelta:
  "state_finite (pstate p) \<Longrightarrow> state_finite (pstate (applyDelta rnd d p))"
proof -
  have "state_finite (pstate p) \<Longrightarrow> state_finite (pstate (apply_objects rnd ms p))" for ms
    by (induction rnd ms p rule: apply_objects.induct) (simp_all add: state_finite_apply_object)
  then show "state_finite (pstate p) \<Longrightarrow> ?thesis" by (simp add: applyDelta_def)
qed

lemma seal_tick_frame:
  assumes "seal_tick B api env decision canonical p db = (p', db')"
  shows "pstate p' = pstate p" "pcfg p' = pcfg p" "policy p' = policy p" "sessionID p' = sessionID p"
    "sessionNonce p' = sessionNonce p" "silentTicks p' = silentTicks p"
    "tpm p' = None \<longleftrightarrow> tpm p = None"
  by (rule seal_tick_cases [of api env canonical p db B decision];
      use assms in \<open>simp add: quote_step_frame sign_step_frame; metis\<close>)+

lemma pstate_onTick: "onTick B api env p db = (p', db') \<Longrightarrow> pstate p' = pstate p"
proof (cases "IsActive (pstate p)")
  case True
  obtain p1 db1 decision where pr: "prepare env p db = (p1, db1, decision)" by (metis prod_cases3)
  assume "onTick B api env p db = (p', db')"
  then show ?thesis using prepare_frame(1) [OF pr] seal_tick_frame(1)
    by (fastforce simp: onTick_active [OF True pr] split: sum.splits)
qed (simp add: onTick_idle)

lemma state_finite_run_loop:
  "state_finite (pstate p) \<Longrightarrow> run_loop B api es p db = (p', db') \<Longrightarrow> state_finite (pstate p')"
proof (induction B api es p db rule: run_loop.induct)
  case (4 B api rnd d es p db)
  then show ?case using state_finite_applyDelta [of p rnd d] by simp
next
  case (5 B api env es p db)
  then show ?case using pstate_onTick [of B api env p db] by (auto split: prod.splits)
qed auto

section \<open>A finite state marshals\<close>

lemma all_some_not_None: "list_all (\<lambda>x. x \<noteq> None) xs \<Longrightarrow> \<exists>ys. all_some xs = Some ys"
proof (induction xs)
  case (Cons x xs)
  then show ?case by (cases x) auto
qed simp

lemma float_json_finite: "is_finite x \<Longrightarrow> \<exists>j. float_json x = Some j"
  by (simp add: float_json_def fmt_json_def)

lemma float_member_finite: "is_finite x \<Longrightarrow> \<exists>m. float_member k x = Some m"
  using float_json_finite [of x] by (auto simp: float_member_def)

lemma slice_json_finite: "list_all is_finite (slice_backing s) \<Longrightarrow> \<exists>j. slice_json s = Some j"
proof (cases s)
  case (Slice v t)
  assume "list_all is_finite (slice_backing s)"
  then have "\<exists>ys. all_some (map float_json v) = Some ys"
    by (intro all_some_not_None) (use Slice float_json_finite in \<open>fastforce simp: list_all_iff\<close>)
  then show ?thesis by (auto simp: slice_json_def Slice)
qed (simp add: slice_json_def)

lemma marshal_finite:
  assumes "state_finite st" "0 \<le> utc_year tick" "utc_year tick \<le> 9999"
  shows "\<exists>c. marshal_packet (build_packet p st tick monoNs decision) = Inr c"
proof -
  let ?pkt = "build_packet p st tick monoNs decision"
  have "list_all (\<lambda>x. x \<noteq> None) (packet_members ?pkt)"
    using assms float_member_finite slice_json_finite [of "LivePosition (MotionReport st)"]
    by (auto simp: packet_members_def build_packet_def state_finite_def time_json_def)
  then obtain ms where "all_some (packet_members ?pkt) = Some ms" using all_some_not_None by blast
  then show ?thesis by (simp add: marshal_packet_def packet_json_def)
qed

section \<open>Every active tick writes\<close>

lemma seq_taken_chain: "seq_taken s n db \<longleftrightarrow> (\<exists>l \<in> set (chain db s). link_seq l = n)"
  by (auto simp: seq_taken_def chain_def)

lemma next_seq_free: "gap_free (chain db s) \<Longrightarrow> length (chain db s) = unat n \<Longrightarrow> \<not> seq_taken s n db"
proof
  assume gf: "gap_free (chain db s)" and len: "length (chain db s) = unat n" and "seq_taken s n db"
  then obtain i where i: "i < length (chain db s)" "link_seq (chain db s ! i) = n"
    by (auto simp: seq_taken_chain in_set_conv_nth)
  moreover from gf i(1) have "unat (link_seq (chain db s ! i)) = i" unfolding gap_free_def by blast
  ultimately show False using len by simp
qed

lemma WritePacket_ok:
  "\<not> seq_taken (RowSessionID r) (RowSeq r) db \<Longrightarrow> unat (RowSeq r) < 2 ^ 63 \<Longrightarrow>
     WritePacket None r db = (Inr (packets_last db + 1),
       db\<lparr>packets := packets db @ [packet_columns (packets_last db + 1) r],
          packets_last := packets_last db + 1\<rparr>)"
  by (simp add: WritePacket_def sql_uint_ok_def Let_def)

text \<open>The columns of a row that the signature's backfill does not touch.\<close>

definition row_content :: "packet_row \<Rightarrow> string \<times> u64 \<times> string \<times> string \<times> string option \<times> string option" where
  "row_content r = (session_id r, seq r, telemetry_json r, packet_sha256 r, prev_packet_blake3 r,
     packet_blake3 r)"

lemma SetTPMSig_row_content:
  "map row_content (packets (snd (SetTPMSig f i sig q db))) = map row_content (packets db)"
  by (auto simp: SetTPMSig_def row_content_def split: option.split)

lemma db_wf_silence_step: "db_wf db \<Longrightarrow> db_wf (snd (silence_step env p db))"
  by (simp add: silence_step_def Let_def db_wf_RecordProvenanceFault)

lemma db_wf_quote_step: "db_wf db \<Longrightarrow> quote_step api env sha p db = (q, p', db') \<Longrightarrow> db_wf db'"
proof -
  assume wf: "db_wf db" and q: "quote_step api env sha p db = (q, p', db')"
  have "WriteQuote f now row db = (r, d) \<Longrightarrow> db_wf d" for f now row r d
    using db_wf_WriteQuote [OF wf, of f now row] by simp
  with wf q show ?thesis
    by (auto simp: quote_step_def split: option.splits if_splits prod.splits sum.splits)
qed

lemma db_wf_prepare: "db_wf db \<Longrightarrow> prepare env p db = (p1, db1, decision) \<Longrightarrow> db_wf db1"
proof -
  assume wf: "db_wf db" and pr: "prepare env p db = (p1, db1, decision)"
  have "db1 = snd (silence_step env (if sessionID p = [] then startNewSession (te_rand env) p else p) db)"
    using pr by (auto simp: prepare_def Let_def split: prod.splits if_splits)
  with wf show ?thesis by (simp add: db_wf_silence_step)
qed

text \<open>The signature of a tick: none without a TPM; otherwise what \<open>SignPacket\<close> answers for the
  canonical text, none when it fails, on the worker as it was or as the quote of this tick, with
  its nonce, left it.\<close>

definition tick_signature ::
  "'d tpm_api \<Rightarrow> bytes \<Rightarrow> bytes \<Rightarrow> 'd Worker option \<Rightarrow> bytes option \<Rightarrow> bool" where
  "tick_signature api qn canonical t sig \<longleftrightarrow>
     (case t of
        None \<Rightarrow> sig = None
      | Some w0 \<Rightarrow> \<exists>w \<in> {w0, snd (Quote api qn w0)}.
          sig = (case fst (SignPacket api canonical w) of Inl e \<Rightarrow> None | Inr x \<Rightarrow> Some x))"

lemma quote_step_worker:
  assumes "quote_step api env sha p db = (q, p1, db1)"
  shows "tpm p1 = tpm p \<or> (\<exists>w0. tpm p = Some w0 \<and>
    tpm p1 = Some (snd (Quote api (DeriveQuoteNonce (sessionNonce p) sha (prevBlake3 p) (pseq p)) w0)))"
  using assms by (auto simp: quote_step_def split: option.splits if_splits prod.splits sum.splits)

lemma tick_signature_steps:
  assumes q: "quote_step api env sha p db = (q, p1, db1)" and s: "sign_step api canonical p1 = (sig, p2)"
  shows "tick_signature api (DeriveQuoteNonce (sessionNonce p) sha (prevBlake3 p) (pseq p)) canonical (tpm p) sig"
proof (cases "tpm p1")
  case None
  then show ?thesis using quote_step_frame(10) [OF q] sign_step_frame(14) [OF s] by (simp add: tick_signature_def)
next
  case (Some w)
  then have sig: "sig = (case fst (SignPacket api canonical w) of Inl e \<Rightarrow> None | Inr x \<Rightarrow> Some x)"
    using s by (auto simp: sign_step_def split: prod.splits sum.splits)
  obtain w0 where w0: "tpm p = Some w0" using Some quote_step_frame(10) [OF q] by auto
  with Some quote_step_worker [OF q] show ?thesis by (auto simp: tick_signature_def sig)
qed

text \<open>The backfill of a signature changes the row of its id at most, and in two columns.\<close>

lemma SetTPMSig_last:
  assumes "packets db = rows @ [r]" "pk_id r = i" "\<forall>x \<in> set rows. pk_id x \<noteq> i"
  shows "packets (snd (SetTPMSig f i sig q db)) =
    rows @ [if f = None \<and> (\<exists>qt \<in> set (quotes db). qt_id qt = q) then r\<lparr>tpm_sig := sig, quote_ref := Some q\<rparr> else r]"
proof -
  have "map (\<lambda>x. if pk_id x = i then x\<lparr>tpm_sig := sig, quote_ref := Some q\<rparr> else x) rows = rows"
    by (rule map_idI) (use assms(3) in auto)
  then show ?thesis using assms(1,2) by (auto simp: SetTPMSig_def split: option.split)
qed

lemma SetTPMSig_frame [frame_simps]:
  "quotes (snd (SetTPMSig f i sig q db)) = quotes db" "segments (snd (SetTPMSig f i sig q db)) = segments db"
  by (simp_all add: SetTPMSig_def split: option.split)

text \<open>What a sealed tick leaves in the tables: nothing in \<open>packets\<close>, or exactly one row at the end.\<close>

lemma seal_tick_outcome:
  assumes wf: "db_wf db" and seal: "seal_tick B api env decision canonical p db = (p', db')"
  obtains (written) sig hash row sg k where
      "tick_signature api (DeriveQuoteNonce (sessionNonce p) (sha256 canonical) (prevBlake3 p) (pseq p)) canonical (tpm p) sig"
      "hash = computePacketBLAKE3 B (pseq p) (sessionID p) canonical sig (prevBlake3 p)"
      "row = packet_columns (packets_last db + 1) (tick_row p env canonical decision (sha256 canonical) hash)"
      "(sg, k) = (if sig \<noteq> None \<and> te_sig_err env = None \<and> (\<exists>qt \<in> set (quotes db'). qt_id qt = lastQuoteID p')
         then (sig, Some (lastQuoteID p')) else (None, None))"
      "packets db' = packets db @ [row\<lparr>tpm_sig := sg, quote_ref := k\<rparr>]"
      "pseq p' = pseq p + 1" "prevBlake3 p' = Some hash"
      "db_wf db'" "sessionID p' = sessionID p" "sessionNonce p' = sessionNonce p" "tpm p' = None \<longleftrightarrow> tpm p = None"
  | (skipped) e hash where
      "WritePacket (te_packet_err env) (tick_row p env canonical decision (sha256 canonical) hash) db = (Inl e, db)"
      "packets db' = packets db" "db_wf db'" "sessionID p' = sessionID p" "tpm p' = None \<longleftrightarrow> tpm p = None"
proof (rule seal_tick_cases [of api env canonical p db B decision])
  fix q p1 sig p2 db1 i db2 hash
  assume q: "quote_step api env (sha256 canonical) p db = (q, p1, db1)"
    and s: "sign_step api canonical p1 = (sig, p2)"
    and h: "hash = computePacketBLAKE3 B (pseq p) (sessionID p) canonical sig (prevBlake3 p)"
    and w: "WritePacket (te_packet_err env) (tick_row p env canonical decision (sha256 canonical) hash) db1
         = (Inr i, db2)"
    and eq: "seal_tick B api env decision canonical p db =
         (p2\<lparr>prevBlake3 := Some hash, pseq := pseq p + 1\<rparr>,
          case sig of None \<Rightarrow> db2 | Some s \<Rightarrow> snd (SetTPMSig (te_sig_err env) i (Some s) q db2))"
  let ?row = "packet_columns i (tick_row p env canonical decision (sha256 canonical) hash)"
  let ?kept = "sig \<noteq> None \<and> te_sig_err env = None \<and> (\<exists>qt \<in> set (quotes db'). qt_id qt = lastQuoteID p')"
  have p': "p' = p2\<lparr>prevBlake3 := Some hash, pseq := pseq p + 1\<rparr>"
    and db': "db' = (case sig of None \<Rightarrow> db2 | Some s \<Rightarrow> snd (SetTPMSig (te_sig_err env) i (Some s) q db2))"
    using eq seal by simp_all
  have wf1: "db_wf db1" by (rule db_wf_quote_step [OF wf q])
  have wf2: "db_wf db2" using db_wf_WritePacket [OF wf1] w by (metis snd_conv)
  have wf': "db_wf db'" unfolding db' using wf2 by (auto simp: db_wf_SetTPMSig split: option.splits)
  have i: "i = packets_last db + 1" and rows: "packets db2 = packets db @ [?row]"
    using w quote_step_frame(12,13) [OF q] by (auto simp: WritePacket_def Let_def split: option.splits if_splits)
  have old: "\<forall>r \<in> set (packets db). pk_id r \<noteq> i" using wf i by (force simp: db_wf_def ids_ok_def)
  have last: "lastQuoteID p' = q" using p' sign_step_frame(9) [OF s] quote_step_frame(11) [OF q] by simp
  have row: "pk_id ?row = i" "?row\<lparr>tpm_sig := None, quote_ref := None\<rparr> = ?row" by (simp_all add: packet_columns_def)
  have quotes: "quotes db' = quotes db2" unfolding db' by (simp add: SetTPMSig_frame split: option.split)
  have sealed: "packets db' = packets db @ [?row\<lparr>tpm_sig := fst (if ?kept then (sig, Some (lastQuoteID p')) else (None, None)),
      quote_ref := snd (if ?kept then (sig, Some (lastQuoteID p')) else (None, None))\<rparr>]"
  proof (cases sig)
    case None
    then show ?thesis using rows row(2) by (simp add: db')
  next
    case (Some sg)
    then show ?thesis using SetTPMSig_last [OF rows row(1) old, of "te_sig_err env" "Some sg" q] row(2) quotes last
      by (auto simp: db')
  qed
  show ?thesis
  proof (rule written)
    show "packets db' = packets db @ [?row\<lparr>tpm_sig := fst (if ?kept then (sig, Some (lastQuoteID p')) else (None, None)),
      quote_ref := snd (if ?kept then (sig, Some (lastQuoteID p')) else (None, None))\<rparr>]" by (rule sealed)
    show "?row = packet_columns (packets_last db + 1) (tick_row p env canonical decision (sha256 canonical) hash)"
      by (simp add: i)
  qed (use tick_signature_steps [OF q s] h wf' p' sign_step_frame(1,7,13) [OF s] quote_step_frame(1,7,10) [OF q] in simp_all)
next
  fix q p1 sig p2 db1 e hash
  assume q: "quote_step api env (sha256 canonical) p db = (q, p1, db1)"
    and s: "sign_step api canonical p1 = (sig, p2)"
    and w: "WritePacket (te_packet_err env) (tick_row p env canonical decision (sha256 canonical) hash) db1
         = (Inl e, db1)"
    and eq: "seal_tick B api env decision canonical p db = (p2, db1)"
  let ?r = "tick_row p env canonical decision (sha256 canonical) hash"
  have "seq_taken (RowSessionID ?r) (RowSeq ?r) db1 = seq_taken (RowSessionID ?r) (RowSeq ?r) db"
    using quote_step_frame(12) [OF q] by (simp add: seq_taken_def)
  then have "WritePacket (te_packet_err env) ?r db = (Inl e, db)"
    using w by (auto simp: WritePacket_def Let_def split: option.splits if_splits)
  then show ?thesis
    by (rule skipped)
      (use eq seal db_wf_quote_step [OF wf q] quote_step_frame(1,10,12) [OF q] sign_step_frame(1,13) [OF s] in simp_all)
qed

lemma db_wf_onTick: "db_wf db \<Longrightarrow> onTick B api env p db = (p', db') \<Longrightarrow> db_wf db'"
proof (cases "IsActive (pstate p)")
  case True
  assume wf: "db_wf db" and tick: "onTick B api env p db = (p', db')"
  obtain p1 db1 decision where pr: "prepare env p db = (p1, db1, decision)" by (metis prod_cases3)
  have wf1: "db_wf db1" by (rule db_wf_prepare [OF wf pr])
  show ?thesis
  proof (cases "marshal_packet (build_packet p1 (pstate p) (te_tick env) (te_mono env) decision)")
    case (Inl e)
    then show ?thesis using tick wf1 onTick_active [OF True pr, of B api] by simp
  next
    case (Inr c)
    then have "seal_tick B api env decision c p1 db1 = (p', db')"
      using tick onTick_active [OF True pr, of B api] by simp
    then show ?thesis by (rule seal_tick_outcome [OF wf1])
  qed
qed (simp add: onTick_idle)

lemma db_wf_run_loop: "db_wf db \<Longrightarrow> run_loop B api es p db = (p', db') \<Longrightarrow> db_wf db'"
proof (induction B api es p db rule: run_loop.induct)
  case (5 B api env es p db)
  obtain p1 db1 where t: "onTick B api env p db = (p1, db1)" by fastforce
  have "run_loop B api es p1 db1 = (p', db')" using "5.prems"(2) t by simp
  then show ?case by (rule "5.IH" [OF t [symmetric] refl db_wf_onTick [OF "5.prems"(1) t]])
qed auto

lemma prepare_decision:
  assumes "prepare env p db = (p1, db1, decision)"
  shows "decision = tick_decision (fst (Evaluate (telemetry_map (pstate p)) (policy p)))"
proof -
  let ?q = "if sessionID p = [] then startNewSession (te_rand env) p else p"
  have "policy ?q = policy p" by (simp add: startNewSession_def)
  then have "policy (fst (silence_step env ?q db)) = policy p" by (simp only: silence_step_frame)
  then show ?thesis using assms by (auto simp: prepare_def Let_def split: prod.splits)
qed

text \<open>The packet of a tick, field by field, and the row it is stored in, column by column.\<close>

lemma build_packet_prepared:
  assumes "prepare env p db = (p1, db1, decision)" "sessionID p1 = s" "pseq p1 = n" "prevBlake3 p1 = h"
  shows "build_packet p1 (pstate p) (te_tick env) (te_mono env) decision =
     \<lparr>PktSessionID = s, PktNodeLabel = PNodeLabel (pcfg p), PktPrinterID = PPrinterID (pcfg p), Seq = n,
      Tick = te_tick env, TickMonoNs = te_mono env,
      ExtruderTemp = ExTemperature (Extruder (pstate p)), ExtruderTarget = ExTarget (Extruder (pstate p)),
      ExtruderPower = ExPower (Extruder (pstate p)), PktBedTemp = BedTemperature (HeaterBed (pstate p)),
      PktBedTarget = BedTarget (HeaterBed (pstate p)), PktBedPower = BedPower (HeaterBed (pstate p)),
      ChamberTemp = ChamberTempC (pstate p), PktChamberPresent = ChamberPresent (pstate p),
      PktLiveVelocity = LiveVelocity (MotionReport (pstate p)),
      PktLiveExtruderVelocity = LiveExtruderVelocity (MotionReport (pstate p)),
      PktLivePosition = LivePosition (MotionReport (pstate p)),
      PrintState = State (PrintStats (pstate p)), FilamentUsedMM = FilamentUsed (PrintStats (pstate p)),
      PrintDurationS = PrintDuration (PrintStats (pstate p)),
      PktMCUVersion = MCUVersion (MCU (pstate p)), PktMCUBuildVersions = MCUBuildVersions (MCU (pstate p)),
      PktDecision = tick_decision (fst (Evaluate (telemetry_map (pstate p)) (policy p))),
      AnomalyExtruderThermal = False, AnomalyBedThermal = False, AnomalyLoadCell = False,
      RecoveredFromCache = False, PrevPacketBLAKE3 = h, PacketSHA256 = None, PacketBLAKE3 = None,
      TPMSig = None, QuoteRef = (if sessionID p = [] then 0 else lastQuoteID p)\<rparr>"
proof -
  have "lastQuoteID p1 = (if sessionID p = [] then 0 else lastQuoteID p)"
    using prepare_frame(8) [OF assms(1)] by (auto simp: Let_def startNewSession_def split: if_splits)
  then show ?thesis
    unfolding build_packet_def assms(2-4) prepare_frame(2) [OF assms(1)] prepare_decision [OF assms(1)] by simp
qed

lemma active_tick_written:
  assumes fin: "state_finite (pstate p)" and wf: "db_wf db" and gf: "gap_free (chain db s)"
    and active: "IsActive (pstate p)"
    and year: "0 \<le> utc_year (te_tick env)" "utc_year (te_tick env) \<le> 9999"
    and wr: "te_packet_err env = None"
    and session: "(s, n, h) = (if sessionID p = [] then (hex_encode (filled 16 (rand_id (te_rand env))), 0, None)
                    else (sessionID p, pseq p, prevBlake3 p))"
    and fresh: "length (chain db s) = unat n" "unat n < 2 ^ 63"
    and tick: "onTick B api env p db = (p', db')"
  shows "\<exists>p1 db1 decision canonical sig hash sg k.
    prepare env p db = (p1, db1, decision) \<and> sessionID p1 = s \<and> pseq p1 = n \<and> prevBlake3 p1 = h \<and>
    marshal_packet (build_packet p1 (pstate p) (te_tick env) (te_mono env) decision) = Inr canonical \<and>
    tick_signature api (DeriveQuoteNonce (sessionNonce p') (sha256 canonical) h n) canonical (tpm p) sig \<and>
    hash = computePacketBLAKE3 B n s canonical sig h \<and>
    (sg, k) = (if sig \<noteq> None \<and> te_sig_err env = None \<and> (\<exists>qt \<in> set (quotes db'). qt_id qt = lastQuoteID p')
       then (sig, Some (lastQuoteID p')) else (None, None)) \<and>
    packets db' = packets db @ [(packet_columns (packets_last db + 1)
      (tick_row p1 env canonical decision (sha256 canonical) hash))\<lparr>tpm_sig := sg, quote_ref := k\<rparr>] \<and>
    sessionID p' = s \<and> pseq p' = n + 1 \<and> prevBlake3 p' = Some hash"
proof -
  obtain p1 db1 decision where pr: "prepare env p db = (p1, db1, decision)" by (metis prod_cases3)
  have p1: "sessionID p1 = s" "pseq p1 = n" "prevBlake3 p1 = h"
    using prepare_frame(8) [OF pr] session by (auto simp: Let_def startNewSession_def split: if_splits)
  have chain1: "chain db1 = chain db" using chain_packets [OF prepare_frame(4) [OF pr]] .
  obtain c where c: "marshal_packet (build_packet p1 (pstate p) (te_tick env) (te_mono env) decision) = Inr c"
    using marshal_finite [OF fin year] by blast
  have seal: "seal_tick B api env decision c p1 db1 = (p', db')"
    using tick onTick_active [OF active pr, of B api] c by simp
  have free: "\<not> seq_taken s n db1" using next_seq_free [of db1 s n] gf fresh(1) chain1 by simp
  show ?thesis
  proof (cases rule: seal_tick_outcome [OF db_wf_prepare [OF wf pr] seal, case_names written skipped])
    case (written sig hash row sg k)
    then show ?thesis
      using pr p1 c prepare_frame(3,4,7) [OF pr]
      by (intro exI [of _ p1] exI [of _ db1] exI [of _ decision] exI [of _ c] exI [of _ sig] exI [of _ hash]
          exI [of _ sg] exI [of _ k]) simp
  next
    case (skipped e hash)
    then show ?thesis using WritePacket_ok [of "tick_row p1 env c decision (sha256 c) hash" db1] wr free fresh(2) p1
      by (simp add: tick_row_def)
  qed
qed

text \<open>C2: the custody clock: whatever deltas, failures and ticks came before, an active tick
  whose insert does not fail writes exactly one packet, even when the printer is silent and when the
  TPM, the quote or the fault record fail, and changes no other row. The packet is the next of the
  session (a new session when there was none). Its JSON is the marshalled snapshot: every field is
  that of the cached state, the configuration, the clock, the policy's verdict and the position in the
  chain. Every column of the row is pinned: the digest is that of this JSON; the hash is the
  chain hash over number, session, JSON, the signature the TPM made for it on this tick (nothing when there
  is no TPM or it failed) and the previous hash; and the signature is stored, with the quote of the session,
  exactly when there is one, its statement does not fail and that quote exists. The packetizer's number
  and head move to the packet. The session must not have been in use before it was started, and the
  tick's year must have four digits.\<close>

theorem active_tick_records:
  assumes run: "run_loop B api es (NewPacketizer cfg t) db0 = (p, db)"
    and wf: "db_wf db0" and gf: "\<forall>s. gap_free (chain db0 s)"
    and active: "IsActive (pstate p)"
    and year: "0 \<le> utc_year (te_tick env)" "utc_year (te_tick env) \<le> 9999"
    and wr: "te_packet_err env = None"
    and session: "(s, n, h) = (if sessionID p = [] then (hex_encode (filled 16 (rand_id (te_rand env))), 0, None)
                    else (sessionID p, pseq p, prevBlake3 p))"
    and fresh: "length (chain db s) = unat n" "unat n < 2 ^ 63"
    and tick: "onTick B api env p db = (p', db')"
  shows "\<exists>canonical sig sg k.
    let st = pstate p; decision = tick_decision (fst (Evaluate (telemetry_map st) (policy p)));
        hash = B ([0] @ le64 n @ bytes_of s @ canonical @ opt_bytes sig @ opt_bytes h) in
    marshal_packet
     \<lparr>PktSessionID = s, PktNodeLabel = PNodeLabel (pcfg p), PktPrinterID = PPrinterID (pcfg p), Seq = n,
      Tick = te_tick env, TickMonoNs = te_mono env,
      ExtruderTemp = ExTemperature (Extruder st), ExtruderTarget = ExTarget (Extruder st),
      ExtruderPower = ExPower (Extruder st), PktBedTemp = BedTemperature (HeaterBed st),
      PktBedTarget = BedTarget (HeaterBed st), PktBedPower = BedPower (HeaterBed st),
      ChamberTemp = ChamberTempC st, PktChamberPresent = ChamberPresent st,
      PktLiveVelocity = LiveVelocity (MotionReport st),
      PktLiveExtruderVelocity = LiveExtruderVelocity (MotionReport st),
      PktLivePosition = LivePosition (MotionReport st),
      PrintState = State (PrintStats st), FilamentUsedMM = FilamentUsed (PrintStats st),
      PrintDurationS = PrintDuration (PrintStats st),
      PktMCUVersion = MCUVersion (MCU st), PktMCUBuildVersions = MCUBuildVersions (MCU st),
      PktDecision = decision,
      AnomalyExtruderThermal = False, AnomalyBedThermal = False, AnomalyLoadCell = False,
      RecoveredFromCache = False, PrevPacketBLAKE3 = h, PacketSHA256 = None, PacketBLAKE3 = None,
      TPMSig = None, QuoteRef = (if sessionID p = [] then 0 else lastQuoteID p)\<rparr> = Inr canonical \<and>
    tick_signature api (DeriveQuoteNonce (sessionNonce p') (sha256 canonical) h n) canonical (tpm p) sig \<and>
    packets db' = packets db @
     [\<lparr>pk_id = packets_last db + 1, session_id = s, seq = n, tick_utc = rfc3339nano (te_tick env),
       tick_mono_ns = te_mono env, telemetry_json = string_of canonical,
       anomaly_extruder = (case decision of None \<Rightarrow> 0 | Some d \<Rightarrow> if Pass d then 0 else 1),
       anomaly_bed = 0, anomaly_load_cell = 0, recovered_from_cache = 0,
       prev_packet_blake3 = hexOrNil h, packet_sha256 = hex_encode (sha256 canonical),
       packet_blake3 = Some (hex_encode hash), tpm_sig = sg, quote_ref = k,
       upload_state = ''pending'', segment_id = None\<rparr>] \<and>
    (sg, k) = (if sig \<noteq> None \<and> te_sig_err env = None \<and> (\<exists>qt \<in> set (quotes db'). qt_id qt = lastQuoteID p')
       then (sig, Some (lastQuoteID p')) else (None, None)) \<and>
    sessionID p' = s \<and> pseq p' = n + 1 \<and> prevBlake3 p' = Some hash"
proof -
  have fin: "state_finite (pstate p)"
    by (rule state_finite_run_loop [OF _ run]) (simp add: NewPacketizer_def)
  have gf': "gap_free (chain db s)"
    using in_position_run_loop [OF in_position_NewPacketizer [OF gf] run] by (simp add: in_position_def)
  obtain p1 db1 decision c sig hash sg k where pr: "prepare env p db = (p1, db1, decision)"
    and pos: "sessionID p1 = s" "pseq p1 = n" "prevBlake3 p1 = h"
    and m: "marshal_packet (build_packet p1 (pstate p) (te_tick env) (te_mono env) decision) = Inr c"
    and rest: "tick_signature api (DeriveQuoteNonce (sessionNonce p') (sha256 c) h n) c (tpm p) sig"
      "hash = computePacketBLAKE3 B n s c sig h"
      "(sg, k) = (if sig \<noteq> None \<and> te_sig_err env = None \<and> (\<exists>qt \<in> set (quotes db'). qt_id qt = lastQuoteID p')
         then (sig, Some (lastQuoteID p')) else (None, None))"
      "packets db' = packets db @ [(packet_columns (packets_last db + 1)
        (tick_row p1 env c decision (sha256 c) hash))\<lparr>tpm_sig := sg, quote_ref := k\<rparr>]"
      "sessionID p' = s" "pseq p' = n + 1" "prevBlake3 p' = Some hash"
    using active_tick_written [OF fin db_wf_run_loop [OF wf run] gf' active year wr session fresh tick] by blast
  show ?thesis unfolding Let_def
    using m [unfolded build_packet_prepared [OF pr pos]] rest pos
    by (intro exI [of _ c] exI [of _ sig] exI [of _ sg] exI [of _ k] conjI)
      (simp_all add: packet_columns_def tick_row_def boolInt_def prepare_decision [OF pr] computePacketBLAKE3_def
        packet_preimage_def split: option.split)
qed

text \<open>A print that starts, and a tick of it on January 1, 2025.\<close>

definition sample_config :: PacketizerConfig where
  "sample_config = \<lparr>PNodeLabel = ''node'', PPrinterID = ''printer'', PPeriod = second,
     PMaxSilentTicks = 10, PQuoteInterval = 5 * minute, PQuoteOnLifecycle = True,
     PPCRs = Some [10, 11, 12, 15], PAKHandle = 0x81000002\<rparr>"

definition sample_rand :: session_rand where
  "sample_rand = \<lparr>rand_id = [1, 2, 3], rand_nonce = [4]\<rparr>"

definition sample_delta :: StatusDelta where
  "sample_delta = \<lparr>Status = [(''print_stats'', JObj [(''state'', JStr ''printing'')])],
     EventTime = 0, ReceivedAt = zero_time\<rparr>"

definition sample_time :: gotime where
  "sample_time = \<lparr>wall_ns = 1735689600000000000, mono_ns = Some 7\<rparr>"

definition sample_env :: tick_env where
  "sample_env = \<lparr>te_tick = sample_time, te_rand = sample_rand, te_mono = 1735689600000000000,
     te_now = sample_time, te_fault_now = sample_time, te_fault_err = None,
     te_quote_now = sample_time, te_quote_err = None, te_packet_err = None, te_sig_err = None\<rparr>"

definition sample_start :: "unit Worker option \<Rightarrow> unit Packetizer" where
  "sample_start t = (applyDelta sample_rand sample_delta (NewPacketizer sample_config t))\<lparr>silentTicks := 0\<rparr>"

lemmas sample_defs = sample_config_def sample_rand_def sample_delta_def sample_time_def sample_env_def

lemma length_filled [simp]: "length (filled n b) = n"
  by (simp add: filled_def)

lemma session_id_nonempty [simp]: "hex_encode (filled 16 b) \<noteq> []"
  using length_hex_encode [of "filled 16 b"] by (metis length_filled list.size(3) mult_is_0 zero_neq_numeral)

lemma sample_print_stats:
  "snd (unm_print_stats (JObj [(''state'', JStr ''printing'')]) x) = x\<lparr>State := ''printing''\<rparr>"
  by (simp add: unm_print_stats_def unm_struct_def select_field_def set_print_stats_def unm_string_def)

lemma sample_start_eq:
  "sample_start t = (let p = startNewSession sample_rand
      ((NewPacketizer sample_config t)\<lparr>pstate := zero_state\<lparr>PrintStats := (PrintStats zero_state)\<lparr>State := ''printing''\<rparr>\<rparr>\<rparr>)
    in if t = None then p else scheduleImmediateQuote p)"
proof -
  have "pstate (NewPacketizer sample_config t) = zero_state" "State (PrintStats zero_state) = []"
    "PQuoteOnLifecycle sample_config" "tpm (NewPacketizer sample_config t) = t"
    "pcfg (NewPacketizer sample_config t) = sample_config"
    by (simp_all add: NewPacketizer_def zero_state_def sample_config_def)
  then show ?thesis
    by (simp add: sample_start_def applyDelta_def sample_delta_def apply_object_def Let_def sample_print_stats
        detectLifecycleEdge_def startNewSession_def scheduleImmediateQuote_def)
qed

lemma sample_start_state:
  "IsActive (pstate (sample_start t))" "sessionID (sample_start t) = hex_encode (filled 16 [1, 2, 3])"
  "pseq (sample_start t) = 0" "prevBlake3 (sample_start t) = None" "tpm (sample_start t) = t"
  "lastQuoteID (sample_start t) = 0" "silentTicks (sample_start t) = 0"
  "pcfg (sample_start t) = sample_config" "lastQuoteAt (sample_start t) = zero_time"
  by (simp_all add: sample_start_eq Let_def startNewSession_def scheduleImmediateQuote_def IsActive_def
      NewPacketizer_def sample_rand_def)

lemma sample_year: "utc_year sample_time = 2025"
  by code_simp

lemma chain_empty [simp]: "chain empty_database s = []"
  by (simp add: chain_def empty_database_def)

lemma sample_tick:
  assumes "onTick B api sample_env (sample_start None) empty_database = (p', db')"
  shows "pseq p' = 1" "sessionID p' = hex_encode (filled 16 [1, 2, 3])"
proof -
  have fin: "state_finite (pstate (sample_start None))"
    using state_finite_applyDelta [of "NewPacketizer sample_config None :: unit Packetizer" sample_rand sample_delta]
    by (simp add: sample_start_def NewPacketizer_def)
  have "gap_free (chain empty_database (hex_encode (filled 16 [1, 2, 3])))" by simp
  from active_tick_written [OF fin db_wf_empty this sample_start_state(1) _ _ _ _ _ _ assms, of 0 None]
  show "pseq p' = 1" "sessionID p' = hex_encode (filled 16 [1, 2, 3])"
    by (auto simp: sample_start_state sample_env_def sample_year)
qed

theorem active_tick_records_witness:
  "\<exists>r. packets (snd (onTick sha256 echo_tpm sample_env (sample_start None) empty_database)) = [r] \<and>
     tick_utc r = ''2025-01-01T00:00:00Z'' \<and> seq r = 0 \<and> tpm_sig r = None"
proof -
  let ?p = "sample_start None"
  obtain p' db' where t: "onTick sha256 echo_tpm sample_env ?p empty_database = (p', db')" by fastforce
  have u: "rfc3339nano (te_tick sample_env) = ''2025-01-01T00:00:00Z''" by code_simp
  have "\<exists>r. packets db' = packets empty_database @ [r] \<and> tick_utc r = rfc3339nano (te_tick sample_env) \<and> seq r = 0 \<and> tpm_sig r = None"
    using active_tick_records [of sha256 echo_tpm "[Delta sample_rand sample_delta]" sample_config None
        empty_database ?p empty_database sample_env "sessionID ?p" 0 None p' db'] t
    by (auto simp: sample_start_def [symmetric] sample_start_state sample_env_def sample_year Let_def
        tick_signature_def)
  then show ?thesis using t u by (auto simp: empty_database_def)
qed

end
