(* ===== verification/Custody_Evidence.thy ===== *)
theory Custody_Evidence
  imports Custody_Props
begin

text \<open>
  The evidence a tick leaves: rows that recompute (digest, chain hash, signature), the quotes and
  their schedule, the faults recorded for silence, and the policy decision.
\<close>

section \<open>Rows that verify\<close>

text \<open>Rule 3 of \<open>docs/STREAM_FORMAT.md\<close>: the row's chain hash is recomputed from its own columns, an
  absent signature contributing nothing.\<close>

definition row_recomputes :: "(bytes \<Rightarrow> bytes) \<Rightarrow> packet_row \<Rightarrow> bool" where
  "row_recomputes B r \<longleftrightarrow>
     (\<exists>prev. prev_packet_blake3 r = hexOrNil prev \<and>
        packet_blake3 r = Some (hex_encode (B (packet_preimage (seq r) (session_id r)
          (bytes_of (telemetry_json r)) (tpm_sig r) prev))))"

text \<open>A signature that the TPM, in some state, made for the row's JSON.\<close>

definition signed :: "'d tpm_api \<Rightarrow> packet_row \<Rightarrow> bytes \<Rightarrow> bool" where
  "signed api r sig \<longleftrightarrow> (\<exists>w w'. SignPacket api (bytes_of (telemetry_json r)) w = (Inr sig, w'))"

text \<open>The row whose signature was made and hashed, but not stored.\<close>

definition signature_lost :: "'d tpm_api \<Rightarrow> (bytes \<Rightarrow> bytes) \<Rightarrow> packet_row \<Rightarrow> bool" where
  "signature_lost api B r \<longleftrightarrow> tpm_sig r = None \<and> (\<exists>sig. signed api r sig \<and> row_recomputes B (r\<lparr>tpm_sig := Some sig\<rparr>))"

text \<open>A row as the packetizer leaves it: its JSON is the marshalled packet of its session and number, its
  digest is that of its JSON, and its chain hash recomputes, with a signature of the TPM if it has
  one; the one exception is the row whose signature was lost.\<close>

definition row_sealed :: "'d tpm_api \<Rightarrow> (bytes \<Rightarrow> bytes) \<Rightarrow> packet_row \<Rightarrow> bool" where
  "row_sealed api B r \<longleftrightarrow>
     (\<exists>pkt. marshal_packet pkt = Inr (bytes_of (telemetry_json r)) \<and> PktSessionID pkt = session_id r \<and> Seq pkt = seq r) \<and>
     packet_sha256 r = hex_encode (sha256 (bytes_of (telemetry_json r))) \<and>
     (row_recomputes B r \<and> (\<forall>sig. tpm_sig r = Some sig \<longrightarrow> signed api r sig) \<or> signature_lost api B r)"

text \<open>What a verifier can assume without knowing whether a signature was lost: the JSON is that of a
  packet, the digest is right, and the chain hash is that of the columns with some signature, the stored
  one if there is one. It is a hypothesis of \<open>chain_tamper_evident\<close>, which so holds of damaged rows too.\<close>

definition row_verifies :: "(bytes \<Rightarrow> bytes) \<Rightarrow> packet_row \<Rightarrow> bool" where
  "row_verifies B r \<longleftrightarrow>
     (\<exists>pkt. marshal_packet pkt = Inr (bytes_of (telemetry_json r))) \<and>
     packet_sha256 r = hex_encode (sha256 (bytes_of (telemetry_json r))) \<and>
     (\<exists>sig prev. prev_packet_blake3 r = hexOrNil prev \<and>
        packet_blake3 r = Some (hex_encode (computePacketBLAKE3 B (seq r) (session_id r)
           (bytes_of (telemetry_json r)) sig prev)) \<and>
        (tpm_sig r = sig \<or> tpm_sig r = None))"

lemma row_sealed_verifies: "row_sealed api B r \<Longrightarrow> row_verifies B r"
  by (auto simp: row_sealed_def row_verifies_def row_recomputes_def signature_lost_def computePacketBLAKE3_def)

lemma tick_signature_signed:
  "tick_signature api qn (bytes_of (telemetry_json r)) t (Some sig) \<Longrightarrow> signed api r sig"
  by (auto simp: tick_signature_def signed_def split: option.splits sum.splits) (metis prod.collapse)+

text \<open>The row that a sealed tick appends.\<close>

lemma tick_row_sealed:
  assumes pkt: "marshal_packet pkt = Inr canonical" "PktSessionID pkt = sessionID p" "Seq pkt = pseq p"
    and sig: "tick_signature api qn canonical (tpm p) sig"
    and h: "hash = computePacketBLAKE3 B (pseq p) (sessionID p) canonical sig (prevBlake3 p)"
    and row: "row = packet_columns i (tick_row p env canonical decision (sha256 canonical) hash)"
    and sg: "sg = sig \<or> sg = None"
  shows "row_sealed api B (row\<lparr>tpm_sig := sg, quote_ref := k\<rparr>)"
    and "tpm p = None \<Longrightarrow> row_recomputes B (row\<lparr>tpm_sig := sg, quote_ref := k\<rparr>)"
proof -
  let ?r = "row\<lparr>tpm_sig := sg, quote_ref := k\<rparr>"
  have cols: "bytes_of (telemetry_json ?r) = canonical" "session_id ?r = sessionID p" "seq ?r = pseq p"
    "prev_packet_blake3 ?r = hexOrNil (prevBlake3 p)" "packet_sha256 ?r = hex_encode (sha256 canonical)"
    "packet_blake3 ?r = Some (hex_encode hash)" "tpm_sig ?r = sg"
    by (simp_all add: row packet_columns_def tick_row_def)
  have made: "signed api ?r x" if "sig = Some x" for x
    using sig that cols(1) tick_signature_signed [of api qn ?r "tpm p" x] by simp
  have rec: "row_recomputes B (?r\<lparr>tpm_sig := sig\<rparr>)"
    using cols h unfolding row_recomputes_def computePacketBLAKE3_def by auto
  have lost: "signature_lost api B ?r" if ne: "sg \<noteq> sig"
  proof -
    obtain x where x: "sig = Some x" "sg = None" using sg ne by (cases sig) auto
    then show ?thesis using made rec unfolding signature_lost_def by auto
  qed
  have same: "?r\<lparr>tpm_sig := sig\<rparr> = ?r" if "sg = sig" using that by simp
  have "row_recomputes B ?r \<and> (\<forall>x. tpm_sig ?r = Some x \<longrightarrow> signed api ?r x) \<or> signature_lost api B ?r"
  proof (cases "sg = sig")
    case True
    then show ?thesis using rec [unfolded same [OF True]] made cols(7) by simp
  next
    case False
    then show ?thesis using lost by simp
  qed
  then show "row_sealed api B ?r" unfolding row_sealed_def using pkt cols by auto
  assume "tpm p = None"
  then have "sig = None" using sig by (simp add: tick_signature_def)
  then have "sg = sig" using sg by simp
  then show "row_recomputes B ?r" using rec [unfolded same [OF \<open>sg = sig\<close>]] by simp
qed

text \<open>A tick appends at most one row, sealed, and changes none.\<close>

lemma seal_tick_sealed:
  assumes wf: "db_wf db" and pkt: "marshal_packet pkt = Inr canonical" "PktSessionID pkt = sessionID p" "Seq pkt = pseq p"
    and seal: "seal_tick B api env decision canonical p db = (p', db')"
  shows "(tpm p' = None \<longleftrightarrow> tpm p = None) \<and> (\<exists>new. packets db' = packets db @ new \<and>
    (\<forall>r \<in> set new. row_sealed api B r \<and> segment_id r = None \<and> upload_state r = ''pending'' \<and>
      (tpm p = None \<longrightarrow> row_recomputes B r)))"
proof (cases rule: seal_tick_outcome [OF wf seal, case_names written skipped])
  case (written sig hash row sg k)
  have "sg = sig \<or> sg = None" using written(4) by (auto split: if_splits)
  note row = tick_row_sealed [OF pkt written(1-3) this]
  have "segment_id (row\<lparr>tpm_sig := sg, quote_ref := k\<rparr>) = None" "upload_state (row\<lparr>tpm_sig := sg, quote_ref := k\<rparr>) = ''pending''"
    by (simp_all add: written(3) packet_columns_def)
  then show ?thesis using row written(5,11) by auto
next
  case (skipped e hash)
  then show ?thesis by simp
qed

lemma onTick_sealed:
  assumes wf: "db_wf db" and tick: "onTick B api env p db = (p', db')"
  shows "(tpm p' = None \<longleftrightarrow> tpm p = None) \<and> (\<exists>new. packets db' = packets db @ new \<and>
    (\<forall>r \<in> set new. row_sealed api B r \<and> segment_id r = None \<and> upload_state r = ''pending'' \<and>
      (tpm p = None \<longrightarrow> row_recomputes B r)))"
proof (cases "IsActive (pstate p)")
  case True
  obtain p1 db1 decision where pr: "prepare env p db = (p1, db1, decision)" by (metis prod_cases3)
  let ?pkt = "build_packet p1 (pstate p) (te_tick env) (te_mono env) decision"
  show ?thesis
  proof (cases "marshal_packet ?pkt")
    case (Inl e)
    then show ?thesis using tick onTick_active [OF True pr, of B api] prepare_frame(3,4) [OF pr] by simp
  next
    case (Inr c)
    then have "seal_tick B api env decision c p1 db1 = (p', db')"
      using tick onTick_active [OF True pr, of B api] by simp
    from seal_tick_sealed [OF db_wf_prepare [OF wf pr] Inr _ _ this] prepare_frame(3,4) [OF pr]
    show ?thesis by (simp add: build_packet_def)
  qed
qed (use tick in \<open>simp add: onTick_idle\<close>)

section \<open>A signature without a quote\<close>

lemma SetTPMSig_rows:
  "r' \<in> set (packets (snd (SetTPMSig f i sig q db))) \<Longrightarrow>
     \<exists>r \<in> set (packets db). r' = r \<or> (pk_id r = i \<and> r' = r\<lparr>tpm_sig := sig, quote_ref := Some q\<rparr>)"
  by (auto simp: SetTPMSig_def split: option.splits if_splits)

lemma SetTPMSig_no_quote:
  "db_wf db \<Longrightarrow> r \<in> set (packets db) \<Longrightarrow> pk_id r = i \<Longrightarrow> SetTPMSig None i sig 0 db = (Some (Err ''FOREIGN KEY constraint failed''), db)"
  by (force simp: SetTPMSig_def db_wf_def ids_ok_def)

text \<open>C36: while a session has no quote, no packet signature is stored: on a tick that signs its
  packet but has no quote to refer to (the quote failed, or was not written), the
  signature's backfill names quote 0, violates the foreign key of \<open>packets.quote_ref\<close>, and is dropped
  with a warning, so the row written has no signature although its chain hash covers
  one.\<close>

theorem signature_lost_without_quote:
  assumes "db_wf db" "te_packet_err env = None" "te_sig_err env = None"
    and "quote_step api env (sha256 canonical) p db = (0, p1, db1)"
    and "sign_step api canonical p1 = (Some sig, p2)"
    and "\<not> seq_taken (sessionID p) (pseq p) db" "unat (pseq p) < 2 ^ 63"
    and "seal_tick B api env decision canonical p db = (p', db')"
  shows "\<exists>r. packets db' = packets db @ [r] \<and> session_id r = sessionID p \<and> seq r = pseq p \<and>
    tpm_sig r = None \<and> quote_ref r = None \<and>
    packet_blake3 r = Some (hex_encode (computePacketBLAKE3 B (pseq p) (sessionID p) canonical (Some sig) (prevBlake3 p)))"
proof -
  define hash where "hash = computePacketBLAKE3 B (pseq p) (sessionID p) canonical (Some sig) (prevBlake3 p)"
  let ?row = "tick_row p env canonical decision (sha256 canonical) hash"
  have packets1: "packets db1 = packets db" and wf1: "db_wf db1"
    using quote_step_frame(12) [OF assms(4)] db_wf_quote_step [OF assms(1,4)] by simp_all
  then have free: "\<not> seq_taken (RowSessionID ?row) (RowSeq ?row) db1" "unat (RowSeq ?row) < 2 ^ 63"
    using assms(6,7) by (simp_all add: seq_taken_def tick_row_def)
  note w = WritePacket_ok [OF free]
  define db2 where "db2 = snd (WritePacket None ?row db1)"
  let ?i = "packets_last db1 + 1"
  have db2: "packets db2 = packets db @ [packet_columns ?i ?row]" by (simp add: db2_def w packets1)
  have "db_wf db2" unfolding db2_def by (rule db_wf_WritePacket [OF wf1])
  then have lost: "SetTPMSig None ?i (Some sig) 0 db2 = (Some (Err ''FOREIGN KEY constraint failed''), db2)"
    by (rule SetTPMSig_no_quote [of db2 "packet_columns ?i ?row"]) (simp_all add: db2 packet_columns_def)
  have frame: "sessionID p2 = sessionID p" "pseq p2 = pseq p" "prevBlake3 p2 = prevBlake3 p"
    using quote_step_frame(1-3) [OF assms(4)] sign_step_frame(1-3) [OF assms(5)] by simp_all
  then have row: "tick_row p2 env canonical decision (sha256 canonical) hash = ?row" by (simp add: tick_row_def)
  have "WritePacket None ?row db1 = (Inr ?i, db2)" by (simp add: db2_def w)
  then have "db' = snd (SetTPMSig None ?i (Some sig) 0 db2)"
    using assms(2,3,8) frame row by (simp add: seal_tick_def assms(4,5) hash_def [symmetric] Let_def)
  then have "db' = db2" by (simp add: lost)
  then show ?thesis using db2 by (auto simp: packet_columns_def tick_row_def hash_def)
qed

definition deaf_tpm :: "unit tpm_api" where
  "deaf_tpm = echo_tpm\<lparr>QuoteExec := (\<lambda>c d. (Inl (Err ''TPM_RC_RETRY''), d))\<rparr>"

definition sample_worker :: "unit Worker" where
  "sample_worker = \<lparr>dev = (), wcfg = echo_config, signPub = Some [1], akPub = Some [2]\<rparr>"

theorem signature_lost_without_quote_witness:
  "\<exists>r. packets (snd (seal_tick sha256 deaf_tpm sample_env None [123, 125] (sample_start (Some sample_worker))
      empty_database)) = [r] \<and> tpm_sig r = None"
proof -
  let ?p = "sample_start (Some sample_worker)"
  have q: "quote_step deaf_tpm sample_env (sha256 [123, 125]) ?p empty_database = (0, ?p, empty_database)"
    by (cases ?p) (use sample_start_state [of "Some sample_worker"] in \<open>simp add: quote_step_def Quote_def deaf_tpm_def Let_def
        sample_worker_def\<close>)
  obtain p' db' where "seal_tick sha256 deaf_tpm sample_env None [123, 125] ?p empty_database = (p', db')"
    by fastforce
  moreover have "sign_step deaf_tpm [123, 125] ?p = (Some (sha256 [123, 125]), ?p\<lparr>tpm := Some sample_worker\<rparr>)"
    by (simp add: sign_step_def sample_start_state SignPacket_def deaf_tpm_def echo_tpm_def sample_worker_def Let_def)
  ultimately show ?thesis
    using signature_lost_without_quote [OF db_wf_empty _ _ q, of "sha256 [123, 125]" "?p\<lparr>tpm := Some sample_worker\<rparr>" sha256 None p' db']
    by (auto simp: sample_env_def seq_taken_def empty_database_def sample_start_state)
qed

section \<open>Silence\<close>

lemma seal_tick_faults:
  assumes "seal_tick B api env decision canonical p db = (p', db')"
  shows "provenance_faults db' = provenance_faults db" "pseq p' = pseq p \<or> pseq p' = pseq p + 1"
proof -
  have w: "provenance_faults (snd (WritePacket f r d)) = provenance_faults d"
    "provenance_faults (snd (SetTPMSig f' i sg q d)) = provenance_faults d" for f r d f' i sg q
    by (auto simp: WritePacket_def SetTPMSig_def Let_def split: option.split)
  have "quote_step api env sha p db = (q, p1, db1) \<Longrightarrow> provenance_faults db1 = provenance_faults db" for sha q p1 db1
    by (auto simp: quote_step_def WriteQuote_def Let_def split: option.splits if_splits prod.splits sum.splits)
  note q = this
  show "provenance_faults db' = provenance_faults db"
    by (rule seal_tick_cases [of api env canonical p db B decision])
      (use assms in \<open>auto dest!: q simp: w split: option.splits dest: arg_cong [of _ _ "\<lambda>x. provenance_faults (snd x)"]\<close>)
  show "pseq p' = pseq p \<or> pseq p' = pseq p + 1"
    by (rule seal_tick_cases [of api env canonical p db B decision])
      (use assms in \<open>auto simp: quote_step_frame sign_step_frame\<close>)
qed

lemma onTick_silence:
  assumes act: "IsActive (pstate p)" and sid: "sessionID p \<noteq> []"
    and ok: "te_fault_err env = None" "unat (pseq p) < 2 ^ 63"
    and tick: "onTick B api env p db = (p', db')"
  shows "silentTicks p' = (if PMaxSilentTicks (pcfg p) < silentTicks p + 1 then 0 else silentTicks p + 1) \<and>
    length (provenance_faults db') = length (provenance_faults db) +
      (if PMaxSilentTicks (pcfg p) < silentTicks p + 1 then 1 else 0) \<and>
    pstate p' = pstate p \<and> pcfg p' = pcfg p \<and> sessionID p' = sessionID p \<and>
    (pseq p' = pseq p \<or> pseq p' = pseq p + 1)"
proof -
  obtain p1 db1 decision where pr: "prepare env p db = (p1, db1, decision)" by (metis prod_cases3)
  have p1: "silentTicks p1 = (if PMaxSilentTicks (pcfg p) < silentTicks p + 1 then 0 else silentTicks p + 1)"
    "length (provenance_faults db1) = length (provenance_faults db) +
      (if PMaxSilentTicks (pcfg p) < silentTicks p + 1 then 1 else 0)"
    using pr sid ok by (auto simp: prepare_def Let_def silence_step_def RecordProvenanceFault_def sql_uint_ok_def
        split: prod.splits)
  have fr: "pstate p1 = pstate p" "pcfg p1 = pcfg p" "sessionID p1 = sessionID p" "pseq p1 = pseq p"
    using prepare_frame(1,2,8) [OF pr] sid by (simp_all add: Let_def)
  show ?thesis
  proof (cases "marshal_packet (build_packet p1 (pstate p) (te_tick env) (te_mono env) decision)")
    case (Inl e)
    then show ?thesis using tick onTick_active [OF act pr, of B api] p1 fr by simp
  next
    case (Inr c)
    then have "seal_tick B api env decision c p1 db1 = (p', db')"
      using tick onTick_active [OF act pr, of B api] by simp
    from seal_tick_frame [OF this] seal_tick_faults [OF this] p1 fr show ?thesis by simp
  qed
qed

lemma div_mod_step:
  fixes s k m :: nat
  assumes "s \<le> m"
  shows "(s + Suc k) div Suc m =
      (if m < Suc s then Suc (k div Suc m) else (Suc s + k) div Suc m)"
    "(s + Suc k) mod Suc m = (if m < Suc s then k mod Suc m else (Suc s + k) mod Suc m)"
proof -
  have "s + Suc k = Suc s + k" by simp
  moreover have "k + Suc m = Suc s + k" if "m < Suc s" using assms that by simp
  moreover have "(k + Suc m) div Suc m = Suc (k div Suc m)" "(k + Suc m) mod Suc m = k mod Suc m"
    using div_add_self2 [of "Suc m" k] mod_add_self2 [of k "Suc m"] by simp_all
  ultimately show "(s + Suc k) div Suc m = (if m < Suc s then Suc (k div Suc m) else (Suc s + k) div Suc m)"
    "(s + Suc k) mod Suc m = (if m < Suc s then k mod Suc m else (Suc s + k) mod Suc m)"
    by metis+
qed

lemma silent_run:
  assumes "IsActive (pstate p)" "sessionID p \<noteq> []" "\<forall>env \<in> set envs. te_fault_err env = None"
    "PMaxSilentTicks (pcfg p) = int m" "silentTicks p = int s" "s \<le> m"
    "unat (pseq p) + length envs \<le> 2 ^ 63"
    "run_loop B api (map TickEvent envs) p db = (p', db')"
  shows "silentTicks p' = int ((s + length envs) mod Suc m) \<and>
    length (provenance_faults db') = length (provenance_faults db) + (s + length envs) div Suc m"
  using assms
proof (induction envs arbitrary: p db s)
  case (Cons env envs)
  obtain p1 db1 where t: "onTick B api env p db = (p1, db1)" by fastforce
  have step: "silentTicks p1 = (if m < Suc s then 0 else int (Suc s))"
    "length (provenance_faults db1) = length (provenance_faults db) + (if m < Suc s then 1 else 0)"
    "pstate p1 = pstate p" "pcfg p1 = pcfg p" "sessionID p1 = sessionID p"
    "pseq p1 = pseq p \<or> pseq p1 = pseq p + 1"
    using onTick_silence [OF _ _ _ _ t] Cons.prems by auto
  have bound: "unat (pseq p1) + length envs \<le> 2 ^ 63"
    using step(6) Cons.prems(7) by (auto simp: unat_word_ariths)
  define s1 where "s1 = (if m < Suc s then 0 else Suc s)"
  have "silentTicks p' = int ((s1 + length envs) mod Suc m) \<and>
    length (provenance_faults db') = length (provenance_faults db1) + (s1 + length envs) div Suc m"
  proof (rule Cons.IH)
    show "IsActive (pstate p1)" "sessionID p1 \<noteq> []" "PMaxSilentTicks (pcfg p1) = int m"
      using Cons.prems(1,2,4) step(3-5) by simp_all
    show "silentTicks p1 = int s1" "s1 \<le> m" using step(1) by (simp_all add: s1_def)
    show "\<forall>env \<in> set envs. te_fault_err env = None" using Cons.prems(3) by simp
    show "run_loop B api (map TickEvent envs) p1 db1 = (p', db')" using Cons.prems(8) t by simp
  qed (rule bound)
  moreover have "(s + length (env # envs)) mod Suc m = (s1 + length envs) mod Suc m"
    "(s + length (env # envs)) div Suc m = (if m < Suc s then 1 else 0) + (s1 + length envs) div Suc m"
    unfolding s1_def list.size(4) using div_mod_step [OF Cons.prems(6), of "length envs"]
    by (cases "m < Suc s"; simp only: if_True if_False add_0 add_0_right plus_1_eq_Suc Suc_eq_plus1)+
  ultimately show ?case using step(2) by presburger
qed auto

text \<open>C13: the silence of the printer is recorded: over any number of active ticks of a session
  without a delta, starting from a reset counter, exactly one provenance fault is recorded for
  every \<open>MaxSilentTicks + 1\<close> ticks (so the first one at tick \<open>MaxSilentTicks + 1\<close>), whether or
  not the packets can be written and whatever the TPM does, and the counter holds the rest.\<close>

theorem silence_faults:
  assumes "IsActive (pstate p)" "sessionID p \<noteq> []" "\<forall>env \<in> set envs. te_fault_err env = None"
    and "PMaxSilentTicks (pcfg p) = int m" "silentTicks p = 0"
    and "unat (pseq p) + length envs \<le> 2 ^ 63"
    and "run_loop B api (map TickEvent envs) p db = (p', db')"
  shows "length (provenance_faults db') = length (provenance_faults db) + length envs div (m + 1) \<and>
    silentTicks p' = int (length envs mod (m + 1))"
  using silent_run [OF assms(1-4), of 0 B api db p' db'] assms(5-7) by simp

theorem silence_faults_witness:
  "length (provenance_faults (snd (run_loop sha256 echo_tpm (map TickEvent (replicate 23 sample_env))
     (sample_start None) empty_database))) = 2"
proof -
  obtain p' db' where r: "run_loop sha256 echo_tpm (map TickEvent (replicate 23 sample_env))
      (sample_start None) empty_database = (p', db')" by fastforce
  have "length (provenance_faults db') = length (provenance_faults empty_database) +
      length (replicate 23 sample_env) div (10 + 1) \<and>
      silentTicks p' = int (length (replicate 23 sample_env) mod (10 + 1))"
    by (rule silence_faults [OF _ _ _ _ _ _ r])
      (simp_all add: sample_start_state del: set_replicate, simp_all add: sample_env_def sample_config_def)
  then show ?thesis using r by (simp add: empty_database_def del: map_replicate)
qed

section \<open>Quotes\<close>

text \<open>C14: a quote attests the packet of its tick: on a tick that is due a quote, with a working
  TPM and database, a quote is recorded for the packet's session and number with the nonce
  derived from the session nonce, the packet's digest, its number and the previous hash; the
  packet is stored with its signature and with a reference to this quote; and
  from then on, until a lifecycle edge or a new session, the next quote is due exactly when
  the quote interval has passed since this tick.\<close>

theorem quote_binds_packet:
  assumes wf: "db_wf db" and faults: "te_quote_err env = None" "te_packet_err env = None" "te_sig_err env = None"
    and tpm: "tpm p = Some w" and due: "shouldQuote (te_now env) p"
    and quote: "Quote api (DeriveQuoteNonce (sessionNonce p) (sha256 canonical) (prevBlake3 p) (pseq p)) w = (Inr qr, w1)"
    and sign: "SignPacket api canonical w1 = (Inr sig, w2)"
    and free: "\<not> seq_taken (sessionID p) (pseq p) db" "unat (pseq p) < 2 ^ 63"
    and seal: "seal_tick B api env decision canonical p db = (p', db')"
  shows "\<exists>q r. quotes db' = quotes db @ [q] \<and> packets db' = packets db @ [r] \<and>
    qt_session_id q = session_id r \<and> qt_seq q = seq r \<and> session_id r = sessionID p \<and> seq r = pseq p \<and>
    nonce q = sha256 (nonce_preimage (sessionNonce p) (sha256 (bytes_of (telemetry_json r))) (prevBlake3 p) (seq r)) \<and>
    tpm_sig r = Some sig \<and> quote_ref r = Some (qt_id q) \<and> lastQuoteID p' = qt_id q \<and>
    \<not> immediateQuote p' \<and>
    (\<not> is_zero_time (te_tick env) \<longrightarrow>
      (\<forall>now. shouldQuote now p' \<longleftrightarrow> quoteInterval p \<le> time_since now (te_tick env)))"
proof -
  let ?nonce = "DeriveQuoteNonce (sessionNonce p) (sha256 canonical) (prevBlake3 p) (pseq p)"
  let ?qid = "quotes_last db + 1"
  let ?qrow = "\<lparr>qt_id = ?qid, qt_session_id = sessionID p, qt_seq = pseq p, pcrs = pcrs_json (PPCRs (pcfg p)),
      nonce = ?nonce, attest_blob = RAttestBlob qr, qt_sig = RSig qr, ak_handle = PAKHandle (pcfg p),
      qt_created_at = rfc3339nano (te_quote_now env)\<rparr>"
  define db1 where "db1 = db\<lparr>quotes := quotes db @ [?qrow], quotes_last := ?qid\<rparr>"
  define p1 where "p1 = p\<lparr>tpm := Some w1, lastQuoteID := ?qid, lastQuoteAt := te_tick env, immediateQuote := False\<rparr>"
  define p2 where "p2 = p1\<lparr>tpm := Some w2\<rparr>"
  have rn: "RNonce qr = ?nonce" using Quote_nonce [OF _ quote] by simp
  have q: "quote_step api env (sha256 canonical) p db = (?qid, p1, db1)"
    using tpm due quote free(2) faults(1) rn
    by (simp add: quote_step_def WriteQuote_def sql_uint_ok_def Let_def db1_def p1_def)
  have s: "sign_step api canonical p1 = (Some sig, p2)" using sign by (simp add: sign_step_def p1_def p2_def)
  define hash where "hash = computePacketBLAKE3 B (pseq p) (sessionID p) canonical (Some sig) (prevBlake3 p)"
  let ?row = "tick_row p env canonical decision (sha256 canonical) hash"
  have frame: "pseq p2 = pseq p" "sessionID p2 = sessionID p" "prevBlake3 p2 = prevBlake3 p" "tick_row p2 = tick_row p"
    by (simp_all add: p2_def p1_def tick_row_def fun_eq_iff)
  have "\<not> seq_taken (RowSessionID ?row) (RowSeq ?row) db1" "unat (RowSeq ?row) < 2 ^ 63"
    using free by (simp_all add: db1_def seq_taken_def tick_row_def)
  note w = WritePacket_ok [OF this]
  let ?i = "packets_last db + 1"
  let ?r = "packet_columns ?i ?row"
  have ids: "pk_id r \<noteq> ?i" if "r \<in> set (packets db)" for r
    using that wf by (force simp: db_wf_def ids_ok_def)
  have "map (\<lambda>r. if pk_id r = ?i then r\<lparr>tpm_sig := Some sig, quote_ref := Some ?qid\<rparr> else r) (packets db) = packets db"
    by (rule map_idI) (use ids in auto)
  then have eq: "(p', db') = (p2\<lparr>prevBlake3 := Some hash, pseq := pseq p + 1\<rparr>,
      db1\<lparr>packets := packets db @ [?r\<lparr>tpm_sig := Some sig, quote_ref := Some ?qid\<rparr>], packets_last := ?i\<rparr>)"
    using seal faults(2,3) w frame
    by (auto simp: seal_tick_def q s hash_def [symmetric] Let_def SetTPMSig_def db1_def packet_columns_def)
  have "(\<forall>now. shouldQuote now p' \<longleftrightarrow> quoteInterval p \<le> time_since now (te_tick env))"
    if "\<not> is_zero_time (te_tick env)"
    using that eq by (simp add: shouldQuote_def p2_def p1_def)
  then show ?thesis
    using eq by (intro exI [of _ ?qrow] exI [of _ "?r\<lparr>tpm_sig := Some sig, quote_ref := Some ?qid\<rparr>"])
      (simp add: db1_def p2_def p1_def packet_columns_def tick_row_def DeriveQuoteNonce_def)
qed

theorem quote_binds_packet_witness:
  "\<exists>r. packets (snd (seal_tick sha256 echo_tpm sample_env None [123, 125] (sample_start (Some sample_worker))
      empty_database)) = [r] \<and> quote_ref r = Some 1"
proof -
  let ?p = "sample_start (Some sample_worker)"
  let ?n = "DeriveQuoteNonce (sessionNonce ?p) (sha256 [123, 125]) (prevBlake3 ?p) (pseq ?p)"
  obtain p' db' where s: "seal_tick sha256 echo_tpm sample_env None [123, 125] ?p empty_database = (p', db')"
    by fastforce
  have due: "shouldQuote (te_now sample_env) ?p" by (simp add: shouldQuote_def sample_start_state)
  have q: "Quote echo_tpm ?n sample_worker = (Inr \<lparr>RNonce = ?n, RAttestBlob = ?n, RSig = []\<rparr>, sample_worker)"
    by (simp add: Quote_def echo_tpm_def sample_worker_def Let_def)
  have g: "SignPacket echo_tpm [123, 125] sample_worker = (Inr (sha256 [123, 125]), sample_worker)"
    by (simp add: SignPacket_def echo_tpm_def sample_worker_def)
  have "\<not> seq_taken (sessionID ?p) (pseq ?p) empty_database" "unat (pseq ?p) < 2 ^ 63"
    by (simp_all add: seq_taken_def empty_database_def sample_start_state)
  note quote_binds_packet [OF db_wf_empty _ _ _ sample_start_state(5) due q g this s]
  then obtain qt r where "quotes db' = quotes empty_database @ [qt]" "packets db' = packets empty_database @ [r]"
    "quote_ref r = Some (qt_id qt)" "lastQuoteID p' = qt_id qt"
    by (auto simp: sample_env_def)
  moreover have "lastQuoteID p' = 1"
    using s due q g by (auto simp: seal_tick_def quote_step_def sign_step_def sample_start_state WriteQuote_def
        sql_uint_ok_def sample_env_def empty_database_def Let_def split: prod.splits sum.splits)
  ultimately show ?thesis using s by (simp add: empty_database_def)
qed

section \<open>The policy engine in the daemon\<close>

lemma Evaluate_null: "profile e = None \<Longrightarrow> Evaluate t e = (\<lparr>DPass = True, DProfileID = ''null'', DViolations = []\<rparr>, e)"
  by (simp add: Evaluate_def)

lemma prepare_null:
  assumes "profile (policy p) = None" "prepare env p db = (p1, db1, decision)"
  shows "decision = None" "profile (policy p1) = None"
proof -
  let ?q = "if sessionID p = [] then startNewSession (te_rand env) p else p"
  have "policy ?q = policy p" by (simp add: startNewSession_def)
  then have "policy (fst (silence_step env ?q db)) = policy p" by (simp only: silence_step_frame)
  then show "decision = None" "profile (policy p1) = None"
    using assms by (auto simp: prepare_def Let_def Evaluate_null tick_decision_def split: prod.splits)
qed

lemma policy_applyDelta [simp]: "policy (applyDelta rnd d p) = policy p"
proof -
  have "policy (apply_object rnd obj raw p) = policy p" for obj raw and p :: "'a Packetizer"
    by (simp add: apply_object_def Let_def detectLifecycleEdge_def startNewSession_def
        scheduleImmediateQuote_def split: prod.split bool.split)
  then have "policy (apply_objects rnd ms p) = policy p" for ms and p :: "'a Packetizer"
    by (induction rnd ms p rule: apply_objects.induct) simp_all
  then show ?thesis by (simp add: applyDelta_def)
qed

lemma seal_tick_anomaly:
  assumes "seal_tick B api env None canonical p db = (p', db')" "\<forall>r \<in> set (packets db). anomaly_extruder r = 0"
  shows "\<forall>r \<in> set (packets db'). anomaly_extruder r = 0"
proof (rule seal_tick_cases [of api env canonical p db B None])
  fix q p1 sig p2 db1 i db2 hash
  assume q: "quote_step api env (sha256 canonical) p db = (q, p1, db1)"
    and w: "WritePacket (te_packet_err env) (tick_row p env canonical None (sha256 canonical) hash) db1 = (Inr i, db2)"
    and eq: "seal_tick B api env None canonical p db = (p2\<lparr>prevBlake3 := Some hash, pseq := pseq p + 1\<rparr>,
          case sig of None \<Rightarrow> db2 | Some s \<Rightarrow> snd (SetTPMSig (te_sig_err env) i (Some s) q db2))"
  have "packets db2 = packets db @ [packet_columns i (tick_row p env canonical None (sha256 canonical) hash)]"
    using w quote_step_frame(12) [OF q] by (auto simp: WritePacket_def Let_def split: option.splits if_splits)
  then have "\<forall>r \<in> set (packets db2). anomaly_extruder r = 0"
    using assms(2) by (simp add: packet_columns_def tick_row_def boolInt_def)
  then show ?thesis using assms(1) eq SetTPMSig_rows by (fastforce split: option.splits)
next
  fix q p1 sig p2 db1 e hash
  assume q: "quote_step api env (sha256 canonical) p db = (q, p1, db1)"
    and eq: "seal_tick B api env None canonical p db = (p2, db1)"
  then show ?thesis using assms quote_step_frame(12) [OF q] by simp
qed

lemma onTick_null:
  assumes "profile (policy p) = None" "\<forall>r \<in> set (packets db). anomaly_extruder r = 0"
    and "onTick B api env p db = (p', db')"
  shows "profile (policy p') = None \<and> (\<forall>r \<in> set (packets db'). anomaly_extruder r = 0)"
proof (cases "IsActive (pstate p)")
  case True
  obtain p1 db1 decision where pr: "prepare env p db = (p1, db1, decision)" by (metis prod_cases3)
  note null = prepare_null [OF assms(1) pr]
  have db1: "\<forall>r \<in> set (packets db1). anomaly_extruder r = 0" using assms(2) prepare_frame(4) [OF pr] by simp
  show ?thesis
  proof (cases "marshal_packet (build_packet p1 (pstate p) (te_tick env) (te_mono env) decision)")
    case (Inl e)
    then show ?thesis using assms(3) onTick_active [OF True pr, of B api] null db1 by auto
  next
    case (Inr c)
    then have "seal_tick B api env None c p1 db1 = (p', db')"
      using assms(3) onTick_active [OF True pr, of B api] null by simp
    from seal_tick_frame(3) [OF this] seal_tick_anomaly [OF this db1] null show ?thesis by simp
  qed
next
  case False
  then show ?thesis using assms by (simp add: onTick_idle)
qed

text \<open>C38: the packetizer never has a profile: \<open>NewPacketizer\<close> creates the evaluator, the struct is
  its only owner and no handler loads a profile, so in every run the evaluator stays empty,
  every packet is built without a decision, and no row is ever flagged as anomalous, whatever
  the printer reports.\<close>

theorem policy_never_active:
  assumes "run_loop B api es (NewPacketizer cfg t) db = (p', db')"
    and "\<forall>r \<in> set (packets db). anomaly_extruder r = 0"
  shows "profile (policy p') = None \<and> (\<forall>r \<in> set (packets db'). anomaly_extruder r = 0) \<and>
    (\<forall>env. snd (snd (prepare env p' db')) = None)"
proof -
  have "profile (policy p) = None \<and> (\<forall>r \<in> set (packets db). anomaly_extruder r = 0) \<Longrightarrow>
      run_loop B api es p db = (p', db') \<Longrightarrow>
      profile (policy p') = None \<and> (\<forall>r \<in> set (packets db'). anomaly_extruder r = 0)" for p :: "'a Packetizer" and db
  proof (induction B api es p db rule: run_loop.induct)
    case (5 B api env es p db)
    obtain p1 db1 where t: "onTick B api env p db = (p1, db1)" by fastforce
    have "run_loop B api es p1 db1 = (p', db')" using "5.prems"(2) t by simp
    with onTick_null [OF _ _ t] "5.prems"(1) show ?case by (intro "5.IH" [OF t [symmetric] refl]) simp_all
  qed auto
  from this [OF _ assms(1)] assms(2)
  have inv: "profile (policy p') = None \<and> (\<forall>r \<in> set (packets db'). anomaly_extruder r = 0)"
    by (simp add: NewPacketizer_def NewEvaluator_def)
  moreover have "snd (snd (prepare env p' db')) = None" for env
    using prepare_null(1) [of p' env db'] inv by (metis prod.collapse)
  ultimately show ?thesis by simp
qed

theorem policy_never_active_witness:
  "profile (policy (fst (run_loop sha256 echo_tpm [Delta sample_rand sample_delta, TickEvent sample_env]
     (NewPacketizer sample_config None) empty_database))) = None"
proof -
  obtain p' db' where "run_loop sha256 echo_tpm [Delta sample_rand sample_delta, TickEvent sample_env]
     (NewPacketizer sample_config None) empty_database = (p', db')" by fastforce
  with policy_never_active [OF this] show ?thesis by (simp add: empty_database_def)
qed

end
