(* ===== verification/Json_Text.thy ===== *)
theory Json_Text
  imports Telemetry
begin

text \<open>
  The text of a JSON object delimits itself: a scan that counts brackets outside strings stops
  exactly at its end, whatever follows. So in a message that starts with a marshalled
  packet, the packet can be told from what comes after it.
\<close>

section \<open>The scan\<close>

datatype mode = Out | In | Esc

text \<open>The rest of the text after the bracket that closes the outermost open one.\<close>

fun skim :: "nat \<Rightarrow> mode \<Rightarrow> string \<Rightarrow> string option" where
  "skim d m [] = None"
| "skim d Out (c # s) =
     (if c = CHR 0x22 then skim d In s
      else if c = CHR ''{'' \<or> c = CHR ''['' then skim (Suc d) Out s
      else if c = CHR ''}'' \<or> c = CHR '']'' then (if d \<le> 1 then Some s else skim (d - 1) Out s)
      else skim d Out s)"
| "skim d In (c # s) =
     (if c = CHR 0x22 then skim d Out s else if c = CHR 0x5C then skim d Esc s else skim d In s)"
| "skim d Esc (c # s) = skim d In s"

definition plain :: "char \<Rightarrow> bool" where
  "plain c \<longleftrightarrow> c \<notin> {CHR 0x22, CHR ''{'', CHR ''['', CHR ''}'', CHR '']''}"

lemma skim_plain: "list_all plain l \<Longrightarrow> skim d Out (l @ r) = skim d Out r"
  by (induction l) (auto simp: plain_def)

lemma skim_inside:
  "(\<And>c. c \<in> set l \<Longrightarrow> c \<noteq> CHR 0x22 \<and> c \<noteq> CHR 0x5C) \<Longrightarrow> skim d In (l @ r) = skim d In r"
  by (induction l) auto

section \<open>Strings\<close>

lemma hex_digit_inside: "d < 16 \<Longrightarrow> hex_digit d \<noteq> CHR 0x22 \<and> hex_digit d \<noteq> CHR 0x5C"
  using from_hex_hex_digit [of d] by (auto simp: from_hex_char_def)

lemma skim_u_escape: "skim d In (u_escape n @ r) = skim d In r"
  by (simp add: u_escape_def hex_digit_inside)

lemma skim_quote_ascii: "skim d In (quote_ascii c @ r) = skim d In r"
  by (auto simp: quote_ascii_def skim_u_escape)

lemma utf8_len_high: "x \<in> set (take (utf8_len s) s) \<Longrightarrow> 128 \<le> ch x"
proof (cases s rule: utf8_len.cases)
  case (1 a b t)
  assume x: "x \<in> set (take (utf8_len s) s)"
  consider "194 \<le> ch a" "ch a \<le> 223" | "224 \<le> ch a" "ch a \<le> 239" | "240 \<le> ch a" "ch a \<le> 244" | "utf8_len s = 0"
    using 1 by fastforce
  then show ?thesis
  proof cases
    case 1
    with x \<open>s = a # b # t\<close> show ?thesis by (auto simp: cont_def split: if_splits)
  next
    case 2
    with x \<open>s = a # b # t\<close> show ?thesis by (cases t) (auto simp: cont_def split: if_splits)
  next
    case 3
    show ?thesis
    proof (cases t)
      case (Cons c u)
      with 3 x \<open>s = a # b # t\<close> show ?thesis by (cases u) (auto simp: cont_def split: if_splits)
    qed (use 3 x \<open>s = a # b # t\<close> in auto)
  next
    case 4
    with x show ?thesis by simp
  qed
qed auto

lemma high_inside: "128 \<le> ch c \<Longrightarrow> c \<noteq> CHR 0x22 \<and> c \<noteq> CHR 0x5C"
  by auto

lemma skim_quote: "skim d In (json_quote s @ r) = skim d In r"
proof (induction s rule: json_quote.induct)
  case (2 c s)
  have "skim d In (take (utf8_len (c # s)) (c # s) @ t) = skim d In t" for t
    by (rule skim_inside) (use utf8_len_high high_inside in blast)
  with 2 show ?case
    by (auto simp: skim_quote_ascii skim_u_escape simp del: utf8_len.simps split: option.split)
qed simp

lemma skim_string: "skim d Out (json_string s @ r) = skim d Out r"
  by (simp add: json_string_def skim_quote)

section \<open>Values\<close>

fun plain_json :: "json \<Rightarrow> bool" where
  "plain_json (JNum l) = list_all plain l"
| "plain_json (JArr xs) = (\<forall>x \<in> set xs. plain_json x)"
| "plain_json (JObj ms) = (\<forall>m \<in> set ms. plain_json (snd m))"
| "plain_json _ = True"

lemma skim_join:
  "(\<And>x r. x \<in> set xs \<Longrightarrow> skim d Out (x @ r) = skim d Out r) \<Longrightarrow>
     skim d Out (join '','' xs @ r) = skim d Out r"
  by (induction "('','')" xs rule: join.induct) auto

lemma skim_value: "plain_json j \<Longrightarrow> 0 < d \<Longrightarrow> skim d Out (json_print j @ r) = skim d Out r"
proof (induction j arbitrary: d r)
  case (JArr xs)
  have "skim (Suc d) Out (join '','' (map json_print xs) @ '']'' @ r) = skim (Suc d) Out ('']'' @ r)"
    by (rule skim_join) (use JArr in auto)
  with JArr.prems show ?case by simp
next
  case (JObj ms)
  have "skim (Suc d) Out (join '','' (map (\<lambda>(k, v). json_string k @ '':'' @ json_print v) ms) @ ''}'' @ r) =
      skim (Suc d) Out (''}'' @ r)"
    by (rule skim_join) (use JObj in \<open>fastforce simp: skim_string\<close>)
  with JObj.prems show ?case by simp
qed (simp_all add: skim_plain skim_string)

lemma skim_object: "plain_json (JObj ms) \<Longrightarrow> skim 0 Out (json_print (JObj ms) @ r) = Some r"
proof -
  assume "plain_json (JObj ms)"
  then have "skim 1 Out (join '','' (map (\<lambda>(k, v). json_string k @ '':'' @ json_print v) ms) @ ''}'' @ r) =
      skim 1 Out (''}'' @ r)"
    by (intro skim_join) (fastforce simp: skim_string skim_value)
  then show ?thesis by simp
qed

lemma object_prefix_free:
  assumes "plain_json (JObj ms)" "plain_json (JObj ms')"
    and "json_print (JObj ms) @ r = json_print (JObj ms') @ r'"
  shows "json_print (JObj ms) = json_print (JObj ms') \<and> r = r'"
proof -
  have "Some r = Some r'" using skim_object assms by metis
  with assms(3) show ?thesis by simp
qed

section \<open>The marshalled packet\<close>

lemma plain_digit: "is_digit c \<Longrightarrow> plain c"
  by (auto simp: is_digit_def plain_def)

lemma plain_dec_nat [simp]: "list_all plain (dec_nat n)"
  using dec_nat_digits plain_digit by (auto simp: list_all_iff)

lemma plain_dec_int [simp]: "list_all plain (dec_int i)"
  by (simp add: dec_int_def plain_def)

lemma plain_take_drop: "list_all P xs \<Longrightarrow> list_all P (take n xs) \<and> list_all P (drop n xs)"
  by (auto simp: list_all_iff dest: in_set_takeD in_set_dropD)

lemma plain_zeros: "list_all plain (replicate n (CHR ''0''))"
  by (induction n) (simp_all add: plain_def)

lemma plain_chars [simp]:
  "plain (CHR ''0'')" "plain (CHR ''.'')" "plain (CHR ''e'')" "plain (CHR ''-'')" "plain (CHR ''+'')"
  by (simp_all add: plain_def)

lemma plain_layout_f: "list_all plain ds \<Longrightarrow> list_all plain (layout_f ds dp)"
  by (simp add: layout_f_def plain_take_drop plain_zeros)

lemma plain_layout_e: "list_all plain ds \<Longrightarrow> list_all plain (layout_e ds dp)"
  using plain_take_drop [of plain ds 1] by (simp add: layout_e_def)

lemma plain_fmt_mag: "list_all plain (fmt_mag m)"
proof -
  have "list_all plain (strip0 (dec_nat c))" for c
    using plain_dec_nat [of c] by (auto simp: list_all_iff dest: set_dropWhileD)
  then show ?thesis
    by (simp add: fmt_mag_def Let_def plain_layout_e plain_layout_f del: strip0.simps split: option.split)
qed

lemma plain_fmt_json: "fmt_json x = Some l \<Longrightarrow> list_all plain l"
  by (auto simp: fmt_json_def plain_fmt_mag split: if_splits)

lemma all_some_set: "all_some xs = Some ys \<Longrightarrow> y \<in> set ys \<Longrightarrow> Some y \<in> set xs"
  by (induction xs arbitrary: ys rule: all_some.induct) auto

definition plain_members :: "(string \<times> json) list \<Rightarrow> bool" where
  "plain_members ms \<longleftrightarrow> (\<forall>m \<in> set ms. plain_json (snd m))"

lemma plain_member [simp]: "plain_members (json_member k v) = plain_json v"
  by (simp add: plain_members_def json_member_def)

lemma plain_omit_if: "plain_json v \<Longrightarrow> plain_members (omit_if b k v)"
  by (simp add: plain_members_def omit_if_def)

lemma plain_float_json: "float_json x = Some j \<Longrightarrow> plain_json j"
  by (auto simp: float_json_def plain_fmt_json)

lemma plain_float_member: "float_member k x = Some m \<Longrightarrow> plain_members m"
  by (auto simp: float_member_def plain_float_json)

lemma plain_slice_json: "slice_json s = Some j \<Longrightarrow> plain_json j"
  by (auto simp: slice_json_def plain_float_json dest: all_some_set split: slice.splits) 
    (metis all_some_set imageE list.set_map plain_float_json)

lemma plain_bytes_member: "plain_members (bytes_member k b)"
  by (simp add: bytes_member_def plain_omit_if)

lemma plain_decision: "plain_json (decision_json d)"
  by (auto simp: decision_json_def json_member_def omit_if_def)

lemma plain_packet_members: "Some m \<in> set (packet_members p) \<Longrightarrow> plain_members m"
proof -
  have nil: "plain_members []" by (simp add: plain_members_def)
  have "list_all (\<lambda>x. \<forall>m. x = Some m \<longrightarrow> plain_members m) (packet_members p)"
    unfolding packet_members_def
    by (simp add: plain_float_member plain_bytes_member plain_omit_if nil plain_decision split: option.split)
      (auto simp: plain_slice_json)
  then show "Some m \<in> set (packet_members p) \<Longrightarrow> ?thesis" by (auto simp: list_all_iff)
qed

lemma marshal_object:
  assumes "marshal_packet p = Inr c"
  shows "\<exists>ms. plain_json (JObj ms) \<and> c = bytes_of (json_print (JObj ms))"
proof -
  obtain mss where mss: "all_some (packet_members p) = Some mss" "c = bytes_of (json_print (JObj (concat mss)))"
    using assms by (auto simp: marshal_packet_def packet_json_def split: option.splits)
  have "plain_members m" if "m \<in> set mss" for m
    using plain_packet_members all_some_set [OF mss(1) that] by blast
  then have "plain_json (JObj (concat mss))" by (auto simp: plain_members_def)
  with mss(2) show ?thesis by blast
qed

text \<open>A marshalled packet at the start of a message can be told from what follows it.\<close>

lemma marshal_prefix_free:
  assumes "marshal_packet p = Inr c" "marshal_packet p' = Inr c'" "c @ r = c' @ r'"
  shows "c = c' \<and> r = r'"
proof -
  obtain ms ms' where ms: "plain_json (JObj ms)" "c = bytes_of (json_print (JObj ms))"
    "plain_json (JObj ms')" "c' = bytes_of (json_print (JObj ms'))"
    using marshal_object assms(1,2) by metis
  have "string_of (a @ b) = string_of a @ string_of b" for a b by (simp add: string_of_def)
  then have "json_print (JObj ms) @ string_of r = json_print (JObj ms') @ string_of r'"
    using arg_cong [OF assms(3), of string_of] ms by (simp del: json_print.simps)
  from object_prefix_free [OF ms(1,3) this] ms assms(3) show ?thesis by simp
qed

end
