(* ===== verification/Custody_Tamper.thy ===== *)
theory Custody_Tamper
  imports Custody_Evidence Json_Text
begin

text \<open>
  Tamper evidence of the custody chain: the hash of the last packet of a session commits to all of
  them. The messages that are hashed are concatenations without lengths; what makes them
  unambiguous is that the number and the session id have fixed widths, that the JSON text delimits
  itself, and that the previous hash has a fixed width and is missing exactly at number 0.
\<close>

section \<open>One message\<close>

lemma packet_preimage_inject:
  assumes "length sid = length sid'" "marshal_packet pkt = Inr c" "marshal_packet pkt' = Inr c'"
    and "length (opt_bytes prev) = length (opt_bytes prev')"
    and "packet_preimage n sid c sig prev = packet_preimage n' sid' c' sig' prev'"
  shows "n = n' \<and> sid = sid' \<and> c = c' \<and> opt_bytes sig = opt_bytes sig' \<and> opt_bytes prev = opt_bytes prev'"
proof -
  have "le64 n = le64 n' \<and> bytes_of sid @ (c @ opt_bytes sig @ opt_bytes prev) =
      bytes_of sid' @ (c' @ opt_bytes sig' @ opt_bytes prev')"
    using assms(5) by (simp add: packet_preimage_def)
  then have "n = n'" "sid = sid'" "c @ (opt_bytes sig @ opt_bytes prev) = c' @ (opt_bytes sig' @ opt_bytes prev')"
    using assms(1) by simp_all
  moreover from marshal_prefix_free [OF assms(2,3) this(3)]
  have "c = c'" "opt_bytes sig @ opt_bytes prev = opt_bytes sig' @ opt_bytes prev'" by simp_all
  ultimately show ?thesis using assms(4) by simp
qed

section \<open>Chains of rows\<close>

definition session_rows :: "database \<Rightarrow> string \<Rightarrow> packet_row list" where
  "session_rows db s = filter (\<lambda>r. session_id r = s) (packets db)"

lemma chain_session_rows:
  "chain db s = map (\<lambda>r. \<lparr>link_seq = seq r, link_prev = prev_packet_blake3 r,
     link_hash = packet_blake3 r\<rparr>) (session_rows db s)"
  by (simp add: chain_def session_rows_def)

text \<open>The messages whose digests a list of rows stores.\<close>

definition row_messages :: "(bytes \<Rightarrow> bytes) \<Rightarrow> packet_row list \<Rightarrow> bytes set" where
  "row_messages B rows =
     {packet_preimage (seq r) (session_id r) (bytes_of (telemetry_json r)) sig prev | r sig prev.
        r \<in> set rows \<and> prev_packet_blake3 r = hexOrNil prev \<and>
        packet_blake3 r = Some (hex_encode (B (packet_preimage (seq r) (session_id r)
          (bytes_of (telemetry_json r)) sig prev)))}"

text \<open>A verified chain: rows of one session, numbered from 0, linked, each row verifying.\<close>

definition verified_chain :: "(bytes \<Rightarrow> bytes) \<Rightarrow> string \<Rightarrow> packet_row list \<Rightarrow> bool" where
  "verified_chain B s rows \<longleftrightarrow>
     (\<forall>r \<in> set rows. session_id r = s \<and> row_verifies B r) \<and>
     gap_free (map (\<lambda>r. \<lparr>link_seq = seq r, link_prev = prev_packet_blake3 r, link_hash = packet_blake3 r\<rparr>) rows)"

lemma verified_chain_snoc:
  "verified_chain B s (rows @ [r]) \<longleftrightarrow>
     verified_chain B s rows \<and> session_id r = s \<and> row_verifies B r \<and> unat (seq r) = length rows \<and>
     packet_blake3 r \<noteq> None \<and>
     prev_packet_blake3 r = (if rows = [] then None else packet_blake3 (last rows))"
  by (auto simp: verified_chain_def gap_free_snoc last_map)

lemma row_messages_mono: "set rows \<subseteq> set rows' \<Longrightarrow> row_messages B rows \<subseteq> row_messages B rows'"
  unfolding row_messages_def by blast

lemma hexOrNil_inject [simp]: "hexOrNil a = hexOrNil b \<longleftrightarrow> a = b"
  by (cases a; cases b) simp_all

lemma row_verifies_message:
  assumes "row_verifies B r" "session_id r = s" "r \<in> set rows"
  shows "\<exists>pkt sig prev. marshal_packet pkt = Inr (bytes_of (telemetry_json r)) \<and>
    prev_packet_blake3 r = hexOrNil prev \<and>
    packet_blake3 r = Some (hex_encode (B (packet_preimage (seq r) s (bytes_of (telemetry_json r)) sig prev))) \<and>
    packet_preimage (seq r) s (bytes_of (telemetry_json r)) sig prev \<in> row_messages B rows"
  using assms unfolding row_verifies_def row_messages_def computePacketBLAKE3_def by blast

text \<open>The previous hash of a verified row has the width of a digest, or is missing at number 0.\<close>

lemma prev_width:
  assumes "digest B" "verified_chain B s (rows @ [r])" "prev_packet_blake3 r = hexOrNil prev"
  shows "length (opt_bytes prev) = (if rows = [] then 0 else 32)"
proof (cases rows rule: rev_cases)
  case Nil
  with assms(2) have "prev_packet_blake3 r = hexOrNil None" by (simp add: verified_chain_snoc [of B s "[]", simplified])
  then have "prev = None" using assms(3) hexOrNil_inject by metis
  then show ?thesis using Nil by simp
next
  case (snoc rows' q)
  with assms(2) have "row_verifies B q" "prev_packet_blake3 r = packet_blake3 q"
    using verified_chain_snoc [of B s rows r] verified_chain_snoc [of B s rows' q] by simp_all
  then obtain m where "hexOrNil prev = Some (hex_encode (B m))"
    using assms(3) row_verifies_message [of B q _ "[q]"] by auto
  then have "prev = Some (B m)" by (metis hexOrNil_Some hexOrNil_inject)
  then show ?thesis using snoc digest.H_length [OF assms(1)] by simp
qed

section \<open>The head commits to the chain\<close>

text \<open>One link: the hash of a row commits to its number, session, JSON and previous hash.\<close>

lemma last_row_commits:
  assumes "digest B" "length s = length s'"
    and "verified_chain B s (rows @ [r])" "verified_chain B s' (rest @ [q])" "packet_blake3 r = packet_blake3 q"
  shows "(s = s' \<and> seq r = seq q \<and> telemetry_json r = telemetry_json q \<and> length rows = length rest \<and>
      prev_packet_blake3 r = prev_packet_blake3 q) \<or>
    (\<exists>x \<in> row_messages B (rows @ [r]). \<exists>y \<in> row_messages B (rest @ [q]). collision B x y)"
proof -
  have vr: "session_id r = s" "row_verifies B r" "unat (seq r) = length rows"
      "prev_packet_blake3 r = (if rows = [] then None else packet_blake3 (last rows))"
    and vq: "session_id q = s'" "row_verifies B q" "unat (seq q) = length rest"
      "prev_packet_blake3 q = (if rest = [] then None else packet_blake3 (last rest))"
    using assms(3,4) by (simp_all add: verified_chain_snoc)
  obtain pkt sig prev where r: "marshal_packet pkt = Inr (bytes_of (telemetry_json r))"
    "prev_packet_blake3 r = hexOrNil prev"
    "packet_blake3 r = Some (hex_encode (B (packet_preimage (seq r) s (bytes_of (telemetry_json r)) sig prev)))"
    "packet_preimage (seq r) s (bytes_of (telemetry_json r)) sig prev \<in> row_messages B (rows @ [r])"
    using row_verifies_message [OF vr(2,1), of "rows @ [r]"] by auto
  obtain pkt' sig' prev' where q: "marshal_packet pkt' = Inr (bytes_of (telemetry_json q))"
    "prev_packet_blake3 q = hexOrNil prev'"
    "packet_blake3 q = Some (hex_encode (B (packet_preimage (seq q) s' (bytes_of (telemetry_json q)) sig' prev')))"
    "packet_preimage (seq q) s' (bytes_of (telemetry_json q)) sig' prev' \<in> row_messages B (rest @ [q])"
    using row_verifies_message [OF vq(2,1), of "rest @ [q]"] by auto
  let ?x = "packet_preimage (seq r) s (bytes_of (telemetry_json r)) sig prev"
  let ?y = "packet_preimage (seq q) s' (bytes_of (telemetry_json q)) sig' prev'"
  have same: "B ?x = B ?y" using assms(5) r(3) q(3) by simp
  show ?thesis
  proof (cases "?x = ?y")
    case True
    then have "le64 (seq r) = le64 (seq q)" by (simp add: packet_preimage_def)
    then have len: "length rows = length rest" using vr(3) vq(3) by simp
    note width = prev_width [OF assms(1,3) r(2)] prev_width [OF assms(1,4) q(2)]
    have "length (opt_bytes prev) = length (opt_bytes prev')" using width len by (metis length_0_conv)
    note inject = packet_preimage_inject [OF assms(2) r(1) q(1) this True]
    have "opt_bytes prev = opt_bytes prev'" using inject by simp
    then have "prev_packet_blake3 r = prev_packet_blake3 q"
    proof (cases "rows = []")
      case True
      then show ?thesis using vr(4) vq(4) len by simp
    next
      case False
      then have "prev \<noteq> None" "prev' \<noteq> None"
        using width len by (cases prev; cases prev'; simp split: if_splits)+
      then show ?thesis using \<open>opt_bytes prev = opt_bytes prev'\<close> r(2) q(2) by auto
    qed
    then show ?thesis using inject len by simp
  qed (use same r(4) q(4) in \<open>auto simp: collision_def\<close>)
qed

lemma head_commits:
  assumes "digest B" "length s = length s'"
    and "verified_chain B s rows" "verified_chain B s' rows'" "rows \<noteq> []" "rows' \<noteq> []"
    and "packet_blake3 (last rows) = packet_blake3 (last rows')"
  shows "(s = s' \<and> map (\<lambda>r. (seq r, telemetry_json r)) rows = map (\<lambda>r. (seq r, telemetry_json r)) rows') \<or>
    (\<exists>x \<in> row_messages B rows. \<exists>y \<in> row_messages B rows'. collision B x y)"
  using assms(3-)
proof (induction rows arbitrary: rows' rule: rev_induct)
  case (snoc r rows)
  then obtain q rest where rows': "rows' = rest @ [q]" by (metis rev_exhaust)
  have vr: "verified_chain B s rows" "prev_packet_blake3 r = (if rows = [] then None else packet_blake3 (last rows))"
    and vq: "verified_chain B s' rest" "prev_packet_blake3 q = (if rest = [] then None else packet_blake3 (last rest))"
    using snoc.prems(1,2) unfolding rows' by (simp_all add: verified_chain_snoc)
  consider "s = s'" "seq r = seq q" "telemetry_json r = telemetry_json q" "length rows = length rest"
      "prev_packet_blake3 r = prev_packet_blake3 q"
    | x y where "x \<in> row_messages B (rows @ [r])" "y \<in> row_messages B rows'" "collision B x y"
    using last_row_commits [OF assms(1,2) snoc.prems(1) snoc.prems(2) [unfolded rows']] snoc.prems(5)
    unfolding rows' by auto
  then show ?case
  proof cases
    case 1
    show ?thesis
    proof (cases "rows = []")
      case False
      then have "rest \<noteq> []" using 1(4) by auto
      with False have "(s = s' \<and> map (\<lambda>r. (seq r, telemetry_json r)) rows = map (\<lambda>r. (seq r, telemetry_json r)) rest) \<or>
          (\<exists>x \<in> row_messages B rows. \<exists>y \<in> row_messages B rest. collision B x y)"
        using snoc.IH [OF vr(1) vq(1)] 1(5) vr(2) vq(2) by simp
      then show ?thesis
        using row_messages_mono [of rows "rows @ [r]" B] row_messages_mono [of rest rows' B] 1 rows' by auto
    qed (use 1 rows' in simp)
  qed blast
qed simp

text \<open>C3: the hash of the last packet commits to the whole session: take two ledgers and a session
  in each whose rows verify (JSON, digest, chain hash) and are numbered and linked without gap. If the
  hashes of the two last rows are equal, then the sessions are the same packet by packet, number
  and JSON, or two of the hashed messages of the two sessions are a collision of BLAKE3. So
  changing, dropping, inserting or reordering packets changes the head.\<close>

theorem chain_tamper_evident:
  assumes B: "\<And>m. length (B m) = 32" and "length s = length s'"
    and "\<forall>r \<in> set (session_rows db s). row_verifies B r" "\<forall>r \<in> set (session_rows db' s'). row_verifies B r"
    and "gap_free (chain db s)" "gap_free (chain db' s')"
    and "session_rows db s \<noteq> []" "session_rows db' s' \<noteq> []"
    and "packet_blake3 (last (session_rows db s)) = packet_blake3 (last (session_rows db' s'))"
  shows "(s = s' \<and> map (\<lambda>r. (seq r, telemetry_json r)) (session_rows db s) =
        map (\<lambda>r. (seq r, telemetry_json r)) (session_rows db' s')) \<or>
    (\<exists>x \<in> row_messages B (session_rows db s). \<exists>y \<in> row_messages B (session_rows db' s'). collision B x y)"
proof (rule head_commits)
  show "digest B" by unfold_locales (rule B)
  show "verified_chain B s (session_rows db s)" "verified_chain B s' (session_rows db' s')"
    using assms(3-6) by (auto simp: verified_chain_def chain_session_rows) (auto simp: session_rows_def)
qed (use assms in simp_all)

theorem chain_tamper_evident_witness:
  "(let db = snd (onTick sha256 echo_tpm sample_env (sample_start None) empty_database);
        s = hex_encode (filled 16 [1, 2, 3]) in
    session_rows db s \<noteq> [] \<and>
    ((s = s \<and> map (\<lambda>r. (seq r, telemetry_json r)) (session_rows db s) =
        map (\<lambda>r. (seq r, telemetry_json r)) (session_rows db s)) \<or>
    (\<exists>x \<in> row_messages sha256 (session_rows db s). \<exists>y \<in> row_messages sha256 (session_rows db s).
       collision sha256 x y)))"
proof -
  let ?p = "sample_start None"
  let ?s = "hex_encode (filled 16 [1, 2, 3])"
  obtain p' db where t: "onTick sha256 echo_tpm sample_env ?p empty_database = (p', db)" by fastforce
  have run: "run_loop sha256 echo_tpm [Delta sample_rand sample_delta] (NewPacketizer sample_config None) empty_database
      = (?p, empty_database)" by (simp add: sample_start_def)
  have "in_position (NewPacketizer sample_config None :: unit Packetizer) empty_database"
    by (rule in_position_NewPacketizer) simp
  from in_position_run_loop [OF this run] have pos: "in_position ?p empty_database" .
  have gf: "gap_free (chain db ?s)" using in_position_onTick [OF pos t] by (simp add: in_position_def)
  have "\<forall>r \<in> set (packets db). row_sealed echo_tpm sha256 r"
    using onTick_sealed [OF db_wf_empty t] by (auto simp: empty_database_def)
  then have v: "\<forall>r \<in> set (session_rows db ?s). row_verifies sha256 r"
    by (auto simp: session_rows_def intro: row_sealed_verifies)
  have ne: "session_rows db ?s \<noteq> []" using in_position_onTick [OF pos t] sample_tick [OF t]
    by (auto simp: in_position_def ledger.at_end_def chain_session_rows)
  show ?thesis using chain_tamper_evident [OF length_sha256 refl v v gf gf ne ne refl] ne t
    unfolding Let_def by simp
qed

end
