(* ===== verification/Moonraker_Client.thy ===== *)
theory Moonraker_Client
  imports Moonraker_Types
begin

text \<open>
  \<open>internal/moonraker/client.go\<close>: the WebSocket client. Its goroutines are the one of
  \<open>Run\<close> and one \<open>pingLoop\<close> for each connection; the packetizer reads the channel
  \<open>Updates\<close>. The state has the fields of the struct and, for each goroutine, the point where it
  waits. A step is one event: what the goroutine that waits for it then does up to its next
  blocking operation. What happens outside (dialling, writing and reading frames, timers, the
  clock, cancellation) is in the events, so every order of them is a run. \<open>gorilla/websocket\<close>
  is only what its calls return; write and read deadlines show as their errors.
\<close>

section \<open>The client\<close>

record Client =
  clEndpoint :: string
  apiKey :: string
  clientName :: string
  clientVer :: string
  reconnDelay :: int
  subObjects :: SubscribeParams
  Updates :: "StatusDelta list"
  nextID :: u64
  conn :: "nat option"
  calls :: "int \<rightharpoonup> Response option"

text \<open>\<open>calls\<close> is the map \<open>pending\<close>: the response channel of each id, with room for one response.\<close>

definition updates_cap :: nat where
  "updates_cap = 64"

definition NewClient ::
  "string \<Rightarrow> string \<Rightarrow> string \<Rightarrow> string \<Rightarrow> int \<Rightarrow> SubscribeParams option \<Rightarrow> Client" where
  "NewClient ep key name ver delay objects =
     \<lparr>clEndpoint = ep, apiKey = key, clientName = name, clientVer = ver, reconnDelay = delay,
      subObjects = (case objects of None \<Rightarrow> DefaultSubscribeObjects | Some m \<Rightarrow> m),
      Updates = [], nextID = 0, conn = None, calls = Map.empty\<rparr>"

definition nextRequestID :: "Client \<Rightarrow> int \<times> Client" where
  "nextRequestID c = (let i = nextID c + 1 in (sint i, c\<lparr>nextID := i\<rparr>))"

text \<open>\<open>handleStatusUpdate\<close>: decode \<open>[status, eventtime]\<close> and offer the delta to the channel,
  dropping it when the channel is full.\<close>

definition unm_rawmap :: "json \<Rightarrow> (string \<times> json) list \<Rightarrow> bool \<times> (string \<times> json) list" where
  "unm_rawmap j old =
     (case j of
        JObj ms \<Rightarrow> (True, foldl (\<lambda>m (k, v). put k v m) old ms)
      | JNull \<Rightarrow> (True, [])
      | _ \<Rightarrow> (False, old))"

definition status_delta :: "gotime \<Rightarrow> json option \<Rightarrow> StatusDelta option" where
  "status_delta now raw =
     (case raw of
        Some (JArr (p0 # p1 # _)) \<Rightarrow>
          (case unm_rawmap p0 [] of
             (False, _) \<Rightarrow> None
           | (True, st) \<Rightarrow> Some \<lparr>Status = st, EventTime = snd (unm_float p1 0), ReceivedAt = now\<rparr>)
      | _ \<Rightarrow> None)"

definition handleStatusUpdate :: "gotime \<Rightarrow> json option \<Rightarrow> Client \<Rightarrow> Client" where
  "handleStatusUpdate now raw c =
     (case status_delta now raw of
        None \<Rightarrow> c
      | Some d \<Rightarrow> if length (Updates c) < updates_cap then c\<lparr>Updates := Updates c @ [d]\<rparr> else c)"

text \<open>What \<open>readLoop\<close> does with one message: the error with which it returns, if it does.\<close>

definition decode_message :: "bytes \<Rightarrow> Response option" where
  "decode_message data =
     (case json_parse (string_of data) of
        None \<Rightarrow> None
      | Some j \<Rightarrow> (case unm_response j zero_response of (ok, resp) \<Rightarrow> if ok then Some resp else None))"

definition deliver :: "Response \<Rightarrow> Client \<Rightarrow> Client" where
  "deliver resp c =
     (case calls c (RespID resp) of
        Some None \<Rightarrow> c\<lparr>calls := (calls c)(RespID resp \<mapsto> Some resp)\<rparr>
      | _ \<Rightarrow> c)"

definition on_message :: "gotime \<Rightarrow> bytes \<Rightarrow> Client \<Rightarrow> err option \<times> Client" where
  "on_message now data c =
     (case decode_message data of
        None \<Rightarrow> (None, c)
      | Some resp \<Rightarrow>
          if RespID resp \<noteq> 0 then (None, deliver resp c)
          else if Method resp = ''notify_status_update'' then (None, handleStatusUpdate now (Params resp) c)
          else if Method resp = ''notify_klippy_disconnected'' then (Some (Err ''klippy disconnected''), c)
          else (None, c))"

section \<open>Synchronous calls\<close>

text \<open>The three places that make a call.\<close>

datatype call_site = Identify | ServerInfo | Subscribe

fun site_method :: "call_site \<Rightarrow> string" where
  "site_method Identify = ''server.connection.identify''"
| "site_method ServerInfo = ''server.info''"
| "site_method Subscribe = ''printer.objects.subscribe''"

fun site_params :: "Client \<Rightarrow> call_site \<Rightarrow> json" where
  "site_params c Identify =
     identify_json \<lparr>IdClientName = clientName c, IdVersion = clientVer c, IdType = ''agent'', IdURL = ''internal''\<rparr>"
| "site_params c ServerInfo = JNull"
| "site_params c Subscribe = subscribe_json (subObjects c)"

text \<open>\<open>send\<close>: the id or the error of the write, the client, and the frame if it was written
  (\<open>WriteJSON\<close> ends it with a newline).\<close>

definition send :: "err option \<Rightarrow> string \<Rightarrow> json \<Rightarrow> Client \<Rightarrow> int res \<times> bytes list \<times> Client" where
  "send write_err mth params c =
     (let (i, c1) = nextRequestID c;
          req = \<lparr>ReqJSONRPC = ''2.0'', ReqID = i, ReqMethod = mth, ReqParams = params\<rparr>
      in case write_err of
           Some e \<Rightarrow> (Inl (Wrap (''write '' @ mth) e), [], c1)
         | None \<Rightarrow> (Inr i, [bytes_of (json_print (request_json req) @ [CHR 0x0A])], c1))"

text \<open>What \<open>call\<close> returns for a response.\<close>

definition call_result :: "Response \<Rightarrow> json option res" where
  "call_result resp =
     (case RespError resp of
        Some e \<Rightarrow> Inl (Err (''rpc error '' @ dec_int (Code e) @ '': '' @ Message e))
      | None \<Rightarrow> Inr (Result resp))"

text \<open>\<open>json.Unmarshal(result, &x)\<close> for a struct; no result is empty input.\<close>

definition unm_result ::
  "string list \<Rightarrow> (string \<Rightarrow> json \<Rightarrow> 's \<Rightarrow> bool \<times> 's) \<Rightarrow> json option \<Rightarrow> 's \<Rightarrow> 's res" where
  "unm_result names upd result x =
     (case result of
        None \<Rightarrow> Inl (Err ''unexpected end of JSON input'')
      | Some j \<Rightarrow> (case unm_struct names upd j x of (ok, y) \<Rightarrow> if ok then Inr y else Inl (Err ''json: cannot unmarshal'')))"

definition klippy_state :: "json option \<Rightarrow> string res" where
  "klippy_state result = unm_result [''klippy_state''] (\<lambda>_ j x. unm_string j x) result []"

definition set_snapshot :: "string \<Rightarrow> json \<Rightarrow> (string \<times> json) list \<times> f64 \<Rightarrow> bool \<times> ((string \<times> json) list \<times> f64)" where
  "set_snapshot f j x =
     (if f = ''status'' then (let (ok, m) = unm_rawmap j (fst x) in (ok, (m, snd x)))
      else (let (ok, t) = unm_float j (snd x) in (ok, (fst x, t))))"

definition snapshot :: "gotime \<Rightarrow> json option \<Rightarrow> StatusDelta option res" where
  "snapshot now result =
     (case unm_result [''status'', ''eventtime''] set_snapshot result ([], 0) of
        Inl e \<Rightarrow> Inl (Wrap ''decode initial snapshot'' e)
      | Inr (st, t) \<Rightarrow> Inr (if st = [] then None else Some \<lparr>Status = st, EventTime = t, ReceivedAt = now\<rparr>))"

section \<open>The goroutines\<close>

text \<open>Where the goroutine of \<open>Run\<close> is: at the top of its loop; dialling; writing a request;
  between writing it and registering its channel; waiting for the response; in the three seconds
  between polls; at the blocking send of the snapshot; in \<open>ReadMessage\<close>; waiting to reconnect
  with the error of \<open>runOnce\<close>; returned.\<close>

datatype client_pc =
    Top | Dialing | Writing call_site | Registering call_site int | Waiting call_site int
  | Polling | Pushing StatusDelta | Reading | Backoff err | Returned

datatype frame = TextFrame bytes | PingFrame

text \<open>\<open>dials\<close> counts the connections made, \<open>live\<close> is the one of the running
  \<open>runOnce\<close>, \<open>pingers\<close> are the connections with a ping loop. \<open>handshakes\<close> and
  \<open>wire\<close> are what the client has put on the network, \<open>received\<close> is what the packetizer has
  taken from the channel.\<close>

record client_state =
  client :: Client
  pc :: client_pc
  cancelled :: bool
  dials :: nat
  live :: "nat option"
  pingers :: "nat list"
  handshakes :: "(string \<times> (string \<times> string) list) list"
  wire :: "(nat \<times> frame) list"
  received :: "StatusDelta list"

definition client_start :: "Client \<Rightarrow> client_state" where
  "client_start c = \<lparr>client = c, pc = Top, cancelled = False, dials = 0, live = None, pingers = [],
     handshakes = [], wire = [], received = []\<rparr>"

text \<open>\<open>runOnce\<close> returns: its deferred calls cancel the ping loop and close the connection.\<close>

definition leave :: "err \<Rightarrow> client_state \<Rightarrow> client_state" where
  "leave e st = st\<lparr>pc := Backoff e, live := None\<rparr>"

text \<open>The caller goes on with the result of its call.\<close>

fun resume :: "call_site \<Rightarrow> gotime \<Rightarrow> json option res \<Rightarrow> client_state \<Rightarrow> client_state" where
  "resume Identify now r st =
     (case r of Inl e \<Rightarrow> leave (Wrap ''identify'' e) st | Inr _ \<Rightarrow> st\<lparr>pc := Writing ServerInfo\<rparr>)"
| "resume ServerInfo now r st =
     (case r of
        Inl e \<Rightarrow> leave (Wrap ''wait ready'' e) st
      | Inr result \<Rightarrow>
          (case klippy_state result of
             Inl e \<Rightarrow> leave (Wrap ''wait ready'' e) st
           | Inr s \<Rightarrow> if s = ''ready'' then st\<lparr>pc := Writing Subscribe\<rparr> else st\<lparr>pc := Polling\<rparr>))"
| "resume Subscribe now r st =
     (case r of
        Inl e \<Rightarrow> leave (Wrap ''subscribe'' e) st
      | Inr result \<Rightarrow>
          (case snapshot now result of
             Inl e \<Rightarrow> leave (Wrap ''subscribe'' e) st
           | Inr None \<Rightarrow> st\<lparr>pc := Reading\<rparr>
           | Inr (Some d) \<Rightarrow> st\<lparr>pc := Pushing d\<rparr>))"

text \<open>\<open>call\<close> returns after its channel was registered: the deferred function removes the entry.\<close>

definition end_call :: "call_site \<Rightarrow> int \<Rightarrow> gotime \<Rightarrow> json option res \<Rightarrow> client_state \<Rightarrow> client_state" where
  "end_call site i now r st =
     resume site now r (st\<lparr>client := (client st)\<lparr>calls := (calls (client st))(i := None)\<rparr>\<rparr>)"

text \<open>The context of a call: \<open>identify\<close> and \<open>subscribe\<close> have one of their own that ends after
  ten seconds, \<open>waitReady\<close> passes the daemon's.\<close>

fun ctx_done :: "call_site \<Rightarrow> bool \<Rightarrow> bool" where
  "ctx_done ServerInfo c = c"
| "ctx_done _ c = True"

fun ctx_err :: "call_site \<Rightarrow> err" where
  "ctx_err ServerInfo = Err ''context canceled''"
| "ctx_err _ = Err ''context deadline exceeded''"

text \<open>\<open>Run\<close>: the check at the top of the loop.\<close>

definition run_top :: "client_state \<Rightarrow> client_state option" where
  "run_top st =
     (if pc st = Top then Some (st\<lparr>pc := if cancelled st then Returned else Dialing\<rparr>) else None)"

text \<open>\<open>runOnce\<close> up to the first call: dial, keep the connection, start its ping loop.\<close>

definition dial_header :: "Client \<Rightarrow> (string \<times> string) list" where
  "dial_header c = (if apiKey c \<noteq> [] then [(''X-Api-Key'', apiKey c)] else [])"

definition dial_step :: "err option \<Rightarrow> client_state \<Rightarrow> client_state option" where
  "dial_step dial_err st =
     (if pc st \<noteq> Dialing then None
      else let st1 = st\<lparr>handshakes := handshakes st @ [(clEndpoint (client st), dial_header (client st))]\<rparr> in
        case dial_err of
          Some e \<Rightarrow> Some (leave (Wrap ''dial'' e) st1)
        | None \<Rightarrow> Some (st1\<lparr>client := (client st)\<lparr>conn := Some (dials st)\<rparr>, live := Some (dials st),
                    pingers := pingers st @ [dials st], dials := Suc (dials st), pc := Writing Identify\<rparr>))"

text \<open>\<open>call\<close>: send the request, register its channel, and the three cases of the select.\<close>

definition write_step :: "err option \<Rightarrow> client_state \<Rightarrow> client_state option" where
  "write_step write_err st =
     (case (pc st, live st) of
        (Writing site, Some w) \<Rightarrow>
          (let (r, frames, c) = send write_err (site_method site) (site_params (client st) site) (client st);
               st1 = st\<lparr>client := c, wire := wire st @ map (\<lambda>f. (w, TextFrame f)) frames\<rparr>
           in case r of
                Inl e \<Rightarrow> Some (resume site zero_time (Inl e) st1)
              | Inr i \<Rightarrow> Some (st1\<lparr>pc := Registering site i\<rparr>))
      | _ \<Rightarrow> None)"

definition register_step :: "client_state \<Rightarrow> client_state option" where
  "register_step st =
     (case pc st of
        Registering site i \<Rightarrow>
          Some (st\<lparr>client := (client st)\<lparr>calls := (calls (client st))(i \<mapsto> None)\<rparr>, pc := Waiting site i\<rparr>)
      | _ \<Rightarrow> None)"

definition answer_step :: "gotime \<Rightarrow> client_state \<Rightarrow> client_state option" where
  "answer_step now st =
     (case pc st of
        Waiting site i \<Rightarrow>
          (case calls (client st) i of
             Some (Some resp) \<Rightarrow> Some (end_call site i now (call_result resp) st)
           | _ \<Rightarrow> None)
      | _ \<Rightarrow> None)"

text \<open>A select sees its context done: in \<open>call\<close>, between two polls, or before reconnecting.\<close>

definition ctx_step :: "client_state \<Rightarrow> client_state option" where
  "ctx_step st =
     (case pc st of
        Waiting site i \<Rightarrow>
          if ctx_done site (cancelled st) then Some (end_call site i zero_time (Inl (ctx_err site)) st) else None
      | Polling \<Rightarrow> if cancelled st then Some (leave (Wrap ''wait ready'' (Err ''context canceled'')) st) else None
      | Backoff e \<Rightarrow> if cancelled st then Some (st\<lparr>pc := Returned\<rparr>) else None
      | _ \<Rightarrow> None)"

text \<open>A \<open>time.After\<close> fires, at the same places.\<close>

definition timer_step :: "client_state \<Rightarrow> client_state option" where
  "timer_step st =
     (case pc st of
        Waiting site i \<Rightarrow>
          Some (end_call site i zero_time (Inl (Err (''timeout waiting for response to '' @ site_method site))) st)
      | Polling \<Rightarrow> Some (st\<lparr>pc := Writing ServerInfo\<rparr>)
      | Backoff e \<Rightarrow> Some (st\<lparr>pc := Top\<rparr>)
      | _ \<Rightarrow> None)"

text \<open>The blocking send of the snapshot in \<open>subscribe\<close>.\<close>

definition push_step :: "client_state \<Rightarrow> client_state option" where
  "push_step st =
     (case pc st of
        Pushing d \<Rightarrow>
          if length (Updates (client st)) < updates_cap
          then Some (st\<lparr>client := (client st)\<lparr>Updates := Updates (client st) @ [d]\<rparr>, pc := Reading\<rparr>)
          else None
      | _ \<Rightarrow> None)"

definition read_step :: "bytes res \<Rightarrow> gotime \<Rightarrow> client_state \<Rightarrow> client_state option" where
  "read_step msg now st =
     (if pc st \<noteq> Reading then None
      else case msg of
        Inl e \<Rightarrow> Some (leave (Wrap ''read'' e) st)
      | Inr data \<Rightarrow>
          (case on_message now data (client st) of
             (Some e, c) \<Rightarrow> Some (leave e (st\<lparr>client := c\<rparr>))
           | (None, c) \<Rightarrow> Some (st\<lparr>client := c\<rparr>)))"

text \<open>The packetizer takes a delta from the channel.\<close>

definition consume_step :: "client_state \<Rightarrow> client_state option" where
  "consume_step st =
     (case Updates (client st) of
        [] \<Rightarrow> None
      | d # ds \<Rightarrow> Some (st\<lparr>client := (client st)\<lparr>Updates := ds\<rparr>, received := received st @ [d]\<rparr>))"

text \<open>\<open>pingLoop\<close> of one connection: a ping, whose failure ends the loop, or its cancellation.\<close>

definition ping_step :: "nat \<Rightarrow> err option \<Rightarrow> client_state \<Rightarrow> client_state option" where
  "ping_step w write_err st =
     (if w \<notin> set (pingers st) then None
      else case write_err of
        None \<Rightarrow> Some (st\<lparr>wire := wire st @ [(w, PingFrame)]\<rparr>)
      | Some e \<Rightarrow> Some (st\<lparr>pingers := remove1 w (pingers st)\<rparr>))"

definition ping_stop :: "nat \<Rightarrow> client_state \<Rightarrow> client_state option" where
  "ping_stop w st =
     (if w \<in> set (pingers st) \<and> (live st \<noteq> Some w \<or> cancelled st)
      then Some (st\<lparr>pingers := remove1 w (pingers st)\<rparr>) else None)"

datatype client_event =
    Cancel | Go | DialDone "err option" | Written "err option" | Registered | Answer gotime | CtxDone | Timer
  | Pushed | Incoming "bytes res" gotime | Consume | PingTick nat "err option" | PingStop nat

text \<open>One event. \<open>None\<close>: the event cannot happen in this state.\<close>

fun client_step :: "client_event \<Rightarrow> client_state \<Rightarrow> client_state option" where
  "client_step Cancel st = Some (st\<lparr>cancelled := True\<rparr>)"
| "client_step Go st = run_top st"
| "client_step (DialDone e) st = dial_step e st"
| "client_step (Written e) st = write_step e st"
| "client_step Registered st = register_step st"
| "client_step (Answer now) st = answer_step now st"
| "client_step CtxDone st = ctx_step st"
| "client_step Timer st = timer_step st"
| "client_step Pushed st = push_step st"
| "client_step (Incoming m now) st = read_step m now st"
| "client_step Consume st = consume_step st"
| "client_step (PingTick w e) st = ping_step w e st"
| "client_step (PingStop w) st = ping_stop w st"

fun client_run :: "client_event list \<Rightarrow> client_state \<Rightarrow> client_state option" where
  "client_run [] st = Some st"
| "client_run (e # es) st = (case client_step e st of None \<Rightarrow> None | Some st1 \<Rightarrow> client_run es st1)"

inductive client_reach :: "Client \<Rightarrow> client_state \<Rightarrow> bool" for c where
  start: "client_reach c (client_start c)"
| step: "client_reach c st \<Longrightarrow> client_step ev st = Some st' \<Longrightarrow> client_reach c st'"

end
