(* ===== verification/Moonraker_Props.thy ===== *)
theory Moonraker_Props
  imports Moonraker_Client
begin

text \<open>
  Properties of the client: the channel of updates is a bounded queue that keeps the order of
  arrival, and, since the goroutine that waits for the response to \<open>identify\<close> is the one that would
  read it, no run of the client gets past \<open>identify\<close>.
\<close>

section \<open>Client fields a step leaves alone\<close>

lemma nextRequestID_frame [simp]:
  "Updates (snd (nextRequestID c)) = Updates c" "calls (snd (nextRequestID c)) = calls c"
  "clientName (snd (nextRequestID c)) = clientName c" "clientVer (snd (nextRequestID c)) = clientVer c"
  by (simp_all add: nextRequestID_def Let_def)

lemma send_frame:
  assumes "send e m p c = (r, fs, c')"
  shows "Updates c' = Updates c" "calls c' = calls c" "clientName c' = clientName c" "clientVer c' = clientVer c"
    and "\<And>f. f \<in> set fs \<Longrightarrow> \<exists>n. f = bytes_of (json_print (request_json
           \<lparr>ReqJSONRPC = ''2.0'', ReqID = n, ReqMethod = m, ReqParams = p\<rparr>) @ [CHR 0x0A])"
  using assms by (auto simp: send_def nextRequestID_def Let_def split: option.splits)

lemma leave_simps [simp]:
  "client (leave e st) = client st" "pc (leave e st) = Backoff e" "received (leave e st) = received st"
  "wire (leave e st) = wire st" "cancelled (leave e st) = cancelled st" "live (leave e st) = None"
  by (simp_all add: leave_def)

lemma resume_frame [simp]:
  "client (resume site now r st) = client st" "received (resume site now r st) = received st"
  "wire (resume site now r st) = wire st"
  by (cases site; auto split: sum.split option.split)+

lemma end_call_frame [simp]:
  "Updates (client (end_call site i now r st)) = Updates (client st)"
  "calls (client (end_call site i now r st)) = (calls (client st))(i := None)"
  "clientName (client (end_call site i now r st)) = clientName (client st)"
  "clientVer (client (end_call site i now r st)) = clientVer (client st)"
  "received (end_call site i now r st) = received st" "wire (end_call site i now r st) = wire st"
  by (simp_all add: end_call_def)

lemma pc_end_call_fail [simp]: "pc (end_call Identify i now (Inl e) st) = Backoff (Wrap ''identify'' e)"
  by (simp add: end_call_def)

lemma deliver_frame [simp]: "Updates (deliver resp c) = Updates c"
  by (auto simp: deliver_def split: option.split)

lemmas step_defs = run_top_def dial_step_def write_step_def register_step_def answer_step_def ctx_step_def
  timer_step_def push_step_def read_step_def consume_step_def ping_step_def ping_stop_def

section \<open>The channel\<close>

lemma handleStatusUpdate_Updates:
  "\<exists>ds. Updates (handleStatusUpdate now raw c) = Updates c @ ds \<and> length ds \<le> 1 \<and>
     (length (Updates c) \<le> updates_cap \<longrightarrow> length (Updates c @ ds) \<le> updates_cap)"
  by (auto simp: handleStatusUpdate_def split: option.split)

lemma on_message_Updates:
  "on_message now data c = (e, c') \<Longrightarrow> \<exists>ds. Updates c' = Updates c @ ds \<and> length ds \<le> 1 \<and>
     (length (Updates c) \<le> updates_cap \<longrightarrow> length (Updates c @ ds) \<le> updates_cap)"
  using handleStatusUpdate_Updates [of now _ c]
  by (auto simp: on_message_def split: option.splits if_splits)

text \<open>C21: The channel between the client and the packetizer. Every step leaves what was received
  and what is queued in place, except that the packetizer takes from the front and at most one
  delta is added at the end; the channel never holds more than 64.\<close>

theorem updates_fifo:
  assumes "client_step ev st = Some st'" "length (Updates (client st)) \<le> 64"
  shows "length (Updates (client st')) \<le> 64 \<and>
    (\<exists>ds. received st' @ Updates (client st') = received st @ Updates (client st) @ ds \<and> length ds \<le> 1) \<and>
    (received st' = received st \<or>
     (\<exists>d. received st' = received st @ [d] \<and> Updates (client st) = d # Updates (client st')))"
proof (cases ev)
  case (Written e)
  then show ?thesis using assms
    by (auto simp: write_step_def Let_def split: client_pc.splits option.splits sum.splits prod.splits dest: send_frame(1))
next
  case (Incoming m now)
  then show ?thesis using assms on_message_Updates [of now _ "client st"]
    by (force simp: read_step_def updates_cap_def split: if_splits sum.splits option.splits prod.splits)
next
  case (PingTick w e)
  then show ?thesis using assms by (auto simp: ping_step_def split: if_splits option.splits)
qed (use assms in \<open>auto simp: step_defs updates_cap_def Let_def
       split: if_splits option.splits client_pc.splits list.splits\<close>)

text \<open>The delta a message carries, if it is a well-formed status notification.\<close>

definition message_delta :: "gotime \<Rightarrow> bytes \<Rightarrow> StatusDelta option" where
  "message_delta now data =
     (case decode_message data of
        None \<Rightarrow> None
      | Some resp \<Rightarrow>
          if RespID resp = 0 \<and> Method resp = ''notify_status_update'' then status_delta now (Params resp) else None)"

definition is_disconnect :: "bytes \<Rightarrow> bool" where
  "is_disconnect data =
     (case decode_message data of
        None \<Rightarrow> False
      | Some resp \<Rightarrow> RespID resp = 0 \<and> Method resp = ''notify_klippy_disconnected'')"

lemma on_message_burst:
  assumes "calls c = Map.empty" "length (Updates c) \<le> 64" "\<not> is_disconnect data"
  shows "on_message now data c =
    (None, c\<lparr>Updates := take 64 (Updates c @ (case message_delta now data of None \<Rightarrow> [] | Some d \<Rightarrow> [d]))\<rparr>)"
  using assms
  by (auto simp: on_message_def message_delta_def is_disconnect_def deliver_def handleStatusUpdate_def
      updates_cap_def split: option.split)

lemma take_take_append: "take n (take n xs @ ys) = take n (xs @ ys)"
  by (cases "n \<le> length xs") simp_all

text \<open>C20: A burst of messages. While the client reads and the packetizer does not, any sequence of
  messages without a disconnect notification leaves in the channel its first 64 deltas in order of
  arrival: what was queued, then one delta for each well-formed status notification; everything
  else the client ignores, and the excess is dropped.\<close>

theorem update_burst:
  assumes "pc st = Reading" "calls (client st) = Map.empty" "length (Updates (client st)) \<le> 64"
    "\<forall>m \<in> set msgs. \<not> is_disconnect (fst m)"
  shows "client_run (map (\<lambda>(data, now). Incoming (Inr data) now) msgs) st =
    Some (st\<lparr>client := (client st)\<lparr>Updates := take 64 (Updates (client st) @
      List.map_filter (\<lambda>(data, now). message_delta now data) msgs)\<rparr>\<rparr>)"
  using assms
proof (induction msgs arbitrary: st)
  case Nil
  then show ?case by (simp add: map_filter_simps)
next
  case (Cons m msgs)
  obtain data now where m: "m = (data, now)" by fastforce
  let ?c = "(client st)\<lparr>Updates := take 64 (Updates (client st) @ (case message_delta now data of None \<Rightarrow> [] | Some d \<Rightarrow> [d]))\<rparr>"
  have "on_message now data (client st) = (None, ?c)"
    using Cons.prems by (intro on_message_burst) (simp_all add: m)
  then have "client_step (Incoming (Inr data) now) st = Some (st\<lparr>client := ?c\<rparr>)"
    using Cons.prems(1) by (simp add: read_step_def)
  moreover have "client_run (map (\<lambda>(data, now). Incoming (Inr data) now) msgs) (st\<lparr>client := ?c\<rparr>) =
      Some (st\<lparr>client := (client st)\<lparr>Updates := take 64 (Updates ?c @
        List.map_filter (\<lambda>(data, now). message_delta now data) msgs)\<rparr>\<rparr>)"
    using Cons.IH [of "st\<lparr>client := ?c\<rparr>"] Cons.prems by simp
  moreover have "take 64 (Updates ?c @ List.map_filter (\<lambda>(data, now). message_delta now data) msgs) =
      take 64 (Updates (client st) @ List.map_filter (\<lambda>(data, now). message_delta now data) (m # msgs))"
    by (cases "message_delta now data") (simp_all add: m map_filter_simps take_take_append del: take_append)
  ultimately show ?case unfolding m by simp
qed

section \<open>No run gets past identify\<close>

definition identify_frame :: "Client \<Rightarrow> int \<Rightarrow> bytes" where
  "identify_frame c n = bytes_of (json_print (request_json \<lparr>ReqJSONRPC = ''2.0'', ReqID = n,
     ReqMethod = ''server.connection.identify'', ReqParams = site_params c Identify\<rparr>) @ [CHR 0x0A])"

fun before_ready :: "client_pc \<Rightarrow> bool" where
  "before_ready Top = True"
| "before_ready Dialing = True"
| "before_ready (Writing site) = (site = Identify)"
| "before_ready (Registering site i) = (site = Identify)"
| "before_ready (Waiting site i) = (site = Identify)"
| "before_ready (Backoff e) = True"
| "before_ready Returned = True"
| "before_ready Polling = False"
| "before_ready (Pushing d) = False"
| "before_ready Reading = False"

text \<open>No response is ever in a channel, because only the read loop puts one there.\<close>

definition unanswered :: "Client \<Rightarrow> client_state \<Rightarrow> bool" where
  "unanswered c st \<longleftrightarrow> before_ready (pc st) \<and> (\<forall>i r. calls (client st) i \<noteq> Some (Some r)) \<and>
     Updates (client st) = [] \<and> received st = [] \<and>
     clientName (client st) = clientName c \<and> clientVer (client st) = clientVer c \<and>
     (\<forall>w f. (w, TextFrame f) \<in> set (wire st) \<longrightarrow> (\<exists>n. f = identify_frame c n))"

lemma unanswered_start:
  "unanswered (NewClient ep key name ver delay objs) (client_start (NewClient ep key name ver delay objs))"
  by (simp add: unanswered_def client_start_def NewClient_def)

lemma unanswered_step:
  assumes "unanswered c st" "client_step ev st = Some st'"
  shows "unanswered c st'"
proof (cases ev)
  case (Written e)
  then obtain w where w: "pc st = Writing Identify" "live st = Some w"
    using assms by (auto simp: write_step_def unanswered_def split: client_pc.splits option.splits)
  obtain r fs c1 where sd: "send e (site_method Identify) (site_params (client st) Identify) (client st) = (r, fs, c1)"
    by (metis prod_cases3)
  have "site_params (client st) Identify = site_params c Identify" using assms(1) by (simp add: unanswered_def)
  with send_frame(5) [OF sd] have fr: "\<And>f. f \<in> set fs \<Longrightarrow> \<exists>n. f = identify_frame c n"
    by (simp add: identify_frame_def)
  show ?thesis using assms Written w sd send_frame(1-4) [OF sd] fr
    by (auto simp: write_step_def unanswered_def Let_def split: sum.splits)
next
  case (PingTick w e)
  then show ?thesis using assms by (auto simp: ping_step_def unanswered_def split: if_splits option.splits)
qed (use assms in \<open>auto simp: unanswered_def step_defs Let_def
       split: if_splits option.splits client_pc.splits list.splits\<close>)

text \<open>C32: The client never gets past \<open>identify\<close>. In every reachable state, for every behaviour of
  the server, the network and the timers, the client has sent no request but
  \<open>server.connection.identify\<close>, is not reading, and no delta has reached or will reach the
  packetizer: the response to \<open>identify\<close> could only be taken from the connection by
  \<open>readLoop\<close>, which the same goroutine starts after \<open>identify\<close> has returned.\<close>

theorem client_never_subscribes:
  assumes "client_reach (NewClient ep key name ver delay objs) st"
  shows "pc st \<noteq> Reading \<and> Updates (client st) = [] \<and> received st = [] \<and>
    (\<forall>w f. (w, TextFrame f) \<in> set (wire st) \<longrightarrow>
       (\<exists>n. f = identify_frame (NewClient ep key name ver delay objs) n))"
proof -
  let ?c = "NewClient ep key name ver delay objs"
  have "unanswered ?c st"
    using assms
  proof (induction rule: client_reach.induct)
    case start
    show ?case by (rule unanswered_start)
  next
    case (step st ev st')
    then show ?case by (blast intro: unanswered_step)
  qed
  then show ?thesis by (auto simp: unanswered_def)
qed

section \<open>Witnesses\<close>

definition sample_client :: Client where
  "sample_client = NewClient ''ws://m'' [] ''axm-edge'' ''0.1.0'' 5 None"

definition sample_notification :: bytes where
  "sample_notification = bytes_of (json_print (JObj [(''method'', JStr ''notify_status_update''),
     (''params'', JArr [JObj [(''extruder'', JNull)], JNull])]))"

lemma sample_notification_decodes:
  "decode_message sample_notification = Some \<lparr>JSONRPC = [], RespID = 0, Method = ''notify_status_update'',
     Params = Some (JArr [JObj [(''extruder'', JNull)], JNull]), Result = None, RespError = None\<rparr>"
  by code_simp

lemma sample_message_delta:
  "message_delta now sample_notification = Some \<lparr>Status = [(''extruder'', JNull)], EventTime = 0, ReceivedAt = now\<rparr>"
  by (simp add: message_delta_def sample_notification_decodes status_delta_def unm_rawmap_def unm_float_def)

definition reading_client :: client_state where
  "reading_client = (client_start sample_client)\<lparr>pc := Reading\<rparr>"

theorem updates_fifo_witness:
  "\<exists>st'. client_step (Incoming (Inr sample_notification) zero_time) reading_client = Some st' \<and>
     length (Updates (client st')) \<le> 64 \<and> received st' = []"
proof -
  obtain st' where st': "client_step (Incoming (Inr sample_notification) zero_time) reading_client = Some st'"
    by (auto simp: read_step_def reading_client_def on_message_def sample_notification_decodes)
  have "received st' = []"
    using st' by (auto simp: read_step_def reading_client_def on_message_def sample_notification_decodes client_start_def)
  then show ?thesis using updates_fifo [OF st'] st'
    by (simp add: reading_client_def client_start_def sample_client_def NewClient_def)
qed

theorem update_burst_witness:
  "\<exists>st'. client_run (replicate 70 (Incoming (Inr sample_notification) zero_time)) reading_client = Some st' \<and>
     Updates (client st') = replicate 64 \<lparr>Status = [(''extruder'', JNull)], EventTime = 0, ReceivedAt = zero_time\<rparr>"
proof -
  have mf: "List.map_filter (\<lambda>(data, now). message_delta now data) (replicate n (sample_notification, zero_time)) =
      replicate n \<lparr>Status = [(''extruder'', JNull)], EventTime = 0, ReceivedAt = zero_time\<rparr>" for n
    by (induction n) (simp_all add: map_filter_simps sample_message_delta)
  have "\<not> is_disconnect sample_notification" by (simp add: is_disconnect_def sample_notification_decodes)
  then show ?thesis
    using update_burst [of reading_client "replicate 70 (sample_notification, zero_time)"]
    by (simp add: reading_client_def client_start_def sample_client_def NewClient_def mf map_replicate_const
        del: replicate.simps)
qed

text \<open>A connection whose \<open>identify\<close> is answered by the server and times out all the same.\<close>

theorem client_never_subscribes_witness:
  "\<exists>st. client_run [Go, DialDone None, Written None, Registered, CtxDone] (client_start sample_client) = Some st \<and>
     pc st = Backoff (Wrap ''identify'' (Err ''context deadline exceeded'')) \<and> received st = []"
proof -
  obtain st where st: "client_run [Go, DialDone None, Written None, Registered, CtxDone] (client_start sample_client) = Some st"
      "pc st = Backoff (Wrap ''identify'' (Err ''context deadline exceeded''))"
    by (auto simp: step_defs client_start_def send_def nextRequestID_def Let_def end_call_def leave_def)
  have "client_reach c st'" if "client_run es s0 = Some st'" "client_reach c s0" for es s0 st' c
    using that by (induction es arbitrary: s0) (auto split: option.splits intro: client_reach.step)
  then have "client_reach sample_client st" using st(1) client_reach.start by blast
  then show ?thesis using client_never_subscribes [of "''ws://m''" "[]" "''axm-edge''" "''0.1.0''" 5 None st] st
    by (auto simp: sample_client_def)
qed

end
