(* ===== verification/Merkle.thy ===== *)
theory Merkle
  imports Sha256
begin

text \<open>
  The Merkle root of \<open>internal/uploader/uploader.go\<close>, with BLAKE3 as the parameter \<open>B\<close>.
  \<open>merkleReduce\<close> recurses on ever shorter levels and, on an empty level, would never return:
  it is a \<open>partial_function\<close> whose \<open>None\<close> is not returning. It is related to
  the recursive tree hash of RFC 6962, and the root is shown to commit to the list of hashes.
\<close>

section \<open>The code\<close>

definition node_message :: "bytes \<Rightarrow> bytes \<Rightarrow> bytes" where
  "node_message l r = [1] @ l @ r"

text \<open>The loop over pairs; the last hash of an odd level is promoted.\<close>

fun next_level :: "(bytes \<Rightarrow> bytes) \<Rightarrow> bytes list \<Rightarrow> bytes list" where
  "next_level B (a # b # level) = B (node_message a b) # next_level B level"
| "next_level B [a] = [a]"
| "next_level B [] = []"

partial_function (option) merkleReduce :: "(bytes \<Rightarrow> bytes) \<Rightarrow> bytes list \<Rightarrow> bytes option" where
  "merkleReduce B level =
     (if length level = 1 then Some (level ! 0) else merkleReduce B (next_level B level))"

text \<open>The leaf of index \<open>i\<close>; a nil hash contributes no bytes.\<close>

definition leaf_message :: "nat \<Rightarrow> bytes option \<Rightarrow> bytes" where
  "leaf_message i h = [0] @ le64 (of_nat i) @ [0] @ opt_bytes h"

definition segment_leaves :: "(bytes \<Rightarrow> bytes) \<Rightarrow> bytes option list \<Rightarrow> bytes list" where
  "segment_leaves B hashes = map (\<lambda>(i, h). B (leaf_message i h)) (enumerate 0 hashes)"

definition localSegmentRoot :: "(bytes \<Rightarrow> bytes) \<Rightarrow> bytes option list \<Rightarrow> bytes option" where
  "localSegmentRoot B hashes =
     (if length hashes = 0 then Some (B [1]) else merkleReduce B (segment_leaves B hashes))"

definition LocalSegmentRootForHashes :: "(bytes \<Rightarrow> bytes) \<Rightarrow> bytes option list \<Rightarrow> bytes option" where
  "LocalSegmentRootForHashes B hashes = localSegmentRoot B hashes"

section \<open>Termination\<close>

lemma length_next_level: "length (next_level B level) = (length level + 1) div 2"
  by (induction B level rule: next_level.induct) simp_all

lemma next_level_nonempty: "level \<noteq> [] \<Longrightarrow> next_level B level \<noteq> []"
  by (cases "(B, level)" rule: next_level.cases) simp_all

lemma merkleReduce_one [simp]: "merkleReduce B [x] = Some x"
  by (simp add: merkleReduce.simps [of B "[x]"])

lemma merkleReduce_step: "length level \<noteq> 1 \<Longrightarrow> merkleReduce B level = merkleReduce B (next_level B level)"
  by (simp add: merkleReduce.simps [of B level])

text \<open>A call that returns was made on a nonempty level.\<close>

lemma merkleReduce_Some_nonempty: "merkleReduce B level = Some h \<Longrightarrow> level \<noteq> []"
proof (rule merkleReduce.raw_induct [where P = "\<lambda>B level h. level \<noteq> []"])
  fix f :: "(bytes \<Rightarrow> bytes) \<Rightarrow> bytes list \<Rightarrow> bytes option" and C xs y
  assume "\<And>B level y. f B level = Some y \<Longrightarrow> level \<noteq> []"
    and "(if length xs = 1 then Some (xs ! 0) else f C (next_level C xs)) = Some y"
  then show "xs \<noteq> []" by (cases xs) auto
qed

section \<open>The tree hash of RFC 6962\<close>

text \<open>The largest power of two below \<open>n\<close>, for \<open>n\<close> at least 2.\<close>

fun split_point :: "nat \<Rightarrow> nat" where
  "split_point n = (if n \<le> 2 then 1 else 2 * split_point ((n + 1) div 2))"

declare split_point.simps [simp del]

lemma split_point_small [simp]: "n \<le> 2 \<Longrightarrow> split_point n = 1"
  by (simp add: split_point.simps)

lemma split_point_bounds: "2 \<le> n \<Longrightarrow> 0 < split_point n \<and> split_point n < n \<and> n \<le> 2 * split_point n"
proof (induction n rule: split_point.induct)
  case (1 n)
  show ?case
  proof (cases "n \<le> 2")
    case False
    then have "0 < split_point ((n + 1) div 2) \<and> split_point ((n + 1) div 2) < (n + 1) div 2 \<and>
        (n + 1) div 2 \<le> 2 * split_point ((n + 1) div 2)"
      using 1 by (intro "1.IH") auto
    then show ?thesis using False by (simp add: split_point.simps [of n]) linarith
  qed (use 1 in simp)
qed

lemma split_point_power: "\<exists>k. split_point n = 2 ^ k"
proof (induction n rule: split_point.induct)
  case (1 n)
  show ?case
  proof (cases "n \<le> 2")
    case True
    then show ?thesis by (metis split_point_small power_0)
  next
    case False
    then obtain k where "split_point ((n + 1) div 2) = 2 ^ k" using 1 by blast
    then show ?thesis using False by (intro exI [of _ "Suc k"]) (simp add: split_point.simps [of n])
  qed
qed

function mth :: "('a \<Rightarrow> 'a \<Rightarrow> 'a) \<Rightarrow> 'a list \<Rightarrow> 'a" where
  "mth f xs =
     (if length xs \<le> 1 then xs ! 0
      else f (mth f (take (split_point (length xs)) xs)) (mth f (drop (split_point (length xs)) xs)))"
  by pat_completeness auto
termination
proof (relation "measure (\<lambda>(f, xs). length xs)")
  fix f :: "'a \<Rightarrow> 'a \<Rightarrow> 'a" and xs :: "'a list"
  assume "\<not> length xs \<le> 1"
  then have "0 < split_point (length xs)" "split_point (length xs) < length xs"
    using split_point_bounds [of "length xs"] by simp_all
  then show "((f, take (split_point (length xs)) xs), f, xs) \<in> measure (\<lambda>(f, xs). length xs)"
    "((f, drop (split_point (length xs)) xs), f, xs) \<in> measure (\<lambda>(f, xs). length xs)"
    by simp_all
qed simp

declare mth.simps [simp del]

text \<open>One level of pairs, for any node function.\<close>

fun pair_up :: "('a \<Rightarrow> 'a \<Rightarrow> 'a) \<Rightarrow> 'a list \<Rightarrow> 'a list" where
  "pair_up f (a # b # xs) = f a b # pair_up f xs"
| "pair_up f [a] = [a]"
| "pair_up f [] = []"

lemma next_level_pair_up: "next_level B level = pair_up (\<lambda>l r. B (node_message l r)) level"
  by (induction B level rule: next_level.induct) simp_all

lemma length_pair_up: "length (pair_up f xs) = (length xs + 1) div 2"
  by (induction f xs rule: pair_up.induct) simp_all

lemma pair_up_split: "even k \<Longrightarrow> k \<le> length xs \<Longrightarrow>
   take (k div 2) (pair_up f xs) = pair_up f (take k xs) \<and> drop (k div 2) (pair_up f xs) = pair_up f (drop k xs)"
proof (induction f xs arbitrary: k rule: pair_up.induct)
  case (1 f a b xs)
  show ?case
  proof (cases k)
    case (Suc m)
    then obtain l where "k = Suc (Suc l)" "even l" using "1.prems"(1) by (cases m) auto
    then show ?thesis using "1.IH" [of l] "1.prems" by simp
  qed simp
next
  case (2 f a)
  then have "k = 0" by (cases k) auto
  then show ?case by simp
qed simp

lemma mth_pair_up: "2 \<le> length xs \<Longrightarrow> mth f (pair_up f xs) = mth f xs"
proof (induction "length xs" arbitrary: xs rule: less_induct)
  case less
  let ?n = "length xs"
  show ?case
  proof (cases "?n = 2")
    case True
    then obtain a b where "xs = [a, b]" by (metis (no_types) One_nat_def Suc_1 length_0_conv length_Suc_conv)
    then show ?thesis by (simp add: mth.simps)
  next
    case False
    then have n: "3 \<le> ?n" using less.prems by simp
    define k where "k = split_point ?n"
    define j where "j = split_point ((?n + 1) div 2)"
    have k: "k = 2 * j" using n by (simp add: k_def j_def split_point.simps [of ?n])
    have kb: "0 < k" "k < ?n" "?n \<le> 2 * k" using split_point_bounds [of ?n] n by (simp_all add: k_def)
    have jb: "0 < j" "j < (?n + 1) div 2" using split_point_bounds [of "(?n + 1) div 2"] n by (simp_all add: j_def)
    have sub: "mth f (pair_up f ys) = mth f ys" if ys: "length ys < ?n" "ys \<noteq> []" for ys
    proof (cases "2 \<le> length ys")
      case False
      with ys(2) have "length ys = 1" by (cases ys) (auto simp: Suc_le_eq)
      then obtain y where "ys = [y]" by (auto simp: length_Suc_conv)
      then show ?thesis by simp
    qed (use less.hyps ys in blast)
    have "take j (pair_up f xs) = pair_up f (take k xs)" "drop j (pair_up f xs) = pair_up f (drop k xs)"
      using pair_up_split [of k xs f] k kb by simp_all
    then have "mth f (pair_up f xs) = f (mth f (pair_up f (take k xs))) (mth f (pair_up f (drop k xs)))"
      using n jb by (subst mth.simps) (simp add: length_pair_up j_def)
    also have "\<dots> = f (mth f (take k xs)) (mth f (drop k xs))"
      using sub [of "take k xs"] sub [of "drop k xs"] kb by (cases "xs = []") simp_all
    also have "\<dots> = mth f xs" using n by (subst (3) mth.simps) (simp add: k_def)
    finally show ?thesis .
  qed
qed

abbreviation node_hash :: "(bytes \<Rightarrow> bytes) \<Rightarrow> bytes \<Rightarrow> bytes \<Rightarrow> bytes" where
  "node_hash B l r \<equiv> B (node_message l r)"

lemma merkleReduce_mth: "level \<noteq> [] \<Longrightarrow> merkleReduce B level = Some (mth (node_hash B) level)"
proof (induction "length level" arbitrary: level rule: less_induct)
  case less
  show ?case
  proof (cases "length level = 1")
    case True
    then show ?thesis by (simp add: merkleReduce.simps [of B level] mth.simps)
  next
    case False
    with less.prems have n: "2 \<le> length level" by (cases level) (auto simp: Suc_le_eq)
    have "merkleReduce B (next_level B level) = Some (mth (node_hash B) (next_level B level))"
      using n next_level_nonempty [OF less.prems] by (intro less.hyps) (auto simp: length_next_level)
    with False n show ?thesis
      by (simp add: merkleReduce_step next_level_pair_up mth_pair_up)
  qed
qed

section \<open>Trees\<close>

text \<open>The tree behind a root: leaves are messages, and the hash of a tree is the digest of its
  message.\<close>

datatype mtree = MLeaf bytes | MNode mtree mtree

fun tree_message :: "(bytes \<Rightarrow> bytes) \<Rightarrow> mtree \<Rightarrow> bytes" where
  "tree_message B (MLeaf m) = 0 # m"
| "tree_message B (MNode l r) = node_message (B (tree_message B l)) (B (tree_message B r))"

fun tree_messages :: "(bytes \<Rightarrow> bytes) \<Rightarrow> mtree \<Rightarrow> bytes set" where
  "tree_messages B (MLeaf m) = {tree_message B (MLeaf m)}"
| "tree_messages B (MNode l r) =
     {tree_message B (MNode l r)} \<union> tree_messages B l \<union> tree_messages B r"

fun tree_leaves :: "mtree \<Rightarrow> bytes list" where
  "tree_leaves (MLeaf m) = [m]"
| "tree_leaves (MNode l r) = tree_leaves l @ tree_leaves r"

lemma own_message [simp]: "tree_message B t \<in> tree_messages B t"
  by (cases t) simp_all

lemma tree_binding:
  assumes "digest B" "B (tree_message B t) = B (tree_message B u)"
  shows "t = u \<or> (\<exists>x \<in> tree_messages B t. \<exists>y \<in> tree_messages B u. collision B x y)"
  using assms(2)
proof (induction t arbitrary: u)
  case (MLeaf m)
  show ?case
  proof (cases "tree_message B (MLeaf m) = tree_message B u")
    case True
    then have "u = MLeaf m" by (cases u) (auto simp: node_message_def)
    then show ?thesis by simp
  next
    case False
    then show ?thesis using MLeaf own_message [of B u] by (auto simp: collision_def)
  qed
next
  case (MNode l r)
  show ?case
  proof (cases "tree_message B (MNode l r) = tree_message B u")
    case False
    then show ?thesis using MNode.prems own_message [of B u] by (auto simp: collision_def)
  next
    case True
    then obtain l' r' where u: "u = MNode l' r'" by (cases u) (auto simp: node_message_def)
    then have "B (tree_message B l) = B (tree_message B l')" "B (tree_message B r) = B (tree_message B r')"
      using True digest.H_prefix [OF assms(1)] by (simp_all add: node_message_def)
    from MNode.IH(1) [OF this(1)] MNode.IH(2) [OF this(2)] u show ?thesis by auto
  qed
qed

text \<open>Hashing the leaves first or last is the same.\<close>

lemma mth_map:
  assumes "\<And>x y. h (g x y) = f (h x) (h y)" "xs \<noteq> []"
  shows "mth f (map h xs) = h (mth g xs)"
  using assms(2)
proof (induction "length xs" arbitrary: xs rule: less_induct)
  case less
  show ?case
  proof (cases "length xs \<le> 1")
    case True
    then show ?thesis using less.prems by (simp add: mth.simps)
  next
    case False
    let ?k = "split_point (length xs)"
    have k: "0 < ?k" "?k < length xs" using split_point_bounds [of "length xs"] False by simp_all
    have "mth f (map h (take ?k xs)) = h (mth g (take ?k xs))"
      by (rule less.hyps) (use k in auto)
    moreover have "mth f (map h (drop ?k xs)) = h (mth g (drop ?k xs))"
      by (rule less.hyps) (use k in auto)
    ultimately show ?thesis
      using False by (subst mth.simps, subst (3) mth.simps) (simp add: assms(1) take_map drop_map)
  qed
qed

lemma mth_append: "xss \<noteq> [] \<Longrightarrow> mth (@) xss = concat xss"
proof (induction "length xss" arbitrary: xss rule: less_induct)
  case less
  show ?case
  proof (cases "length xss \<le> 1")
    case True
    then obtain xs where "xss = [xs]" using less.prems by (cases xss) auto
    then show ?thesis by (simp add: mth.simps)
  next
    case False
    let ?k = "split_point (length xss)"
    have k: "0 < ?k" "?k < length xss" using split_point_bounds [of "length xss"] False by simp_all
    have "mth (@) (take ?k xss) = concat (take ?k xss)" "mth (@) (drop ?k xss) = concat (drop ?k xss)"
      by (rule less.hyps, use k in auto)+
    then show ?thesis using False by (subst mth.simps) (simp flip: concat_append)
  qed
qed

lemma leaves_mth: "ts \<noteq> [] \<Longrightarrow> tree_leaves (mth MNode ts) = concat (map tree_leaves ts)"
  using mth_map [of tree_leaves MNode "(@)" ts] mth_append [of "map tree_leaves ts"] by simp

section \<open>Segments\<close>

lemma enumerate_nonempty [simp]: "enumerate n xs = [] \<longleftrightarrow> xs = []"
  by (metis length_0_conv length_enumerate)

definition segment_tree :: "bytes option list \<Rightarrow> mtree" where
  "segment_tree hashes = mth MNode (map (\<lambda>(i, h). MLeaf (le64 (of_nat i) @ [0] @ opt_bytes h)) (enumerate 0 hashes))"

lemma localSegmentRoot_tree:
  "hashes \<noteq> [] \<Longrightarrow> localSegmentRoot B hashes = Some (B (tree_message B (segment_tree hashes)))"
proof -
  assume ne: "hashes \<noteq> []"
  let ?h = "\<lambda>t. B (tree_message B t)"
  let ?ts = "map (\<lambda>(i, h). MLeaf (le64 (of_nat i) @ [0] @ opt_bytes h)) (enumerate 0 hashes)"
  have ts: "?ts \<noteq> []" using ne by simp
  have leaves: "segment_leaves B hashes = map ?h ?ts"
    by (simp add: segment_leaves_def leaf_message_def split_def)
  have "mth (node_hash B) (map ?h ?ts) = ?h (mth MNode ?ts)" by (rule mth_map) (simp_all add: ne)
  with leaves ne ts show ?thesis
    by (simp add: localSegmentRoot_def merkleReduce_mth segment_tree_def)
qed

definition root_messages :: "(bytes \<Rightarrow> bytes) \<Rightarrow> bytes option list \<Rightarrow> bytes set" where
  "root_messages B hashes = (if hashes = [] then {[1]} else tree_messages B (segment_tree hashes))"

lemma segment_tree_inject:
  assumes "segment_tree hs = segment_tree hs'" "hs \<noteq> []" "hs' \<noteq> []"
  shows "map opt_bytes hs = map opt_bytes hs'"
proof -
  let ?m = "\<lambda>hs. map (\<lambda>(i, h). le64 (of_nat i) @ [0] @ opt_bytes h) (enumerate 0 hs)"
  have lv: "hs \<noteq> [] \<Longrightarrow> tree_leaves (segment_tree hs) = ?m hs" for hs
  proof -
    assume "hs \<noteq> []"
    then have ne: "map (\<lambda>(i, h). MLeaf (le64 (of_nat i) @ [0] @ opt_bytes h)) (enumerate 0 hs) \<noteq> []"
      by simp
    have "concat (map tree_leaves (map (\<lambda>(i, h). MLeaf (le64 (of_nat i) @ [0] @ opt_bytes h)) ps)) =
        map (\<lambda>(i, h). le64 (of_nat i) @ [0] @ opt_bytes h) ps" for ps :: "(nat \<times> bytes option) list"
      by (induction ps) auto
    then show "tree_leaves (segment_tree hs) = ?m hs" unfolding segment_tree_def leaves_mth [OF ne] .
  qed
  have "?m hs = ?m hs'" using lv [OF assms(2)] lv [OF assms(3)] assms(1) by simp
  then have "map (drop 9) (?m hs) = map (drop 9) (?m hs')" by simp
  moreover have "map (drop 9) (?m hs) = map opt_bytes hs" for hs
    by (rule nth_equalityI) (simp_all add: split_def nth_enumerate_eq)
  ultimately show ?thesis by simp
qed

lemma merkleReduce_split:
  assumes "2 \<le> length level"
  shows "\<exists>k l r. 2 ^ k < length level \<and> length level \<le> 2 * 2 ^ k \<and>
    merkleReduce B (take (2 ^ k) level) = Some l \<and> merkleReduce B (drop (2 ^ k) level) = Some r \<and>
    merkleReduce B level = Some (B ([1] @ l @ r))"
proof -
  obtain k where k: "split_point (length level) = 2 ^ k" using split_point_power by blast
  have b: "0 < (2::nat) ^ k" "2 ^ k < length level" "length level \<le> 2 * 2 ^ k"
    using split_point_bounds [OF assms] k by simp_all
  let ?l = "take (2 ^ k) level"
  let ?r = "drop (2 ^ k) level"
  have ne: "level \<noteq> []" "?l \<noteq> []" "?r \<noteq> []" using b by auto
  have "mth (node_hash B) level = B ([1] @ mth (node_hash B) ?l @ mth (node_hash B) ?r)"
    using assms k by (subst mth.simps) (simp add: node_message_def)
  then show ?thesis
    using b merkleReduce_mth [OF ne(1)] merkleReduce_mth [OF ne(2)] merkleReduce_mth [OF ne(3)]
    by (intro exI [of _ k] exI [of _ "mth (node_hash B) ?l"] exI [of _ "mth (node_hash B) ?r"]) simp
qed

lemma segment_leaves_nth:
  "segment_leaves B hs = map (\<lambda>i. B ([0] @ le64 (of_nat i) @ [0] @ opt_bytes (hs ! i))) [0..<length hs]"
  by (rule nth_equalityI) (simp_all add: segment_leaves_def leaf_message_def split_def nth_enumerate_eq)

lemma merkleReduce_Nil: "merkleReduce B [] = None"
  using merkleReduce_Some_nonempty [of B "[]"] by (cases "merkleReduce B []") auto

text \<open>C5: \<open>localSegmentRoot\<close> is the tree hash of RFC 6962 over the positioned leaves. It returns on every list of
  hashes. On the empty list the root is the hash of the byte 1. Otherwise leaf \<open>i\<close> is the hash of the
  byte 0, of \<open>i\<close> in eight bytes, of the byte 0 and of the \<open>i\<close>-th packet hash, and the root is the tree hash \<open>mth\<close> of the leaves
  in order, with the node over two parts hashed after the byte 1. The tree hash is that of the RFC: one leaf is its own
  hash, and a longer level is split at the largest power of two below its length; so promoting the odd entry, level by
  level, is the reference recursion. The guard is needed: on an empty level \<open>merkleReduce\<close> does not return.\<close>

theorem merkle_rfc6962:
  "(let leaves = map (\<lambda>i. B ([0] @ le64 (of_nat i) @ [0] @ opt_bytes (hs ! i))) [0..<length hs];
        node = (\<lambda>l r. B ([1] @ l @ r)) in
    localSegmentRoot B hs = Some (if hs = [] then B [1] else mth node leaves) \<and>
    LocalSegmentRootForHashes B hs = localSegmentRoot B hs \<and>
    (hs \<noteq> [] \<longrightarrow> localSegmentRoot B hs = merkleReduce B leaves)) \<and>
   (merkleReduce B level = None \<longleftrightarrow> level = []) \<and>
   merkleReduce B [x] = Some x \<and>
   (2 \<le> length level \<longrightarrow>
     (\<exists>k l r. 2 ^ k < length level \<and> length level \<le> 2 * 2 ^ k \<and>
        merkleReduce B (take (2 ^ k) level) = Some l \<and> merkleReduce B (drop (2 ^ k) level) = Some r \<and>
        merkleReduce B level = Some (B ([1] @ l @ r))))"
proof -
  have node: "node_hash B = (\<lambda>l r. B ([1] @ l @ r))" by (simp add: node_message_def fun_eq_iff)
  have root: "localSegmentRoot B hs = Some (if hs = [] then B [1] else mth (node_hash B) (segment_leaves B hs))"
  proof (cases "hs = []")
    case False
    then have "segment_leaves B hs \<noteq> []" by (simp add: segment_leaves_nth)
    then show ?thesis using False by (simp add: localSegmentRoot_def merkleReduce_mth)
  qed (simp add: localSegmentRoot_def)
  have "merkleReduce B level = None \<longleftrightarrow> level = []"
    using merkleReduce_mth [of level B] merkleReduce_Nil [of B] by (cases "level = []") auto
  moreover have "hs \<noteq> [] \<Longrightarrow> localSegmentRoot B hs = merkleReduce B (segment_leaves B hs)"
    by (simp add: localSegmentRoot_def)
  ultimately show ?thesis
    using root merkleReduce_split [of level B]
    unfolding Let_def LocalSegmentRootForHashes_def node segment_leaves_nth by simp
qed

theorem merkle_rfc6962_witness:
  "localSegmentRoot sha256 [Some [7], Some [8], None] =
     Some (sha256 ([1] @ sha256 ([1] @ sha256 ([0] @ le64 0 @ [0, 7]) @ sha256 ([0] @ le64 1 @ [0, 8])) @
       sha256 ([0] @ le64 2 @ [0])))"
proof -
  let ?node = "\<lambda>l r. sha256 ([1] @ l @ r)"
  have "[0..<length [Some [7 :: byte], Some [8], None]] = [0, 1, 2]" by (simp add: upt_rec)
  moreover have "split_point (Suc (Suc (Suc 0))) = 2" by (simp add: split_point.simps [of "Suc (Suc (Suc 0))"])
  moreover have "mth f [a, b, c] = f (f a b) c" if "split_point (Suc (Suc (Suc 0))) = 2" for f and a b c :: bytes
    using that by (simp add: mth.simps [of f "[a, b, c]"] mth.simps [of f "[a, b]"] mth.simps [of f "[a]"]
        mth.simps [of f "[b]"] mth.simps [of f "[c]"])
  ultimately show ?thesis
    using merkle_rfc6962 [of sha256 "[Some [7], Some [8], None]"] by (simp add: Let_def opt_bytes_def)
qed

text \<open>C4: the segment root commits to the list of packet hashes: if two segments of any lengths have
  the same root, then they hold the same hashes in the same order, or two of the messages
  hashed for them are a collision of BLAKE3. The prefixes 0 and 1 keep leaves and nodes apart, the
  index in the leaf and the fixed width of the digests do the rest.\<close>

theorem segment_root_binding:
  assumes B: "\<And>m. length (B m) = 32"
    and "localSegmentRoot B hs = localSegmentRoot B hs'"
  shows "map opt_bytes hs = map opt_bytes hs' \<or>
    (\<exists>x \<in> root_messages B hs. \<exists>y \<in> root_messages B hs'. collision B x y)"
proof -
  have d: "digest B" by unfold_locales (rule B)
  have one: "collision B [1] (tree_message B t)" if "B [1] = B (tree_message B t)" for t
    using that B by (cases t) (auto simp: collision_def node_message_def dest: arg_cong [of _ _ length])
  consider "hs = []" "hs' = []" | "hs = []" "hs' \<noteq> []" | "hs \<noteq> []" "hs' = []" | "hs \<noteq> []" "hs' \<noteq> []" by blast
  then show ?thesis
  proof cases
    case 2
    then have "B [1] = B (tree_message B (segment_tree hs'))"
      using assms(2) by (simp add: localSegmentRoot_tree) (simp add: localSegmentRoot_def)
    from one [OF this] 2 show ?thesis by (auto simp: root_messages_def)
  next
    case 3
    then have "B [1] = B (tree_message B (segment_tree hs))"
      using assms(2) by (simp add: localSegmentRoot_tree) (simp add: localSegmentRoot_def)
    with one [OF this] have "collision B (tree_message B (segment_tree hs)) [1]" by (auto simp: collision_def)
    then show ?thesis using 3 own_message [of B "segment_tree hs"] unfolding root_messages_def by auto
  next
    case 4
    then have "B (tree_message B (segment_tree hs)) = B (tree_message B (segment_tree hs'))"
      using assms(2) by (simp add: localSegmentRoot_tree)
    from tree_binding [OF d this] 4 segment_tree_inject [OF _ 4] show ?thesis by (auto simp: root_messages_def)
  qed simp
qed

text \<open>A digest that maps everything to zero is a poor one: two lists with the same root, and the
  collision the theorem extracts.\<close>

theorem segment_root_binding_witness:
  "\<exists>x \<in> root_messages (\<lambda>_. replicate 32 0) [Some [7], Some [8]].
     \<exists>y \<in> root_messages (\<lambda>_. replicate 32 0) [Some [7], Some [9]]. collision (\<lambda>_. replicate 32 0) x y"
proof -
  have "localSegmentRoot (\<lambda>_. replicate 32 0) [Some [7], Some [8]] = localSegmentRoot (\<lambda>_. replicate 32 0) [Some [7], Some [9]]"
    by (simp add: localSegmentRoot_def segment_leaves_def)
  from segment_root_binding [OF _ this] show ?thesis by simp
qed

end
