(* ===== verification/Uploader.thy ===== *)
theory Uploader
  imports Hotbuffer_Props Merkle
begin

text \<open>
  \<open>internal/uploader/uploader.go\<close>: the uploader reads the oldest contiguous range of pending
  packets of a session from the buffer, records a segment with the Merkle root of their hashes, and
  posts the segment's digest. What a flush finds outside the program (database failures, the
  clock, the answer of the HTTP server) is its argument; what it posts is part of its result.
\<close>

section \<open>Data\<close>

record UploaderState =
  endpoint :: string
  batchSize :: int
  retryInterval :: int

definition New :: "string \<Rightarrow> int \<Rightarrow> int \<Rightarrow> UploaderState" where
  "New ep batch interval = \<lparr>endpoint = ep, batchSize = batch, retryInterval = interval\<rparr>"

record segmentPayload =
  SpSessionID :: string
  SpSeqStart :: u64
  SpSeqEnd :: u64
  SpPacketCount :: int
  SpMerkleRoot :: string

definition payload_json :: "segmentPayload \<Rightarrow> bytes" where
  "payload_json seg =
     bytes_of (json_print (JObj
       [(''session_id'', JStr (SpSessionID seg)), (''seq_start'', JNum (dec_nat (unat (SpSeqStart seg)))),
        (''seq_end'', JNum (dec_nat (unat (SpSeqEnd seg)))), (''packet_count'', JNum (dec_int (SpPacketCount seg))),
        (''merkle_root'', JStr (SpMerkleRoot seg))]))"

text \<open>What happens on the network: whether the request could be built, and the transport's error
  or the status of the response.\<close>

record http_env =
  request_err :: "err option"
  http_reply :: "int res"

record flush_env =
  pending_err :: "err option"
  pending_early :: "nat option"
  hashes_err :: "err option"
  hashes_rows_err :: "err option"
  segment_tx :: tx_faults
  segment_now :: gotime
  http :: http_env

section \<open>Operations\<close>

text \<open>\<open>ship\<close>: the error, and the request that was sent, if one was.\<close>

definition ship :: "UploaderState \<Rightarrow> http_env \<Rightarrow> segmentPayload \<Rightarrow> err option \<times> (string \<times> bytes) list" where
  "ship u env seg =
     (let payload = payload_json seg in
      if endpoint u = [] then (None, [])
      else case request_err env of
        Some e \<Rightarrow> (Some e, [])
      | None \<Rightarrow>
          (case http_reply env of
             Inl e \<Rightarrow> (Some (Wrap (''POST '' @ endpoint u) e), [(endpoint u @ ''/segments'', payload)])
           | Inr status \<Rightarrow>
               (if 300 \<le> status then Some (Err (''upstream returned '' @ dec_int status)) else None,
                [(endpoint u @ ''/segments'', payload)])))"

text \<open>\<open>flush\<close>: the error, the requests sent and the database afterwards; \<open>None\<close> would be a
  root that is never computed.\<close>

definition flush ::
  "(bytes \<Rightarrow> bytes) \<Rightarrow> UploaderState \<Rightarrow> flush_env \<Rightarrow> string \<Rightarrow> database
     \<Rightarrow> (err option \<times> (string \<times> bytes) list \<times> database) option" where
  "flush B u env sessionID db =
     (case PendingRange (pending_err env) (pending_early env) sessionID (batchSize u) db of
        Inl e \<Rightarrow> Some (Some (Wrap ''pending range'' e), [], db)
      | Inr (seqStart, seqEnd, rowIDs) \<Rightarrow>
          if length rowIDs = 0 then Some (None, [], db)
          else case PacketHashes (hashes_err env) (hashes_rows_err env) rowIDs db of
            Inl e \<Rightarrow> Some (Some (Wrap ''fetch hashes'' e), [], db)
          | Inr hashes \<Rightarrow>
              (case localSegmentRoot B hashes of
                 None \<Rightarrow> None
               | Some merkleRoot \<Rightarrow>
                   (let seg = \<lparr>SpSessionID = sessionID, SpSeqStart = seqStart, SpSeqEnd = seqEnd,
                               SpPacketCount = int (length rowIDs), SpMerkleRoot = hex_encode merkleRoot\<rparr>
                    in case WriteSegment (segment_tx env) (segment_now env) sessionID seqStart seqEnd
                              (int (length rowIDs)) merkleRoot rowIDs db of
                         (Some e, db1) \<Rightarrow> Some (Some (Wrap ''write segment'' e), [], db1)
                       | (None, db1) \<Rightarrow>
                           (let (err, sent) = ship u (http env) seg in Some (err, sent, db1)))))"

text \<open>The loop of \<open>Run\<close>: a tick flushes, and an error is only logged.\<close>

datatype upload_event = UDone | UTick flush_env

fun upload_loop ::
  "(bytes \<Rightarrow> bytes) \<Rightarrow> UploaderState \<Rightarrow> string \<Rightarrow> upload_event list \<Rightarrow> database
     \<Rightarrow> ((string \<times> bytes) list \<times> database) option" where
  "upload_loop B u s [] db = Some ([], db)"
| "upload_loop B u s (UDone # es) db = Some ([], db)"
| "upload_loop B u s (UTick env # es) db =
     (case flush B u env s db of
        None \<Rightarrow> None
      | Some (err, sent, db1) \<Rightarrow> map_option (apfst ((@) sent)) (upload_loop B u s es db1))"

text \<open>\<open>Run\<close>: \<open>time.NewTicker\<close> panics unless the interval is positive (\<open>None\<close>).\<close>

definition UploaderRun ::
  "(bytes \<Rightarrow> bytes) \<Rightarrow> UploaderState \<Rightarrow> string \<Rightarrow> upload_event list \<Rightarrow> database
     \<Rightarrow> ((string \<times> bytes) list \<times> database) option" where
  "UploaderRun B u s es db = (if retryInterval u \<le> 0 then None else upload_loop B u s es db)"

section \<open>Flush, case by case\<close>

lemma localSegmentRoot_total: "\<exists>root. localSegmentRoot B hs = Some root"
  by (cases "hs = []") (simp_all add: localSegmentRoot_tree, simp add: localSegmentRoot_def)

lemma PacketHashes_length: "PacketHashes q r ids db = Inr hs \<Longrightarrow> length hs = length ids"
  by (auto simp: PacketHashes_def split: if_splits option.splits sum.splits)

lemma flush_cases:
  obtains (idle) err where "flush B u env s db = Some (err, [], db)"
      "err = None \<Longrightarrow> \<exists>a b. PendingRange (pending_err env) (pending_early env) s (batchSize u) db = Inr (a, b, [])"
  | (segment) a b ids hs root where
      "PendingRange (pending_err env) (pending_early env) s (batchSize u) db = Inr (a, b, ids)" "ids \<noteq> []"
      "PacketHashes (hashes_err env) (hashes_rows_err env) ids db = Inr hs"
      "localSegmentRoot B hs = Some root"
      "flush B u env s db =
        (let (err, sent) = ship u (http env) \<lparr>SpSessionID = s, SpSeqStart = a, SpSeqEnd = b,
               SpPacketCount = int (length ids), SpMerkleRoot = hex_encode root\<rparr>
         in Some (err, sent, segment_written (segment_now env) s a b (int (length ids)) root ids db))"
proof (cases "PendingRange (pending_err env) (pending_early env) s (batchSize u) db")
  case (Inl e)
  then show ?thesis using idle by (simp add: flush_def)
next
  case (Inr r)
  obtain a b ids where r: "r = (a, b, ids)" by (metis prod_cases3)
  show ?thesis
  proof (cases "ids = []")
    case True
    then show ?thesis using idle Inr r by (simp add: flush_def)
  next
    case ids: False
    show ?thesis
    proof (cases "PacketHashes (hashes_err env) (hashes_rows_err env) ids db")
      case (Inl e)
      then show ?thesis using idle Inr r ids by (simp add: flush_def)
    next
      case hs: (Inr hs)
      obtain root where root: "localSegmentRoot B hs = Some root" using localSegmentRoot_total by blast
      show ?thesis
      proof (rule WriteSegment_cases [of "segment_tx env" "segment_now env" s a b "int (length ids)" root ids db])
        fix e assume "WriteSegment (segment_tx env) (segment_now env) s a b (int (length ids)) root ids db = (Some e, db)"
        then show ?thesis using idle Inr r ids hs root by (simp add: flush_def)
      next
        assume "WriteSegment (segment_tx env) (segment_now env) s a b (int (length ids)) root ids db =
            (None, segment_written (segment_now env) s a b (int (length ids)) root ids db)"
        then show ?thesis using segment [OF Inr [unfolded r] ids hs root] Inr r ids hs root
          by (simp add: flush_def)
      qed
    qed
  qed
qed

lemma flush_total: "\<exists>err sent db'. flush B u env s db = Some (err, sent, db')"
  by (rule flush_cases [of B u env s db]) (auto split: prod.split)

lemma flush_db_wf: "db_wf db \<Longrightarrow> flush B u env s db = Some (err, sent, db') \<Longrightarrow> db_wf db'"
  by (rule flush_cases [of B u env s db]) (auto simp: db_wf_segment_written split: prod.splits)

end
