(* ===== verification/Uploader_Props.thy ===== *)
theory Uploader_Props
  imports Uploader
begin

text \<open>
  What the uploader promises about the buffer it drains. The accounting is done once, in a locale
  for a queue that is emptied batch by batch, and the flush of the uploader is an instance of it:
  the keys are the sequence numbers of the pending packets of one session.
\<close>

section \<open>Queues that are emptied in batches\<close>

locale batch_queue =
  fixes ok_state :: "'d \<Rightarrow> bool"
    and waiting :: "'d \<Rightarrow> 'k set"
    and take_batch :: "'e \<Rightarrow> 'd \<Rightarrow> 'k list \<times> 'd"
  assumes keeps_ok: "ok_state d \<Longrightarrow> take_batch e d = (ks, d') \<Longrightarrow> ok_state d'"
    and takes: "ok_state d \<Longrightarrow> take_batch e d = (ks, d') \<Longrightarrow>
          distinct ks \<and> set ks \<subseteq> waiting d \<and> waiting d' = waiting d - set ks"
begin

primrec batches :: "'e list \<Rightarrow> 'd \<Rightarrow> 'k list \<times> 'd" where
  "batches [] d = ([], d)"
| "batches (e # es) d =
     (let (ks, d1) = take_batch e d; (rest, d2) = batches es d1 in (ks @ rest, d2))"

text \<open>Every key is taken at most once, and exactly the taken ones stop waiting.\<close>

lemma batches_account:
  "ok_state d \<Longrightarrow> batches es d = (ks, d') \<Longrightarrow>
     ok_state d' \<and> distinct ks \<and> set ks \<subseteq> waiting d \<and> waiting d' = waiting d - set ks"
proof (induction es arbitrary: d ks d')
  case (Cons e es)
  obtain k1 d1 where t: "take_batch e d = (k1, d1)" by fastforce
  obtain k2 d2 where r: "batches es d1 = (k2, d2)" by fastforce
  have ks: "ks = k1 @ k2" "d' = d2" using Cons.prems(2) t r by simp_all
  note one = takes [OF Cons.prems(1) t]
  have "ok_state d2 \<and> distinct k2 \<and> set k2 \<subseteq> waiting d1 \<and> waiting d2 = waiting d1 - set k2"
    by (rule Cons.IH [OF keeps_ok [OF Cons.prems(1) t] r])
  with one show ?case unfolding ks by auto
qed simp

end

text \<open>A queue that makes progress: where a batch can be taken, it is not empty.\<close>

locale live_batch_queue = batch_queue ok_state waiting take_batch
  for ok_state :: "'d \<Rightarrow> bool" and waiting :: "'d \<Rightarrow> 'k set" and take_batch :: "'e \<Rightarrow> 'd \<Rightarrow> 'k list \<times> 'd" +
  fixes able :: "'d \<Rightarrow> bool" and good :: "'e \<Rightarrow> bool"
  assumes finite_waiting: "ok_state d \<Longrightarrow> finite (waiting d)"
    and keeps_able: "ok_state d \<Longrightarrow> able d \<Longrightarrow> take_batch e d = (ks, d') \<Longrightarrow> able d'"
    and progress: "ok_state d \<Longrightarrow> able d \<Longrightarrow> good e \<Longrightarrow> take_batch e d = (ks, d') \<Longrightarrow>
          waiting d \<noteq> {} \<Longrightarrow> ks \<noteq> []"
begin

lemma batches_drain:
  "ok_state d \<Longrightarrow> able d \<Longrightarrow> list_all good es \<Longrightarrow> card (waiting d) \<le> length es \<Longrightarrow>
     waiting (snd (batches es d)) = {}"
proof (induction es arbitrary: d)
  case Nil
  then show ?case using finite_waiting by simp
next
  case (Cons e es)
  obtain ks d1 where t: "take_batch e d = (ks, d1)" by fastforce
  note one = takes [OF Cons.prems(1) t] and fin = finite_waiting [OF Cons.prems(1)]
  have "card (waiting d1) \<le> length es"
  proof (cases "waiting d = {}")
    case False
    then have "ks \<noteq> []" using progress [OF Cons.prems(1,2) _ t] Cons.prems(3) by simp
    then have "waiting d1 \<subset> waiting d" using one by (cases ks) auto
    then have "card (waiting d1) < card (waiting d)" by (rule psubset_card_mono [OF fin])
    with Cons.prems(4) show ?thesis by simp
  qed (use one in simp)
  then have "waiting (snd (batches es d1)) = {}"
    using Cons.prems keeps_ok [OF Cons.prems(1) t] keeps_able [OF Cons.prems(1,2) t] by (intro Cons.IH) simp_all
  then show ?case by (simp add: t case_prod_beta)
qed

end

section \<open>The flush as a batch\<close>

text \<open>The numbers a segment covers, the request that would announce it, and the segments a
  step added.\<close>

definition numbers :: "segment_row \<Rightarrow> nat list" where
  "numbers g = [unat (seq_start g) ..< Suc (unat (seq_end g))]"

definition announcement :: "UploaderState \<Rightarrow> segment_row \<Rightarrow> string \<times> bytes" where
  "announcement u g = (endpoint u @ ''/segments'', payload_json
     \<lparr>SpSessionID = sg_session_id g, SpSeqStart = seq_start g, SpSeqEnd = seq_end g,
      SpPacketCount = packet_count g, SpMerkleRoot = hex_encode (merkle_root g)\<rparr>)"

definition new_segments :: "database \<Rightarrow> database \<Rightarrow> segment_row list" where
  "new_segments db db' = drop (length (segments db)) (segments db')"

definition after_flush :: "(bytes \<Rightarrow> bytes) \<Rightarrow> UploaderState \<Rightarrow> string \<Rightarrow> flush_env \<Rightarrow> database \<Rightarrow> database" where
  "after_flush B u s env db = (case flush B u env s db of None \<Rightarrow> db | Some (err, sent, db') \<Rightarrow> db')"

definition flush_batch ::
  "(bytes \<Rightarrow> bytes) \<Rightarrow> UploaderState \<Rightarrow> string \<Rightarrow> flush_env \<Rightarrow> database \<Rightarrow> nat list \<times> database" where
  "flush_batch B u s env db =
     (let db' = after_flush B u s env db in (concat (map numbers (new_segments db db')), db'))"

definition pending_numbers :: "string \<Rightarrow> database \<Rightarrow> nat set" where
  "pending_numbers s db = (\<lambda>r. unat (seq r)) ` pending s db"

lemma pending_finite [simp]: "finite (pending s db)"
  by (simp add: pending_def)

lemma row_eqI:
  assumes "db_wf db" "r \<in> set (packets db)" "r' \<in> set (packets db)"
  shows "pk_id r = pk_id r' \<Longrightarrow> r = r'"
    and "session_id r = session_id r' \<Longrightarrow> seq r = seq r' \<Longrightarrow> r = r'"
proof -
  have "distinct (map pk_id (packets db))" "distinct (map (\<lambda>r. (session_id r, seq r)) (packets db))"
    using assms(1) by (auto simp: db_wf_def intro: ids_ok_distinct)
  then show "pk_id r = pk_id r' \<Longrightarrow> r = r'" "session_id r = session_id r' \<Longrightarrow> seq r = seq r' \<Longrightarrow> r = r'"
    using assms(2,3) by (auto simp: distinct_map inj_on_def)
qed

lemma find_row:
  assumes "db_wf db" "r \<in> set (packets db)"
  shows "find (\<lambda>x. pk_id x = pk_id r) (packets db) = Some r"
proof (cases "find (\<lambda>x. pk_id x = pk_id r) (packets db)")
  case None
  then show ?thesis using assms(2) by (auto simp: find_None_iff)
next
  case (Some x)
  then have "x \<in> set (packets db)" "pk_id x = pk_id r" by (auto simp: find_Some_iff)
  then show ?thesis using Some row_eqI(1) [OF assms(1) _ assms(2)] by simp
qed

text \<open>Marking rows takes exactly them from the pending ones.\<close>

lemma pending_segment_written:
  assumes "db_wf db" "set rs \<subseteq> pending s db"
  shows "pending s (segment_written now s a b n root (map pk_id rs) db) = pending s db - set rs"
proof -
  have ids: "pk_id r \<in> set (map pk_id rs) \<longleftrightarrow> r \<in> set rs" if "r \<in> set (packets db)" for r
    using assms that row_eqI(1) [OF assms(1)] by (auto simp: pending_def)
  have "mark g (set (map pk_id rs)) r = (if r \<in> set rs then r\<lparr>upload_state := ''uploaded'', segment_id := Some g\<rparr> else r)"
    if "r \<in> set (packets db)" for r g
    using ids [OF that] by (simp only: mark_def)
  then have "packets (segment_written now s a b n root (map pk_id rs) db) =
      map (\<lambda>r. if r \<in> set rs then r\<lparr>upload_state := ''uploaded'', segment_id := Some (segments_last db + 1)\<rparr> else r)
        (packets db)"
    by (simp add: segment_written_def Let_def)
  then show ?thesis by (auto simp: pending_def split: if_splits)
qed

lemma ship_outcome:
  assumes "ship u env seg = (err, sent)"
  shows "sent = [] \<longleftrightarrow> endpoint u = [] \<or> request_err env \<noteq> None"
    and "err = None \<longleftrightarrow> endpoint u = [] \<or> request_err env = None \<and> (\<exists>status < 300. http_reply env = Inr status)"
proof -
  show "sent = [] \<longleftrightarrow> endpoint u = [] \<or> request_err env \<noteq> None"
    using assms by (cases "request_err env"; cases "http_reply env") (auto simp: ship_def Let_def split: if_splits)
  show "err = None \<longleftrightarrow> endpoint u = [] \<or> request_err env = None \<and> (\<exists>status < 300. http_reply env = Inr status)"
    using assms by (cases "request_err env"; cases "http_reply env") (auto dest!: sym [of "Some _"] simp: ship_def Let_def split: if_splits)
qed

text \<open>One flush, in terms of the rows it takes.\<close>

lemma flush_rows:
  assumes "db_wf db"
  obtains (idle) err where "flush B u env s db = Some (err, [], db)"
      "err = None \<longrightarrow> (\<exists>a b. PendingRange (pending_err env) (pending_early env) s (batchSize u) db = Inr (a, b, []))"
  | (segment) err sent rs a b root where "rs \<noteq> []" "set rs \<subseteq> pending s db"
      "map (\<lambda>r. unat (seq r)) rs = [unat a ..< Suc (unat b)]"
      "localSegmentRoot B (map stored_hash rs) = Some root"
      "sent = [] \<or> sent = [(endpoint u @ ''/segments'', payload_json \<lparr>SpSessionID = s, SpSeqStart = a,
         SpSeqEnd = b, SpPacketCount = int (length rs), SpMerkleRoot = hex_encode root\<rparr>)]"
      "flush B u env s db = Some (err, sent,
         segment_written (segment_now env) s a b (int (length rs)) root (map pk_id rs) db)"
      "PendingRange (pending_err env) (pending_early env) s (batchSize u) db = Inr (a, b, map pk_id rs)"
      "sent = [] \<longleftrightarrow> endpoint u = [] \<or> request_err (http env) \<noteq> None"
      "err = None \<longleftrightarrow> endpoint u = [] \<or> request_err (http env) = None \<and> (\<exists>status < 300. http_reply (http env) = Inr status)"
proof (rule flush_cases [of B u env s db])
  fix err assume "flush B u env s db = Some (err, [], db)"
    and none: "err = None \<Longrightarrow> \<exists>a b. PendingRange (pending_err env) (pending_early env) s (batchSize u) db = Inr (a, b, [])"
  then show thesis by (intro idle) blast+
next
  fix a b ids hs root
  assume range: "PendingRange (pending_err env) (pending_early env) s (batchSize u) db = Inr (a, b, ids)" "ids \<noteq> []"
    and hs: "PacketHashes (hashes_err env) (hashes_rows_err env) ids db = Inr hs"
    and root: "localSegmentRoot B hs = Some root"
    and eq: "flush B u env s db =
        (let (err, sent) = ship u (http env) \<lparr>SpSessionID = s, SpSeqStart = a, SpSeqEnd = b,
               SpPacketCount = int (length ids), SpMerkleRoot = hex_encode root\<rparr>
         in Some (err, sent, segment_written (segment_now env) s a b (int (length ids)) root ids db))"
  obtain rs where rs: "rs \<noteq> []" "set rs \<subseteq> pending s db" "map pk_id rs = ids"
      "map (\<lambda>r. unat (seq r)) rs = [unat a ..< Suc (unat b)]"
    using PendingRange_interval [OF assms range] by blast
  have len: "length ids = length rs" using rs(3) by auto
  have "hs = map stored_hash rs"
    unfolding PacketHashes_stored [OF assms hs] rs(3) [symmetric]
    using rs(2) find_row [OF assms] by (auto simp: pending_def)
  with root have root': "localSegmentRoot B (map stored_hash rs) = Some root" by simp
  obtain err sent where sh: "ship u (http env) \<lparr>SpSessionID = s, SpSeqStart = a, SpSeqEnd = b,
      SpPacketCount = int (length rs), SpMerkleRoot = hex_encode root\<rparr> = (err, sent)" by fastforce
  then have "sent = [] \<or> sent = [(endpoint u @ ''/segments'', payload_json \<lparr>SpSessionID = s, SpSeqStart = a,
      SpSeqEnd = b, SpPacketCount = int (length rs), SpMerkleRoot = hex_encode root\<rparr>)]"
    by (auto simp: ship_def Let_def split: if_splits option.splits sum.splits)
  moreover have "sent = [] \<longleftrightarrow> endpoint u = [] \<or> request_err (http env) \<noteq> None"
    "err = None \<longleftrightarrow> endpoint u = [] \<or> request_err (http env) = None \<and> (\<exists>status < 300. http_reply (http env) = Inr status)"
    by (rule ship_outcome [OF sh])+
  moreover have "flush B u env s db = Some (err, sent,
      segment_written (segment_now env) s a b (int (length rs)) root (map pk_id rs) db)"
    using eq sh by (simp add: rs(3) len)
  ultimately show thesis using segment [OF rs(1,2,4) root'] range(1) rs(3) by blast
qed

lemma interval_le: "xs \<noteq> [] \<Longrightarrow> map f xs = [m ..< Suc n] \<Longrightarrow> m \<le> n"
  by (cases "m \<le> n") simp_all

lemma segments_written:
  "segments (segment_written now s a b n root ids db) = segments db @
     [\<lparr>sg_id = segments_last db + 1, sg_session_id = s, seq_start = a, seq_end = b, packet_count = n,
       merkle_root = root, sg_created_at = rfc3339nano now, sg_upload_state = ''pending''\<rparr>]"
  by (simp add: segment_written_def Let_def)

text \<open>What a flush does to the numbers, the segments and the requests.\<close>

definition accounted ::
  "UploaderState \<Rightarrow> string \<Rightarrow> nat list \<Rightarrow> (string \<times> bytes) list \<Rightarrow> database \<Rightarrow> database \<Rightarrow> bool" where
  "accounted u s ks sent db db' \<longleftrightarrow>
     distinct ks \<and> set ks \<subseteq> pending_numbers s db \<and> pending_numbers s db' = pending_numbers s db - set ks \<and>
     pending s db' \<subseteq> pending s db \<and> segments db' = segments db @ new_segments db db' \<and>
     ks = concat (map numbers (new_segments db db')) \<and>
     set sent \<subseteq> announcement u ` set (new_segments db db')"

lemma flush_account:
  assumes "db_wf db" "flush B u env s db = Some (err, sent, db')"
  shows "\<exists>ks. flush_batch B u s env db = (ks, db') \<and> accounted u s ks sent db db'"
proof (rule flush_rows [OF assms(1), of B u env s])
  fix err' assume "flush B u env s db = Some (err', [], db)"
  then show ?thesis
    using assms(2) by (auto simp: accounted_def flush_batch_def after_flush_def new_segments_def)
next
  fix err' sent' a b root and rs :: "packet_row list"
  let ?db = "segment_written (segment_now env) s a b (int (length rs)) root (map pk_id rs) db"
  assume rs: "set rs \<subseteq> pending s db" and iv: "map (\<lambda>r. unat (seq r)) rs = [unat a ..< Suc (unat b)]"
    and sent: "sent' = [] \<or> sent' = [(endpoint u @ ''/segments'', payload_json \<lparr>SpSessionID = s, SpSeqStart = a,
      SpSeqEnd = b, SpPacketCount = int (length rs), SpMerkleRoot = hex_encode root\<rparr>)]"
    and fl: "flush B u env s db = Some (err', sent', ?db)"
  have db': "db' = ?db" "sent = sent'" using assms(2) fl by simp_all
  have new: "new_segments db ?db = drop (length (segments db)) (segments ?db)" by (simp add: new_segments_def)
  have batch: "flush_batch B u s env db = ([unat a ..< Suc (unat b)], ?db)"
    by (simp add: flush_batch_def after_flush_def fl new segments_written numbers_def Let_def)
  have taken: "set [unat a ..< Suc (unat b)] = (\<lambda>r. unat (seq r)) ` set rs"
    by (simp only: iv [symmetric] set_map)
  note p = pending_segment_written [OF assms(1) rs, of "segment_now env" a b "int (length rs)" root]
  have "inj_on (\<lambda>r. unat (seq r)) (pending s db)"
    using row_eqI(2) [OF assms(1)] by (auto simp: inj_on_def pending_def word_unat_eq_iff [symmetric])
  then have "pending_numbers s ?db = pending_numbers s db - set [unat a ..< Suc (unat b)]"
    unfolding pending_numbers_def p taken using rs by (simp add: inj_on_image_set_diff)
  moreover have "set [unat a ..< Suc (unat b)] \<subseteq> pending_numbers s db"
    unfolding taken pending_numbers_def using rs by blast
  ultimately have "accounted u s [unat a ..< Suc (unat b)] sent' db ?db"
    using sent unfolding accounted_def p
    by (auto simp: new segments_written announcement_def numbers_def simp del: upt_Suc)
  then show ?thesis unfolding db' using batch by blast
qed

section \<open>The queue of one session\<close>

lemma flush_batch_cases:
  assumes "db_wf db" "flush_batch B u s env db = (ks, d')"
  obtains err sent where "flush B u env s db = Some (err, sent, d')" "accounted u s ks sent db d'"
proof -
  obtain err sent db' where fl: "flush B u env s db = Some (err, sent, db')" using flush_total by blast
  show thesis using that fl flush_account [OF assms(1) fl] assms(2) by auto
qed

interpretation upload_queue: batch_queue db_wf "pending_numbers s" "flush_batch B u s" for B u s
proof (unfold_locales, goal_cases)
  case (1 d e ks d')
  then show ?case by (rule flush_batch_cases) (simp add: flush_db_wf [OF 1(1)])
next
  case (2 d e ks d')
  then show ?case by (rule flush_batch_cases) (unfold accounted_def, blast)
qed

text \<open>When the database works and the batch size is not zero, a flush takes something: the hashes
  of the pending rows can be decoded.\<close>

definition hash_readable :: "packet_row \<Rightarrow> bool" where
  "hash_readable r = (case packet_blake3 r of None \<Rightarrow> True | Some h \<Rightarrow> (case hex_decode h of Inl _ \<Rightarrow> False | Inr _ \<Rightarrow> True))"

definition working :: "flush_env \<Rightarrow> bool" where
  "working env \<longleftrightarrow> pending_err env = None \<and> pending_early env = None \<and> hashes_err env = None \<and>
     hashes_rows_err env = None \<and> begin_fault (segment_tx env) = None \<and>
     insert_fault (segment_tx env) = None \<and> update_fault (segment_tx env) = (\<lambda>_. None) \<and>
     commit_fault (segment_tx env) = None"

lemma hash_map_readable: "list_all hash_readable rs \<Longrightarrow> \<exists>m. hash_map rs = Inr m"
  by (induction rs) (auto simp: hash_readable_def split: option.splits sum.splits)

lemma PacketHashes_readable:
  assumes "\<forall>r \<in> set (packets db). pk_id r \<in> set ids \<longrightarrow> hash_readable r"
  shows "\<exists>hs. PacketHashes None None ids db = Inr hs"
proof -
  obtain m where "hash_map (filter (\<lambda>r. pk_id r \<in> set ids) (packets db)) = Inr m"
    using hash_map_readable [of "filter (\<lambda>r. pk_id r \<in> set ids) (packets db)"] assms
    by (auto simp: list_all_iff)
  then show ?thesis by (simp add: PacketHashes_def)
qed

lemma PendingRange_some:
  assumes "m \<noteq> 0" "pending s db \<noteq> {}"
  obtains a b ids where "PendingRange None None s m db = Inr (a, b, ids)" "ids \<noteq> []"
proof -
  have "pending_sorted s db \<noteq> []" using assms(2) set_pending_sorted [of s db] by force
  then have "sql_limit m (pending_sorted s db) \<noteq> []" using assms(1) by (simp add: sql_limit_def)
  then show thesis
    using that contiguous_pos [of "map seq (sql_limit m (pending_sorted s db))"]
    by (simp add: PendingRange_def pending_rows_prefix Let_def)
qed

lemma WriteSegment_working:
  "working env \<Longrightarrow> sql_uint_ok a \<Longrightarrow> sql_uint_ok b \<Longrightarrow>
     WriteSegment (segment_tx env) now s a b n root ids db = (None, segment_written now s a b n root ids db)"
proof (rule WriteSegment_cases [of "segment_tx env" now s a b n root ids db])
  fix e assume *: "working env" "sql_uint_ok a" "sql_uint_ok b"
    "WriteSegment (segment_tx env) now s a b n root ids db = (Some e, db)"
  have "mark_all (\<lambda>_. None) g is d0 \<noteq> Inl x" for g "is" d0 x
    using mark_all_ok [of "is" "\<lambda>_. None" g d0] by auto
  then show ?thesis using * by (auto simp: WriteSegment_def working_def Let_def split: sum.splits)
qed

lemma flush_progress:
  assumes "db_wf db" "\<forall>r \<in> pending s db. hash_readable r" "working env" "batchSize u \<noteq> 0" "pending s db \<noteq> {}"
    "flush B u env s db = Some (err, sent, db')"
  shows "new_segments db db' \<noteq> []"
proof -
  obtain a b ids where range: "PendingRange None None s (batchSize u) db = Inr (a, b, ids)" "ids \<noteq> []"
    by (rule PendingRange_some [OF assms(4,5)])
  obtain rs where rs: "rs \<noteq> []" "set rs \<subseteq> pending s db" "map pk_id rs = ids"
      "map (\<lambda>r. unat (seq r)) rs = [unat a ..< Suc (unat b)]"
    using PendingRange_interval [OF assms(1) range] by blast
  have "hash_readable r" if r: "r \<in> set (packets db)" "pk_id r \<in> set ids" for r
  proof -
    obtain r' where "r' \<in> set rs" "pk_id r = pk_id r'" using r(2) rs(3) by auto
    then have "r \<in> pending s db" using rs(2) row_eqI(1) [OF assms(1) r(1), of r'] by (auto simp: pending_def)
    then show ?thesis using assms(2) by blast
  qed
  then obtain hs where hs: "PacketHashes None None ids db = Inr hs" using PacketHashes_readable by blast
  obtain root where root: "localSegmentRoot B hs = Some root" using localSegmentRoot_total by blast
  have "unat a \<le> unat b" by (rule interval_le [OF rs(1,4)])
  then have "unat a \<in> set (map (\<lambda>r. unat (seq r)) rs)" "unat b \<in> set (map (\<lambda>r. unat (seq r)) rs)"
    unfolding rs(4) by (auto simp del: upt_Suc)
  then have ok: "sql_uint_ok a" "sql_uint_ok b"
    using rs(2) pending_bound [OF assms(1), of _ s] by (auto simp: sql_uint_ok_def word_unat_eq_iff [symmetric])
  have "db' = segment_written (segment_now env) s a b (int (length ids)) root ids db"
    using assms(3,6) range hs root WriteSegment_working [OF assms(3) ok]
    by (auto simp: flush_def working_def split: prod.splits)
  then show ?thesis by (simp add: new_segments_def segments_written)
qed

interpretation upload_live: live_batch_queue db_wf "pending_numbers s" "flush_batch B u s"
    "\<lambda>db. batchSize u \<noteq> 0 \<and> (\<forall>r \<in> pending s db. hash_readable r)" working for B u s
proof (unfold_locales, goal_cases)
  case 1
  then show ?case by (simp add: pending_numbers_def)
next
  case (2 d e ks d')
  show ?case by (rule flush_batch_cases [OF 2(1,3)]) (use 2(2) in \<open>auto simp: accounted_def\<close>)
next
  case (3 d e ks d')
  obtain err sent where fl: "flush B u e s d = Some (err, sent, d')" and acc: "accounted u s ks sent d d'"
    by (rule flush_batch_cases [OF 3(1,4)])
  have new: "new_segments d d' \<noteq> []"
    using 3 by (intro flush_progress [OF 3(1) _ 3(3) _ _ fl]) (auto simp: pending_numbers_def)
  have "numbers g \<noteq> []" if "g \<in> set (new_segments d d')" for g
    by (rule flush_rows [OF 3(1), of B u e s])
      (use fl that in \<open>auto simp: new_segments_def segments_written numbers_def dest: interval_le simp del: upt_Suc\<close>)
  then show ?case using new acc by (cases "new_segments d d'") (auto simp: accounted_def)
qed

section \<open>The loop\<close>

fun ticks :: "upload_event list \<Rightarrow> flush_env list" where
  "ticks (UTick env # es) = env # ticks es"
| "ticks es = []"

lemma accounted_refl: "accounted u s [] [] db db"
  by (simp add: accounted_def new_segments_def)

lemma accounted_trans:
  assumes "accounted u s k1 s1 db db1" "accounted u s k2 s2 db1 db2"
  shows "accounted u s (k1 @ k2) (s1 @ s2) db db2"
proof -
  have "segments db2 = segments db @ new_segments db db1 @ new_segments db1 db2"
    using assms by (metis accounted_def append.assoc)
  then have new: "new_segments db db2 = new_segments db db1 @ new_segments db1 db2"
    unfolding new_segments_def [of db db2] by (metis append_eq_conv_conj)
  have ks: "k1 @ k2 = concat (map numbers (new_segments db db2))"
    using assms by (simp add: accounted_def new)
  have "distinct k1 \<and> set k1 \<subseteq> pending_numbers s db \<and> pending_numbers s db1 = pending_numbers s db - set k1"
      "distinct k2 \<and> set k2 \<subseteq> pending_numbers s db1 \<and> pending_numbers s db2 = pending_numbers s db1 - set k2"
    using assms unfolding accounted_def by blast+
  then have "distinct (k1 @ k2) \<and> set (k1 @ k2) \<subseteq> pending_numbers s db \<and>
      pending_numbers s db2 = pending_numbers s db - set (k1 @ k2)"
    by auto
  moreover have "pending s db2 \<subseteq> pending s db" "segments db2 = segments db @ new_segments db db2"
      "set (s1 @ s2) \<subseteq> announcement u ` set (new_segments db db2)"
    using assms unfolding accounted_def new by (auto simp del: map_append concat_append)
  ultimately show ?thesis using ks unfolding accounted_def by blast
qed

lemma upload_loop_batches:
  "db_wf db \<Longrightarrow> \<exists>sent db' ks. upload_loop B u s es db = Some (sent, db') \<and>
     upload_queue.batches B u s (ticks es) db = (ks, db') \<and> accounted u s ks sent db db' \<and> db_wf db'"
proof (induction es arbitrary: db)
  case (Cons e es)
  show ?case
  proof (cases e)
    case (UTick env)
    obtain err s1 db1 where fl: "flush B u env s db = Some (err, s1, db1)" using flush_total by blast
    obtain k1 where k1: "flush_batch B u s env db = (k1, db1)" "accounted u s k1 s1 db db1"
      using flush_account [OF Cons.prems fl] by blast
    obtain s2 db2 k2 where rest: "upload_loop B u s es db1 = Some (s2, db2)"
        "upload_queue.batches B u s (ticks es) db1 = (k2, db2)" "accounted u s k2 s2 db1 db2" "db_wf db2"
      using Cons.IH [OF flush_db_wf [OF Cons.prems fl]] by blast
    then show ?thesis using UTick fl k1 accounted_trans [OF k1(2) rest(3)] by simp
  qed (use Cons.prems in \<open>simp add: accounted_refl\<close>)
qed (simp add: accounted_refl)

section \<open>Properties\<close>

lemma flush_idle_working:
  assumes "working env" "pending s db = {}"
  shows "flush B u env s db = Some (None, [], db)"
proof -
  have "pending_sorted s db = []" using assms(2) by (metis set_empty set_pending_sorted)
  then have "PendingRange None None s m db = Inr (0, 0, [])" for m
    by (simp add: PendingRange_def pending_rows_prefix sql_limit_def Let_def)
  then show ?thesis using assms(1) by (simp add: flush_def working_def)
qed

text \<open>C6: What one flush does. Either it leaves the database as it is and sends nothing: then it reports an
  error or found no range, and when the database works and the hashes can be read, nothing was pending and it reports no
  error. Or it records exactly one segment, for the range that \<open>PendingRange\<close> gave: an interval of numbers whose rows
  were all pending, with their count and the Merkle root of their stored hashes in the order of the numbers;
  these rows are marked with the segment, all others stay; the segment is announced, in one request to
  the endpoint, exactly when an endpoint is configured and the request can be built; and the flush reports no error
  exactly when there is no endpoint or the server answered with a status below 300.\<close>

theorem flush_records_segment:
  assumes "db_wf db"
  shows "case flush B u env s db of
     None \<Rightarrow> False
   | Some (err, sent, db') \<Rightarrow>
       (db' = db \<and> sent = [] \<and>
          (err = None \<longrightarrow> (\<exists>a b. PendingRange (pending_err env) (pending_early env) s (batchSize u) db = Inr (a, b, []))) \<and>
          (working env \<and> (\<forall>r \<in> pending s db. hash_readable r) \<and> batchSize u \<noteq> 0 \<longrightarrow> pending s db = {} \<and> err = None)) \<or>
       (\<exists>rs root g. rs \<noteq> [] \<and> set rs \<subseteq> pending s db \<and>
          PendingRange (pending_err env) (pending_early env) s (batchSize u) db = Inr (seq_start g, seq_end g, map pk_id rs) \<and>
          localSegmentRoot B (map stored_hash rs) = Some root \<and>
          segments db' = segments db @ [g] \<and> sg_session_id g = s \<and> numbers g = map (\<lambda>r. unat (seq r)) rs \<and>
          packet_count g = int (length rs) \<and> merkle_root g = root \<and>
          packets db' = map (mark (sg_id g) (pk_id ` set rs)) (packets db) \<and>
          pending s db' = pending s db - set rs \<and>
          sent = (if endpoint u = [] \<or> request_err (http env) \<noteq> None then [] else [announcement u g]) \<and>
          (err = None \<longleftrightarrow> endpoint u = [] \<or>
             request_err (http env) = None \<and> (\<exists>status < 300. http_reply (http env) = Inr status)))"
proof (rule flush_rows [OF assms, of B u env s])
  fix err sent a b root and rs :: "packet_row list"
  let ?db = "segment_written (segment_now env) s a b (int (length rs)) root (map pk_id rs) db"
  assume *: "rs \<noteq> []" "set rs \<subseteq> pending s db" "map (\<lambda>r. unat (seq r)) rs = [unat a ..< Suc (unat b)]"
    "localSegmentRoot B (map stored_hash rs) = Some root"
    "sent = [] \<or> sent = [(endpoint u @ ''/segments'', payload_json \<lparr>SpSessionID = s, SpSeqStart = a,
       SpSeqEnd = b, SpPacketCount = int (length rs), SpMerkleRoot = hex_encode root\<rparr>)]"
    "flush B u env s db = Some (err, sent, ?db)"
    "PendingRange (pending_err env) (pending_early env) s (batchSize u) db = Inr (a, b, map pk_id rs)"
    "sent = [] \<longleftrightarrow> endpoint u = [] \<or> request_err (http env) \<noteq> None"
    "err = None \<longleftrightarrow> endpoint u = [] \<or> request_err (http env) = None \<and> (\<exists>status < 300. http_reply (http env) = Inr status)"
  let ?g = "\<lparr>sg_id = segments_last db + 1, sg_session_id = s, seq_start = a, seq_end = b,
    packet_count = int (length rs), merkle_root = root, sg_created_at = rfc3339nano (segment_now env),
    sg_upload_state = ''pending''\<rparr>"
  have "numbers ?g = map (\<lambda>r. unat (seq r)) rs" unfolding numbers_def *(3) by simp
  moreover have "packets ?db = map (mark (sg_id ?g) (pk_id ` set rs)) (packets db)"
    by (simp add: segment_written_def Let_def)
  moreover have "sent = (if endpoint u = [] \<or> request_err (http env) \<noteq> None then [] else [announcement u ?g])"
    using *(5,8) by (auto simp: announcement_def)
  moreover note segments_written [of "segment_now env" s a b "int (length rs)" root "map pk_id rs" db]
    pending_segment_written [OF assms *(2), of "segment_now env" a b "int (length rs)" root]
  ultimately show ?thesis using *(1,2,4,7,9) unfolding *(6) option.case prod.case
    by (intro disjI2 exI [of _ rs] exI [of _ root] exI [of _ ?g] conjI) simp_all
next
  fix err
  assume idle: "flush B u env s db = Some (err, [], db)"
    "err = None \<longrightarrow> (\<exists>a b. PendingRange (pending_err env) (pending_early env) s (batchSize u) db = Inr (a, b, []))"
  have "pending s db = {} \<and> err = None"
    if "working env" "\<forall>r \<in> pending s db. hash_readable r" "batchSize u \<noteq> 0"
  proof -
    have none: "pending s db = {}"
      using flush_progress [OF assms that(2,1,3) _ idle(1)] by (auto simp: new_segments_def)
    then show ?thesis using flush_idle_working [OF that(1) none, of B u] idle(1) by simp
  qed
  then show ?thesis using idle by simp
qed

text \<open>C7: No packet is uploaded twice. Over any sequence of ticks the loop returns; the segments it
  recorded cover pairwise different numbers, all of them pending at the start; exactly these are no
  longer pending at the end; and every request that was sent announces one of these segments.\<close>

theorem no_double_upload:
  assumes "db_wf db"
  shows "case upload_loop B u s es db of
     None \<Rightarrow> False
   | Some (sent, db') \<Rightarrow>
       (\<exists>segs. segments db' = segments db @ segs \<and> distinct (concat (map numbers segs)) \<and>
          set (concat (map numbers segs)) \<subseteq> pending_numbers s db \<and>
          pending_numbers s db' = pending_numbers s db - set (concat (map numbers segs)) \<and>
          set sent \<subseteq> announcement u ` set segs)"
  using upload_loop_batches [OF assms, of B u s es] by (auto simp: accounted_def)

text \<open>C8: The backlog is drained. With a working database, readable hashes and a batch size other
  than zero, as many ticks as there are pending packets leave none pending, whatever the server
  answers.\<close>

theorem uploader_drains:
  assumes "db_wf db" "\<forall>r \<in> pending s db. hash_readable r" "batchSize u \<noteq> 0"
    "list_all working envs" "card (pending s db) \<le> length envs"
  shows "\<exists>sent db'. upload_loop B u s (map UTick envs) db = Some (sent, db') \<and> pending s db' = {}"
proof -
  obtain sent db' ks where run: "upload_loop B u s (map UTick envs) db = Some (sent, db')"
      "upload_queue.batches B u s (ticks (map UTick envs)) db = (ks, db')"
    using upload_loop_batches [OF assms(1)] by blast
  have "ticks (map UTick envs) = envs" by (induction envs) simp_all
  moreover have "card (pending_numbers s db) \<le> length envs"
    using card_image_le [OF pending_finite, of "\<lambda>r. unat (seq r)" s db] assms(5) by (simp add: pending_numbers_def)
  ultimately have "pending_numbers s db' = {}"
    using upload_live.batches_drain [OF assms(1), of u s envs B] assms(2,3,4) run(2) by simp
  then show ?thesis using run(1) by (simp add: pending_numbers_def)
qed

text \<open>C35: A segment whose announcement fails is never announced again. When a flush has recorded
  a segment and then fails, its packets are marked as uploaded; in every later run of the loop no
  request covers any of their numbers.\<close>

theorem failed_post_not_retried:
  assumes "db_wf db" "flush B u env s db = Some (Some e, sent, db1)" "segments db1 \<noteq> segments db"
    "upload_loop B u s es db1 = Some (later, db2)"
  shows "\<exists>g. segments db1 = segments db @ [g] \<and> numbers g \<noteq> [] \<and> set (numbers g) \<subseteq> pending_numbers s db \<and>
    (\<exists>segs. segments db2 = segments db1 @ segs \<and> set later \<subseteq> announcement u ` set segs \<and>
       set (numbers g) \<inter> set (concat (map numbers segs)) = {})"
proof (rule flush_rows [OF assms(1), of B u env s])
  fix err' assume "flush B u env s db = Some (err', [], db)"
  then show ?thesis using assms(2,3) by simp
next
  fix err' sent' a b root and rs :: "packet_row list"
  assume rs: "rs \<noteq> []" "map (\<lambda>r. unat (seq r)) rs = [unat a ..< Suc (unat b)]"
    and fl: "flush B u env s db = Some (err', sent',
      segment_written (segment_now env) s a b (int (length rs)) root (map pk_id rs) db)"
  obtain g where g: "segments db1 = segments db @ [g]" "numbers g = map (\<lambda>r. unat (seq r)) rs"
    using assms(2) fl rs(2) by (auto simp: segments_written numbers_def)
  then have ne: "numbers g \<noteq> []" using rs(1) by simp
  obtain ks where ks: "accounted u s ks sent db db1" using flush_account [OF assms(1,2)] by blast
  then have k: "set (numbers g) \<subseteq> pending_numbers s db" "pending_numbers s db1 = pending_numbers s db - set (numbers g)"
    using g by (auto simp: accounted_def new_segments_def)
  obtain ks' where "accounted u s ks' later db1 db2"
    using upload_loop_batches [OF flush_db_wf [OF assms(1,2)], of B u s es] assms(4) by auto
  then have "segments db2 = segments db1 @ new_segments db1 db2" "set later \<subseteq> announcement u ` set (new_segments db1 db2)"
      "set (concat (map numbers (new_segments db1 db2))) \<subseteq> pending_numbers s db1"
    unfolding accounted_def by blast+
  then show ?thesis using g(1) ne k by blast
qed

section \<open>Witnesses\<close>

text \<open>A flush of the two sample packets whose announcement the server refuses.\<close>

definition sample_flush_env :: "int \<Rightarrow> flush_env" where
  "sample_flush_env status = \<lparr>pending_err = None, pending_early = None, hashes_err = None, hashes_rows_err = None,
     segment_tx = \<lparr>begin_fault = None, insert_fault = None, update_fault = (\<lambda>_. None), commit_fault = None\<rparr>,
     segment_now = zero_time, http = \<lparr>request_err = None, http_reply = Inr status\<rparr>\<rparr>"

definition sample_uploader :: UploaderState where
  "sample_uploader = New ''http://up'' 60 1"

lemma sample_working: "working (sample_flush_env n)"
  by (simp add: working_def sample_flush_env_def)

lemma sample_pending_rows:
  "pending ''s'' sample_db = {packet_columns 1 (sample_row 0 None [1]), packet_columns 2 (sample_row 1 (Some [1]) [2])}"
  by (auto simp: pending_def sample_db_packets packet_columns_def sample_row_def)

lemma sample_readable: "\<forall>r \<in> pending ''s'' sample_db. hash_readable r"
  by (simp add: sample_pending_rows hash_readable_def packet_columns_def sample_row_def hexOrNil_def)

lemma sample_flush:
  "\<exists>sent db'. flush B sample_uploader (sample_flush_env 500) ''s'' sample_db = Some (Some (Err ''upstream returned 500''), sent, db') \<and>
     segments db' \<noteq> segments sample_db"
proof -
  have range: "PendingRange None None ''s'' (batchSize sample_uploader) sample_db = Inr (0, 1, [1, 2])"
    using sample_pending by (simp add: sample_uploader_def New_def)
  obtain hs where hs: "PacketHashes None None [1, 2] sample_db = Inr hs"
    using PacketHashes_readable [of sample_db "[1, 2]"] sample_readable
    by (auto simp: sample_pending_rows sample_db_packets)
  obtain root where root: "localSegmentRoot B hs = Some root" using localSegmentRoot_total by blast
  have ws: "WriteSegment (segment_tx (sample_flush_env 500)) now ''s'' 0 1 n r ids sample_db =
      (None, segment_written now ''s'' 0 1 n r ids sample_db)" for now n r ids
    by (rule WriteSegment_working [OF sample_working]) (simp_all add: sql_uint_ok_def)
  have "dec_int 500 = ''500''" by code_simp
  then show ?thesis
    using range hs root ws [of "segment_now (sample_flush_env 500)" 2 root "[1, 2]"]
    by (auto simp: flush_def sample_flush_env_def ship_def sample_uploader_def New_def segments_written)
qed

theorem flush_records_segment_witness:
  "\<exists>g db'. flush sha256 sample_uploader (sample_flush_env 200) ''s'' sample_db =
       Some (None, [announcement sample_uploader g], db') \<and>
     segments db' = segments sample_db @ [g] \<and> numbers g \<noteq> [] \<and> pending ''s'' db' \<noteq> pending ''s'' sample_db"
proof -
  obtain err sent db' where fl: "flush sha256 sample_uploader (sample_flush_env 200) ''s'' sample_db = Some (err, sent, db')"
    using flush_total by blast
  have busy: "pending ''s'' sample_db \<noteq> {}" "batchSize sample_uploader \<noteq> 0"
    by (simp_all add: sample_pending_rows sample_uploader_def New_def)
  have net: "endpoint sample_uploader \<noteq> []" "request_err (http (sample_flush_env 200)) = None"
    "http_reply (http (sample_flush_env 200)) = Inr 200"
    by (simp_all add: sample_uploader_def New_def sample_flush_env_def)
  from flush_records_segment [OF sample_db_wf, where B = sha256 and u = sample_uploader
      and env = "sample_flush_env 200" and s = "''s''"]
  obtain rs g where "rs \<noteq> []" "set rs \<subseteq> pending ''s'' sample_db" "segments db' = segments sample_db @ [g]"
      "numbers g = map (\<lambda>r. unat (seq r)) rs" "pending ''s'' db' = pending ''s'' sample_db - set rs"
      "sent = [announcement sample_uploader g]" "err = None"
    using busy net sample_working sample_readable by (auto simp: fl)
  moreover from this have "pending ''s'' db' \<noteq> pending ''s'' sample_db" by (cases rs) auto
  ultimately show ?thesis using fl by (intro exI [of _ g] exI [of _ db']) simp
qed

theorem no_double_upload_witness:
  "\<exists>sent db' segs. upload_loop sha256 sample_uploader ''s'' [UTick (sample_flush_env 200), UTick (sample_flush_env 500)] sample_db = Some (sent, db') \<and>
     segments db' = segments sample_db @ segs \<and> distinct (concat (map numbers segs))"
  using no_double_upload [OF sample_db_wf, where B = sha256 and u = sample_uploader and s = "''s''"
      and es = "[UTick (sample_flush_env 200), UTick (sample_flush_env 500)]"]
  by (auto split: option.splits)

theorem uploader_drains_witness:
  "\<exists>sent db'. upload_loop sha256 sample_uploader ''s'' (map UTick [sample_flush_env 500, sample_flush_env 500]) sample_db =
     Some (sent, db') \<and> pending ''s'' db' = {}"
proof (rule uploader_drains [OF sample_db_wf sample_readable])
  show "card (pending ''s'' sample_db) \<le> length [sample_flush_env 500, sample_flush_env 500]"
    by (simp add: sample_pending_rows card_insert_if)
qed (simp_all add: sample_working sample_uploader_def New_def)

theorem failed_post_not_retried_witness:
  "\<exists>sent db1 g. flush sha256 sample_uploader (sample_flush_env 500) ''s'' sample_db =
       Some (Some (Err ''upstream returned 500''), sent, db1) \<and>
     segments db1 = segments sample_db @ [g] \<and> numbers g \<noteq> [] \<and>
     (\<exists>later db2 segs. upload_loop sha256 sample_uploader ''s'' [UTick (sample_flush_env 200)] db1 = Some (later, db2) \<and>
       set later \<subseteq> announcement sample_uploader ` set segs \<and>
       set (numbers g) \<inter> set (concat (map numbers segs)) = {})"
proof -
  obtain sent db1 where fl: "flush sha256 sample_uploader (sample_flush_env 500) ''s'' sample_db =
      Some (Some (Err ''upstream returned 500''), sent, db1)" and new: "segments db1 \<noteq> segments sample_db"
    using sample_flush by blast
  obtain later db2 where run: "upload_loop sha256 sample_uploader ''s'' [UTick (sample_flush_env 200)] db1 = Some (later, db2)"
    using upload_loop_batches [OF flush_db_wf [OF sample_db_wf fl]] by blast
  show ?thesis using failed_post_not_retried [OF sample_db_wf fl new run] fl run by blast
qed

end
