(* ===== verification/Daemon.thy ===== *)
theory Daemon
  imports Config Custody_Tamper Moonraker_Props Uploader_Props
begin

text \<open>
  \<open>cmd/axm-edge/main.go\<close>: the command line, provisioning, the start of the daemon and the
  goroutines it starts. The packetizer and the uploader share the trust buffer: together they are
  the \<open>node\<close>, whose steps are the handlers of the two loops in any order, fed with any
  deltas. The daemon is the node with the Moonraker client as the only source of deltas. Handlers are
  steps as a whole; \<open>statements_commute\<close> shows why the order of single statements of the two
  loops does not matter. Log lines are left out.
\<close>

section \<open>The command line\<close>

text \<open>\<open>flag.FlagSet.Parse\<close> with \<open>ExitOnError\<close> for the one string flag: the exit status, or
  the value of the flag.\<close>

definition split_eq :: "string \<Rightarrow> string \<times> string option" where
  "split_eq name =
     (let n = takeWhile (\<lambda>c. c \<noteq> CHR ''='') (tl name) in
      if length n + 1 < length name then (hd name # n, Some (drop (length n + 2) name)) else (name, None))"

fun parse_flags :: "string list \<Rightarrow> string \<Rightarrow> int + string" where
  "parse_flags [] cfg = Inr cfg"
| "parse_flags (s # args) cfg =
     (if length s < 2 \<or> hd s \<noteq> CHR ''-'' \<or> s = ''--'' then Inr cfg
      else
        let name = (if s ! 1 = CHR ''-'' then drop 2 s else drop 1 s) in
        if name = [] \<or> hd name = CHR ''-'' \<or> hd name = CHR ''='' then Inl 2
        else case split_eq name of (key, val) \<Rightarrow>
          if key = ''config'' then
            (case val of
               Some v \<Rightarrow> parse_flags args v
             | None \<Rightarrow> (case args of [] \<Rightarrow> Inl 2 | v # rest \<Rightarrow> parse_flags rest v))
          else if key = ''help'' \<or> key = ''h'' then Inl 0
          else Inl 2)"

definition default_path :: string where
  "default_path = ''/etc/axm-edge/config.yaml''"

section \<open>Start\<close>

text \<open>What the process finds when it starts: files, the YAML decoder, the TPM, the database file,
  the clock and failures of the database.\<close>

record 'd world =
  read_file :: "string \<Rightarrow> bytes res"
  yaml_unmarshal :: "bytes \<Rightarrow> Config res"
  tpm_device :: "'d tpm_api"
  db_file :: "database option"
  open_fault :: "err option"
  migrate_fault :: "err option"
  sign_key_fault :: "err option"
  ak_key_fault :: "err option"
  ek_cert_fault :: "err option"
  key_time :: gotime

text \<open>The packetizer and the uploader with the buffer they share; \<open>posts\<close> are the requests the
  uploader has sent.\<close>

record 'd node =
  buf :: database
  pktz :: "'d Packetizer"
  up :: UploaderState
  upload_session :: string
  posts :: "(string \<times> bytes) list"

record 'd daemon =
  node :: "'d node"
  moon :: client_state
  panicked :: bool

definition tpm_config :: "Config \<Rightarrow> TpmConfig" where
  "tpm_config cfg = \<lparr>TDevice = Device (TPM cfg), TPCRs = PCRs (TPM cfg),
     TSignKeyHandle = SignKeyHandle (TPM cfg), TAKHandle = AKHandle (TPM cfg)\<rparr>"

definition runProvision :: "'d world \<Rightarrow> Config \<Rightarrow> err option \<times> 'd option" where
  "runProvision w cfg = ProvisionKeys (tpm_device w) (tpm_config cfg)"

text \<open>The key evidence of an open TPM goes into the buffer. After \<open>Open\<close> both keys have
  been read.\<close>

definition persist_evidence :: "'d world \<Rightarrow> Config \<Rightarrow> 'd Worker \<Rightarrow> database \<Rightarrow> database res" where
  "persist_evidence w cfg t db =
     (let ev = KeyEvidence_of t in
      case WriteAttestationKey (sign_key_fault w) (key_time w) ''sign_pub'' ''tpm2:tpm2b-public'' (opt_bytes (SignPub ev)) db of
        (Some e, db1) \<Rightarrow> Inl (Wrap ''persist sign key evidence'' e)
      | (None, db1) \<Rightarrow>
          (case WriteAttestationKey (ak_key_fault w) (key_time w) ''ak_pub'' ''tpm2:tpm2b-public'' (opt_bytes (AKPub ev)) db1 of
             (Some e, db2) \<Rightarrow> Inl (Wrap ''persist AK evidence'' e)
           | (None, db2) \<Rightarrow>
               if EKCertPath (TPM cfg) = [] then Inr db2
               else case read_file w (EKCertPath (TPM cfg)) of
                 Inl e \<Rightarrow> Inr db2
               | Inr cert \<Rightarrow>
                   (case WriteAttestationKey (ek_cert_fault w) (key_time w) ''ek_cert'' ''x509:der'' cert db2 of
                      (Some e, db3) \<Rightarrow> Inl (Wrap ''persist EK certificate'' e)
                    | (None, db3) \<Rightarrow> Inr db3)))"

definition moon_objects :: "Config \<Rightarrow> SubscribeParams" where
  "moon_objects cfg = foldl (\<lambda>m obj. put obj JNull m) DefaultSubscribeObjects (SubscribeObjects (Moonraker cfg))"

definition packetizer_config :: "Config \<Rightarrow> PacketizerConfig" where
  "packetizer_config cfg =
     \<lparr>PNodeLabel = NodeLabel (Session cfg), PPrinterID = PrinterID (Session cfg),
      PPeriod = Period (Custody cfg), PMaxSilentTicks = MaxSilentTicks (Custody cfg),
      PQuoteInterval = QuoteInterval (TPM cfg), PQuoteOnLifecycle = QuoteOnLifecycleEdge (TPM cfg),
      PPCRs = PCRs (TPM cfg), PAKHandle = AKHandle (TPM cfg)\<rparr>"

definition runDaemon :: "'d world \<Rightarrow> Config \<Rightarrow> 'd daemon res" where
  "runDaemon w cfg =
     (case Hotbuffer.Open (open_fault w) (migrate_fault w) (DBPath (HotBuffer cfg)) (db_file w) of
        Inl e \<Rightarrow> Inl (Wrap ''hot buffer'' e)
      | Inr db \<Rightarrow>
          (let t = (case TpmOpen (tpm_device w) (tpm_config cfg) of Inl e \<Rightarrow> None | Inr t \<Rightarrow> Some t) in
           case (case t of None \<Rightarrow> Inr db | Some wk \<Rightarrow> persist_evidence w cfg wk db) of
             Inl e \<Rightarrow> Inl e
           | Inr db1 \<Rightarrow>
               Inr \<lparr>node = \<lparr>buf = db1, pktz = NewPacketizer (packetizer_config cfg) t,
                      up = New (UpEndpoint (Uploader cfg)) (BatchSize (Uploader cfg)) (RetryInterval (Uploader cfg)),
                      upload_session = NodeLabel (Session cfg) @ ''-session'', posts = []\<rparr>,
                    moon = client_start (NewClient (Endpoint (Moonraker cfg)) (APIKey (Moonraker cfg))
                      (ClientName (Moonraker cfg)) (ClientVersion (Moonraker cfg)) (ReconnectDelay (Moonraker cfg))
                      (Some (moon_objects cfg))),
                    panicked = False\<rparr>))"

text \<open>How \<open>run\<close> ends: the process exits while parsing flags; it returns an error or nil; or the
  daemon is up.\<close>

datatype 'd outcome = Exit int | Return "err option" | Serving "'d daemon"

definition run_command :: "'d world \<Rightarrow> string list \<Rightarrow> 'd outcome" where
  "run_command w args =
     (let subCmd = (case args of [] \<Rightarrow> [] | a # _ \<Rightarrow> a) in
      case parse_flags (tl args) default_path of
        Inl code \<Rightarrow> Exit code
      | Inr cfgPath \<Rightarrow>
          (let cfg = (case Load (read_file w) (yaml_unmarshal w) cfgPath of Inl e \<Rightarrow> DefaultConfig | Inr c \<Rightarrow> c) in
           if subCmd = ''provision'' then Return (fst (runProvision w cfg))
           else if subCmd = ''run'' \<or> subCmd = [] then
             (case runDaemon w cfg of Inl e \<Rightarrow> Return (Some e) | Inr d \<Rightarrow> Serving d)
           else Return (Some (Err (''unknown subcommand: '' @ subCmd @ '' (use 'run' or 'provision')'')))))"

text \<open>\<open>main\<close>: the exit status.\<close>

fun exit_status :: "'d outcome \<Rightarrow> int option" where
  "exit_status (Exit code) = Some code"
| "exit_status (Return None) = Some 0"
| "exit_status (Return (Some e)) = Some 1"
| "exit_status (Serving d) = None"

section \<open>The node\<close>

datatype node_event = NDelta session_rand StatusDelta | NTick tick_env | NFlush flush_env

text \<open>A loop whose ticker could not be made has no steps.\<close>

fun node_step :: "(bytes \<Rightarrow> bytes) \<Rightarrow> 'd tpm_api \<Rightarrow> node_event \<Rightarrow> 'd node \<Rightarrow> 'd node option" where
  "node_step B api (NDelta rnd d) n =
     (if PPeriod (pcfg (pktz n)) \<le> 0 then None
      else Some (n\<lparr>pktz := (applyDelta rnd d (pktz n))\<lparr>silentTicks := 0\<rparr>\<rparr>))"
| "node_step B api (NTick env) n =
     (if PPeriod (pcfg (pktz n)) \<le> 0 then None
      else let (p, db) = onTick B api env (pktz n) (buf n) in Some (n\<lparr>pktz := p, buf := db\<rparr>))"
| "node_step B api (NFlush env) n =
     (if retryInterval (up n) \<le> 0 then None
      else case flush B (up n) env (upload_session n) (buf n) of
        None \<Rightarrow> None
      | Some (err, sent, db) \<Rightarrow> Some (n\<lparr>buf := db, posts := posts n @ sent\<rparr>))"

inductive node_reach :: "(bytes \<Rightarrow> bytes) \<Rightarrow> 'd tpm_api \<Rightarrow> 'd node \<Rightarrow> 'd node \<Rightarrow> bool" for B api n0 where
  start: "node_reach B api n0 n0"
| step: "node_reach B api n0 n \<Longrightarrow> node_step B api ev n = Some n' \<Longrightarrow> node_reach B api n0 n'"

section \<open>The daemon\<close>

text \<open>The client moves, the packetizer takes a delta from the client's channel, a ticker fires, or a
  goroutine panics because its interval is not positive, which ends the process.\<close>

datatype daemon_event = Moon client_event | Receive session_rand | Clock tick_env | Upload flush_env | Panic

definition receive_step :: "(bytes \<Rightarrow> bytes) \<Rightarrow> 'd tpm_api \<Rightarrow> session_rand \<Rightarrow> 'd daemon \<Rightarrow> 'd daemon option" where
  "receive_step B api rnd d =
     (case Updates (client (moon d)) of
        [] \<Rightarrow> None
      | delta # _ \<Rightarrow>
          (case (client_step Consume (moon d), node_step B api (NDelta rnd delta) (node d)) of
             (Some m, Some n) \<Rightarrow> Some (d\<lparr>moon := m, node := n\<rparr>)
           | _ \<Rightarrow> None))"

definition daemon_step :: "(bytes \<Rightarrow> bytes) \<Rightarrow> 'd tpm_api \<Rightarrow> daemon_event \<Rightarrow> 'd daemon \<Rightarrow> 'd daemon option" where
  "daemon_step B api ev d =
     (if panicked d then None
      else case ev of
        Moon e \<Rightarrow> if e = Consume then None else map_option (\<lambda>m. d\<lparr>moon := m\<rparr>) (client_step e (moon d))
      | Receive rnd \<Rightarrow> receive_step B api rnd d
      | Clock env \<Rightarrow> map_option (\<lambda>n. d\<lparr>node := n\<rparr>) (node_step B api (NTick env) (node d))
      | Upload env \<Rightarrow> map_option (\<lambda>n. d\<lparr>node := n\<rparr>) (node_step B api (NFlush env) (node d))
      | Panic \<Rightarrow>
          if PPeriod (pcfg (pktz (node d))) \<le> 0 \<or> retryInterval (up (node d)) \<le> 0
          then Some (d\<lparr>panicked := True\<rparr>) else None)"

inductive daemon_reach :: "(bytes \<Rightarrow> bytes) \<Rightarrow> 'd tpm_api \<Rightarrow> 'd daemon \<Rightarrow> 'd daemon \<Rightarrow> bool" for B api d0 where
  start: "daemon_reach B api d0 d0"
| step: "daemon_reach B api d0 d \<Longrightarrow> daemon_step B api ev d = Some d' \<Longrightarrow> daemon_reach B api d0 d'"

end
