(* ===== verification/Custody_Delta.thy ===== *)
theory Custody_Delta
  imports Custody_Props
begin

text \<open>
  Merging deltas: \<open>applyDelta\<close> iterates over a Go map, whose order is random, so its result must
  not depend on it; each object of the delta updates its own part of the cache and leaves the rest;
  and the print state decides when a session starts.
\<close>

section \<open>One object\<close>

text \<open>The update of the cache by one object, without the session part.\<close>

definition merge_object :: "string \<Rightarrow> json \<Rightarrow> PrinterState \<Rightarrow> PrinterState" where
  "merge_object obj raw st =
     (if obj = ''extruder'' then st\<lparr>Extruder := snd (unm_extruder raw (Extruder st))\<rparr>
      else if obj = ''heater_bed'' then st\<lparr>HeaterBed := snd (unm_heater_bed raw (HeaterBed st))\<rparr>
      else if obj = ''motion_report'' then st\<lparr>MotionReport := snd (unm_motion raw (MotionReport st))\<rparr>
      else if obj = ''print_stats'' then st\<lparr>PrintStats := snd (unm_print_stats raw (PrintStats st))\<rparr>
      else if obj = ''mcu'' then st\<lparr>MCU := snd (unm_mcu raw (MCU st))\<rparr>
      else if obj = ''temperature_sensor chamber'' then
        (if fst (unm_chamber raw) then st\<lparr>ChamberTempC := snd (unm_chamber raw), ChamberPresent := True\<rparr> else st)
      else st)"

lemma start_pstate: "startNewSession rnd (p\<lparr>pstate := st\<rparr>) = (startNewSession rnd p)\<lparr>pstate := st\<rparr>"
  by (cases p) (simp add: startNewSession_def)

lemma schedule_pstate: "scheduleImmediateQuote (p\<lparr>pstate := st\<rparr>) = (scheduleImmediateQuote p)\<lparr>pstate := st\<rparr>"
  by (cases p) (simp add: scheduleImmediateQuote_def)

lemma lifecycle_pstate:
  "detectLifecycleEdge rnd a b (p\<lparr>pstate := st\<rparr>) = (detectLifecycleEdge rnd a b p)\<lparr>pstate := st\<rparr>"
proof -
  have "pcfg (startNewSession rnd p) = pcfg p" "tpm (startNewSession rnd p) = tpm p"
    by (simp_all add: startNewSession_def)
  then show ?thesis
    by (cases "tpm p") (simp_all add: detectLifecycleEdge_def Let_def start_pstate schedule_pstate)
qed

lemma apply_object_merge:
  "apply_object rnd obj raw p =
     (if obj = ''print_stats''
      then detectLifecycleEdge rnd (State (PrintStats (pstate p)))
             (State (snd (unm_print_stats raw (PrintStats (pstate p))))) p
      else p)\<lparr>pstate := merge_object obj raw (pstate p)\<rparr>"
  by (simp add: apply_object_def merge_object_def Let_def lifecycle_pstate split: prod.split bool.split)

lemma merge_object_simps:
  "merge_object ''extruder'' raw st = st\<lparr>Extruder := snd (unm_extruder raw (Extruder st))\<rparr>"
  "merge_object ''heater_bed'' raw st = st\<lparr>HeaterBed := snd (unm_heater_bed raw (HeaterBed st))\<rparr>"
  "merge_object ''motion_report'' raw st = st\<lparr>MotionReport := snd (unm_motion raw (MotionReport st))\<rparr>"
  "merge_object ''print_stats'' raw st = st\<lparr>PrintStats := snd (unm_print_stats raw (PrintStats st))\<rparr>"
  "merge_object ''mcu'' raw st = st\<lparr>MCU := snd (unm_mcu raw (MCU st))\<rparr>"
  "merge_object ''temperature_sensor chamber'' raw st =
     (if fst (unm_chamber raw) then st\<lparr>ChamberTempC := snd (unm_chamber raw), ChamberPresent := True\<rparr> else st)"
  by (simp_all add: merge_object_def)

lemma object_cases:
  obtains "obj = ''extruder''" | "obj = ''heater_bed''" | "obj = ''motion_report''"
  | "obj = ''print_stats''" | "obj = ''mcu''" | "obj = ''temperature_sensor chamber''"
  | "\<And>raw st. merge_object obj raw st = st"
proof (cases "obj \<in> {''extruder'', ''heater_bed'', ''motion_report'', ''print_stats'', ''mcu'',
      ''temperature_sensor chamber''}")
  case True
  then show ?thesis
    by (elim insertE emptyE) (fact that(1), fact that(2), fact that(3), fact that(4), fact that(5), fact that(6))
next
  case False
  then have "merge_object obj raw st = st" for raw st by (simp add: merge_object_def)
  then show ?thesis by (rule that(7))
qed

lemma merge_object_commute:
  "o1 \<noteq> o2 \<Longrightarrow> merge_object o1 r1 (merge_object o2 r2 st) = merge_object o2 r2 (merge_object o1 r1 st)"
  by (cases o1 rule: object_cases; cases o2 rule: object_cases; cases st) (simp_all add: merge_object_simps)

lemma merge_object_print_stats [simp]:
  "obj \<noteq> ''print_stats'' \<Longrightarrow> PrintStats (merge_object obj raw st) = PrintStats st"
  by (simp add: merge_object_def)

lemma apply_object_commute:
  "o1 \<noteq> o2 \<Longrightarrow>
     apply_object rnd o1 r1 (apply_object rnd o2 r2 p) = apply_object rnd o2 r2 (apply_object rnd o1 r1 p)"
proof -
  assume "o1 \<noteq> o2"
  then consider "o1 = ''print_stats''" "o2 \<noteq> ''print_stats''" | "o1 \<noteq> ''print_stats''" by blast
  then show ?thesis
    using merge_object_commute [OF \<open>o1 \<noteq> o2\<close>, of r1 r2 "pstate p"]
    by cases (simp_all add: apply_object_merge lifecycle_pstate)
qed

lemma apply_objects_fold: "apply_objects rnd ms p = fold (\<lambda>(obj, raw). apply_object rnd obj raw) ms p"
  by (induction rnd ms p rule: apply_objects.induct) simp_all

section \<open>All objects\<close>

lemma cache_apply_objects:
  "pstate (apply_objects rnd ms p) = fold (\<lambda>(obj, raw). merge_object obj raw) ms (pstate p)"
  by (induction rnd ms p rule: apply_objects.induct) (simp_all add: apply_object_merge)

lemma fold_merge_absent:
  assumes "obj \<notin> fst ` set ms"
    and "\<And>o' raw st. o' \<noteq> obj \<Longrightarrow> get (merge_object o' raw st) = get st"
  shows "get (fold (\<lambda>(obj, raw). merge_object obj raw) ms st) = get st"
  using assms(1) by (induction ms arbitrary: st) (auto simp: assms(2))

lemma fold_merge_component:
  assumes dist: "distinct (map fst ms)"
    and other: "\<And>o' raw st. o' \<noteq> obj \<Longrightarrow> get (merge_object o' raw st) = get st"
    and own: "\<And>raw st. get (merge_object obj raw st) = upd raw (get st)"
  shows "get (fold (\<lambda>(obj, raw). merge_object obj raw) ms st) =
    (case map_of ms obj of None \<Rightarrow> get st | Some raw \<Rightarrow> upd raw (get st))"
  using dist
proof (induction ms arbitrary: st)
  case (Cons m ms)
  obtain o' raw where m: "m = (o', raw)" by fastforce
  show ?case
  proof (cases "o' = obj")
    case True
    then have "obj \<notin> fst ` set ms" using Cons.prems m by auto
    then show ?thesis using fold_merge_absent [of obj ms get, OF _ other] own True m by simp
  next
    case False
    then show ?thesis using Cons m other by (simp split: option.split)
  qed
qed simp

text \<open>A cached part after a delta: decoded over the old part when the delta names its object.\<close>

definition merged :: "(json \<Rightarrow> 'a \<Rightarrow> bool \<times> 'a) \<Rightarrow> json option \<Rightarrow> 'a \<Rightarrow> 'a" where
  "merged dec raw old = (case raw of None \<Rightarrow> old | Some j \<Rightarrow> snd (dec j old))"

lemma cache_part:
  assumes "distinct (map fst (Status d))"
    and "\<And>o' raw st. o' \<noteq> obj \<Longrightarrow> get (merge_object o' raw st) = get st"
    and "\<And>raw st. get (merge_object obj raw st) = snd (dec raw (get st))"
  shows "get (pstate (applyDelta rnd d p)) = merged dec (map_of (Status d) obj) (get (pstate p))"
  unfolding applyDelta_def cache_apply_objects merged_def
  by (rule fold_merge_component [OF assms])

lemma extruder_target_absent:
  assumes "\<forall>(k, v) \<in> set ms. fold_name k \<noteq> fold_name ''target''"
  shows "ExTarget (snd (unm_extruder (JObj ms) x)) = ExTarget x"
proof -
  have "select_field [''temperature'', ''target'', ''power''] k \<noteq> Some ''target''"
    if "fold_name k \<noteq> fold_name ''target''" for k
    using that by (auto simp: select_field_def simp del: fold_name.simps split: if_splits)
  with assms show ?thesis
    unfolding unm_extruder_def
    by (intro unm_struct_absent [of "''target''"])
      (fastforce simp: set_extruder_def split: prod.split)+
qed

text \<open>The session fields of the packetizer.\<close>

definition session_of :: "'d Packetizer \<Rightarrow> string \<times> bytes \<times> u64 \<times> bytes option \<times> int \<times> gotime" where
  "session_of p = (sessionID p, sessionNonce p, pseq p, prevBlake3 p, lastQuoteID p, lastQuoteAt p)"

definition starts_session :: "string \<Rightarrow> string \<Rightarrow> bool" where
  "starts_session old new \<longleftrightarrow> new = ''printing'' \<and> old \<noteq> ''printing'' \<and> old \<noteq> ''paused''"

lemma lifecycle_session:
  "session_of (detectLifecycleEdge rnd a b p) =
     (if starts_session a b
      then (hex_encode (filled 16 (rand_id rnd)), filled 32 (rand_nonce rnd), 0, None, 0, zero_time)
      else session_of p)"
  by (auto simp: detectLifecycleEdge_def session_of_def starts_session_def Let_def startNewSession_def
      scheduleImmediateQuote_def)

lemma session_pstate [simp]: "session_of (p\<lparr>pstate := st\<rparr>) = session_of p"
  by (simp add: session_of_def)

lemma session_apply_objects:
  "distinct (map fst ms) \<Longrightarrow>
   session_of (apply_objects rnd ms p) =
     (case map_of ms ''print_stats'' of
        None \<Rightarrow> session_of p
      | Some raw \<Rightarrow>
          if starts_session (State (PrintStats (pstate p)))
               (State (snd (unm_print_stats raw (PrintStats (pstate p)))))
          then (hex_encode (filled 16 (rand_id rnd)), filled 32 (rand_nonce rnd), 0, None, 0, zero_time)
          else session_of p)"
proof (induction ms arbitrary: p)
  case (Cons m ms)
  obtain o' raw where m: "m = (o', raw)" by fastforce
  show ?case
  proof (cases "o' = ''print_stats''")
    case True
    then have "map_of ms ''print_stats'' = None" using Cons.prems m by (auto simp: map_of_eq_None_iff)
    then show ?thesis using Cons m True by (simp add: apply_object_merge lifecycle_session)
  next
    case False
    then show ?thesis using Cons m by (simp add: apply_object_merge split: option.split)
  qed
qed simp

section \<open>Properties\<close>

text \<open>C15: applying a delta does not depend on the order in which Go enumerates the status map: for
  any two enumerations of the same map the packetizer afterwards is the same, session, quote
  schedule and every cached field included.\<close>

theorem delta_order_irrelevant:
  assumes "distinct (map fst (Status d))" "mset (Status d') = mset (Status d)"
  shows "applyDelta rnd d' p = applyDelta rnd d p"
proof -
  let ?f = "\<lambda>(obj, raw). apply_object rnd obj raw"
  have "?f x \<circ> ?f y = ?f y \<circ> ?f x" if "x \<in> set (Status d)" "y \<in> set (Status d)" for x y
  proof (cases "x = y")
    case False
    with that assms(1) have "fst x \<noteq> fst y" by (auto simp: distinct_map inj_on_def)
    then show ?thesis by (auto simp: fun_eq_iff apply_object_commute split: prod.split)
  qed simp
  then have "fold ?f (Status d) = fold ?f (Status d')"
    by (rule fold_multiset_equiv) (use assms(2) in auto)
  then show ?thesis unfolding applyDelta_def apply_objects_fold by metis
qed

theorem delta_order_irrelevant_witness:
  "applyDelta sample_rand (sample_delta\<lparr>Status := [(''mcu'', JNull), (''print_stats'', JNull)]\<rparr>)
     (NewPacketizer sample_config None :: unit Packetizer) =
   applyDelta sample_rand (sample_delta\<lparr>Status := [(''print_stats'', JNull), (''mcu'', JNull)]\<rparr>)
     (NewPacketizer sample_config None)"
  by (rule delta_order_irrelevant) simp_all

text \<open>C16: a delta is a merge: every object it names is decoded over the cached part of that name, and
  the cached parts it does not name are unchanged; within a part, a field that no
  member of the object selects keeps its value (shown for the extruder's target). So
  the cache always holds the latest value Moonraker reported for each field of the five
  decoded structs.\<close>

theorem delta_merge:
  assumes "distinct (map fst (Status d))"
  shows "let st = pstate p; st' = pstate (applyDelta rnd d p); m = map_of (Status d) in
    Extruder st' = merged unm_extruder (m ''extruder'') (Extruder st) \<and>
    HeaterBed st' = merged unm_heater_bed (m ''heater_bed'') (HeaterBed st) \<and>
    MotionReport st' = merged unm_motion (m ''motion_report'') (MotionReport st) \<and>
    PrintStats st' = merged unm_print_stats (m ''print_stats'') (PrintStats st) \<and>
    MCU st' = merged unm_mcu (m ''mcu'') (MCU st) \<and>
    (\<forall>ms. m ''extruder'' = Some (JObj ms) \<and> (\<forall>(k, v) \<in> set ms. fold_name k \<noteq> fold_name ''target'') \<longrightarrow>
       ExTarget (Extruder st') = ExTarget (Extruder st))"
proof -
  let ?st = "pstate p"
  let ?st' = "pstate (applyDelta rnd d p)"
  let ?m = "map_of (Status d)"
  have ex: "Extruder ?st' = merged unm_extruder (?m ''extruder'') (Extruder ?st)"
    by (rule cache_part [OF assms]) (simp_all add: merge_object_def)
  moreover have "HeaterBed ?st' = merged unm_heater_bed (?m ''heater_bed'') (HeaterBed ?st)"
    by (rule cache_part [OF assms]) (simp_all add: merge_object_def)
  moreover have "MotionReport ?st' = merged unm_motion (?m ''motion_report'') (MotionReport ?st)"
    by (rule cache_part [OF assms]) (simp_all add: merge_object_def)
  moreover have "PrintStats ?st' = merged unm_print_stats (?m ''print_stats'') (PrintStats ?st)"
    by (rule cache_part [OF assms]) (simp_all add: merge_object_def)
  moreover have "MCU ?st' = merged unm_mcu (?m ''mcu'') (MCU ?st)"
    by (rule cache_part [OF assms]) (simp_all add: merge_object_def)
  moreover have "\<forall>ms. ?m ''extruder'' = Some (JObj ms) \<and>
      (\<forall>(k, v) \<in> set ms. fold_name k \<noteq> fold_name ''target'') \<longrightarrow>
       ExTarget (Extruder ?st') = ExTarget (Extruder ?st)"
    using extruder_target_absent unfolding ex merged_def by (simp del: fold_name.simps)
  ultimately show ?thesis unfolding Let_def by blast
qed

theorem delta_merge_witness:
  "ExTarget (Extruder (pstate (applyDelta sample_rand
      (sample_delta\<lparr>Status := [(''extruder'', JObj [(''temperature'', JNum ''210.5'')])]\<rparr>)
      (NewPacketizer sample_config None :: unit Packetizer)))) = 0"
proof -
  let ?d = "sample_delta\<lparr>Status := [(''extruder'', JObj [(''temperature'', JNum ''210.5'')])]\<rparr>"
  let ?p = "NewPacketizer sample_config None :: unit Packetizer"
  have "distinct (map fst (Status ?d))" by simp
  from delta_merge [OF this, of ?p sample_rand]
  have "\<forall>ms. map_of (Status ?d) ''extruder'' = Some (JObj ms) \<and>
      (\<forall>(k, v) \<in> set ms. fold_name k \<noteq> fold_name ''target'') \<longrightarrow>
      ExTarget (Extruder (pstate (applyDelta sample_rand ?d ?p))) = ExTarget (Extruder (pstate ?p))"
    unfolding Let_def by blast
  moreover have "map_of (Status ?d) ''extruder'' = Some (JObj [(''temperature'', JNum ''210.5'')])"
    and "fold_name ''temperature'' \<noteq> fold_name ''target''"
    by (simp_all add: upper_def)
  ultimately have "ExTarget (Extruder (pstate (applyDelta sample_rand ?d ?p))) = ExTarget (Extruder (pstate ?p))"
    by auto
  then show ?thesis by (simp add: NewPacketizer_def zero_state_def)
qed

lemma onTick_session:
  assumes "onTick B api env p db = (p', db')"
  shows "(sessionID p', sessionNonce p') =
      (if IsActive (pstate p) \<and> sessionID p = []
       then (hex_encode (filled 16 (rand_id (te_rand env))), filled 32 (rand_nonce (te_rand env)))
       else (sessionID p, sessionNonce p))"
    and "pseq p' \<in> (let n = if IsActive (pstate p) \<and> sessionID p = [] then 0 else pseq p in {n, n + 1})"
proof -
  have *: "(sessionID p', sessionNonce p') =
      (if IsActive (pstate p) \<and> sessionID p = []
       then (hex_encode (filled 16 (rand_id (te_rand env))), filled 32 (rand_nonce (te_rand env)))
       else (sessionID p, sessionNonce p)) \<and>
     pseq p' \<in> (let n = if IsActive (pstate p) \<and> sessionID p = [] then 0 else pseq p in {n, n + 1})"
  proof (cases "IsActive (pstate p)")
    case True
    obtain p1 db1 decision where pr: "prepare env p db = (p1, db1, decision)" by (metis prod_cases3)
    have p1: "(sessionID p1, sessionNonce p1, pseq p1) =
        (if sessionID p = [] then (hex_encode (filled 16 (rand_id (te_rand env))), filled 32 (rand_nonce (te_rand env)), 0)
         else (sessionID p, sessionNonce p, pseq p))"
      using prepare_frame(8) [OF pr] by (simp add: Let_def startNewSession_def split: if_splits)
    show ?thesis
    proof (cases "marshal_packet (build_packet p1 (pstate p) (te_tick env) (te_mono env) decision)")
      case (Inl e)
      then have "p' = p1" using assms onTick_active [OF True pr, of B api] by simp
      then show ?thesis using True p1 by (auto simp: Let_def split: if_splits)
    next
      case (Inr c)
      then have seal: "seal_tick B api env decision c p1 db1 = (p', db')"
        using assms onTick_active [OF True pr, of B api] by simp
      have "pseq p' = pseq p1 \<or> pseq p' = pseq p1 + 1"
        by (rule seal_tick_cases [of api env c p1 db1 B decision])
          (use seal in \<open>auto simp: quote_step_frame sign_step_frame\<close>)
      then show ?thesis using True p1 seal_tick_frame(4,5) [OF seal] by (auto simp: Let_def split: if_splits)
    qed
  qed (use assms in \<open>simp add: onTick_idle Let_def\<close>)
  then show "(sessionID p', sessionNonce p') =
      (if IsActive (pstate p) \<and> sessionID p = []
       then (hex_encode (filled 16 (rand_id (te_rand env))), filled 32 (rand_nonce (te_rand env)))
       else (sessionID p, sessionNonce p))" by (rule conjunct1)
  show "pseq p' \<in> (let n = if IsActive (pstate p) \<and> sessionID p = [] then 0 else pseq p in {n, n + 1})"
    using * by (rule conjunct2)
qed

text \<open>C12: sessions follow the print state. The packetizer has two handlers. A delta starts a session (a
  fresh 32-digit id and 32-byte nonce, number 0, no previous hash, no quote) exactly when it takes
  the print state to \<open>printing\<close> from a state other than \<open>printing\<close> and \<open>paused\<close>; a pause, a resume, an
  end and every other delta keep session, number, head and quote reference. A tick starts a
  session exactly when the print is active and there is no session yet, as when the first state seen is
  \<open>paused\<close>; every other tick keeps the session, and the number moves by at most one.\<close>

theorem session_lifecycle:
  assumes "distinct (map fst (Status d))"
  shows "session_of (applyDelta rnd d p) =
    (if starts_session (State (PrintStats (pstate p))) (State (PrintStats (pstate (applyDelta rnd d p))))
     then (hex_encode (filled 16 (rand_id rnd)), filled 32 (rand_nonce rnd), 0, None, 0, zero_time)
     else session_of p) \<and>
   (case onTick B api env q db of (q', db') \<Rightarrow>
     (let starts = State (PrintStats (pstate q)) \<in> {''printing'', ''paused''} \<and> sessionID q = [];
          n = if starts then 0 else pseq q in
      (sessionID q', sessionNonce q') =
        (if starts then (hex_encode (filled 16 (rand_id (te_rand env))), filled 32 (rand_nonce (te_rand env)))
         else (sessionID q, sessionNonce q)) \<and>
      pseq q' \<in> {n, n + 1}))"
proof
  have "PrintStats (pstate (applyDelta rnd d p)) =
      merged unm_print_stats (map_of (Status d) ''print_stats'') (PrintStats (pstate p))"
    by (rule cache_part [OF assms]) (simp_all add: merge_object_def)
  then show "session_of (applyDelta rnd d p) =
    (if starts_session (State (PrintStats (pstate p))) (State (PrintStats (pstate (applyDelta rnd d p))))
     then (hex_encode (filled 16 (rand_id rnd)), filled 32 (rand_nonce rnd), 0, None, 0, zero_time)
     else session_of p)"
    using session_apply_objects [OF assms, of rnd p]
    by (auto simp: applyDelta_def merged_def starts_session_def split: option.splits)
  obtain q' db' where t: "onTick B api env q db = (q', db')" by fastforce
  have active: "State (PrintStats (pstate q)) \<in> {''printing'', ''paused''} \<longleftrightarrow> IsActive (pstate q)"
    by (simp add: IsActive_def Let_def)
  show "case onTick B api env q db of (q', db') \<Rightarrow>
     (let starts = State (PrintStats (pstate q)) \<in> {''printing'', ''paused''} \<and> sessionID q = [];
          n = if starts then 0 else pseq q in
      (sessionID q', sessionNonce q') =
        (if starts then (hex_encode (filled 16 (rand_id (te_rand env))), filled 32 (rand_nonce (te_rand env)))
         else (sessionID q, sessionNonce q)) \<and>
      pseq q' \<in> {n, n + 1})"
    unfolding t prod.case Let_def active using onTick_session [OF t] unfolding Let_def by blast
qed

theorem session_lifecycle_witness:
  "session_of (applyDelta sample_rand sample_delta (NewPacketizer sample_config None :: unit Packetizer)) =
     (hex_encode (filled 16 [1, 2, 3]), filled 32 [4], 0, None, 0, zero_time) \<and>
   sessionID (fst (onTick sha256 echo_tpm sample_env ((NewPacketizer sample_config None)\<lparr>pstate :=
     zero_state\<lparr>PrintStats := (PrintStats zero_state)\<lparr>State := ''paused''\<rparr>\<rparr>\<rparr>) empty_database)) = hex_encode (filled 16 [1, 2, 3])"
proof -
  let ?q = "(NewPacketizer sample_config None :: unit Packetizer)\<lparr>pstate :=
     zero_state\<lparr>PrintStats := (PrintStats zero_state)\<lparr>State := ''paused''\<rparr>\<rparr>\<rparr>"
  have "State (PrintStats (pstate (sample_start None))) = ''printing''"
    by (simp add: sample_start_eq Let_def startNewSession_def)
  then have "State (PrintStats (pstate (applyDelta sample_rand sample_delta
      (NewPacketizer sample_config None :: unit Packetizer)))) = ''printing''"
    by (simp add: sample_start_def)
  moreover obtain q' db' where "onTick sha256 echo_tpm sample_env ?q empty_database = (q', db')" by fastforce
  ultimately show ?thesis
    using session_lifecycle [where d = sample_delta and rnd = sample_rand and env = sample_env and B = sha256
        and p = "NewPacketizer sample_config None :: unit Packetizer" and api = echo_tpm and q = ?q and db = empty_database]
    by (simp add: sample_delta_def starts_session_def NewPacketizer_def zero_state_def sample_rand_def sample_env_def Let_def)
qed

text \<open>C39: the chamber sensor is the exception to the merge: it is decoded into a new struct, so
  a delta for \<open>temperature_sensor chamber\<close> without a \<open>temperature\<close> member (Moonraker sends only
  what changed) resets the cached chamber temperature to 0 and marks the sensor present.\<close>

theorem chamber_not_merged:
  assumes "distinct (map fst (Status d))" "map_of (Status d) ''temperature_sensor chamber'' = Some (JObj ms)"
    and "\<forall>(k, v) \<in> set ms. fold_name k \<noteq> fold_name ''temperature''"
  shows "ChamberTempC (pstate (applyDelta rnd d p)) = 0 \<and> ChamberPresent (pstate (applyDelta rnd d p))"
proof -
  have "select_field [''temperature''] k = None" if "fold_name k \<noteq> fold_name ''temperature''" for k
    using that by (auto simp: select_field_def simp del: fold_name.simps)
  with assms(3) have "unm_members [''temperature''] (\<lambda>f j x. unm_float j x) ms 0 = (True, 0)"
    by (induction ms) (auto simp del: fold_name.simps)
  then have un: "unm_chamber (JObj ms) = (True, 0)" by (simp add: unm_chamber_def unm_struct_def)
  let ?get = "\<lambda>st. (ChamberTempC st, ChamberPresent st)"
  let ?upd = "\<lambda>raw x. if fst (unm_chamber raw) then (snd (unm_chamber raw), True) else x"
  have "?get (pstate (applyDelta rnd d p)) =
      (case map_of (Status d) ''temperature_sensor chamber'' of None \<Rightarrow> ?get (pstate p)
       | Some raw \<Rightarrow> ?upd raw (?get (pstate p)))"
    unfolding applyDelta_def cache_apply_objects
    by (rule fold_merge_component [OF assms(1)]) (auto simp: merge_object_def)
  then show ?thesis using assms(2) un by simp
qed

theorem chamber_not_merged_witness:
  "ChamberTempC (pstate (applyDelta sample_rand
      (sample_delta\<lparr>Status := [(''temperature_sensor chamber'', JObj [(''measured_max_temp'', JNum ''45'')])]\<rparr>)
      ((NewPacketizer sample_config None :: unit Packetizer)\<lparr>pstate := zero_state\<lparr>ChamberTempC := f_of_int 40\<rparr>\<rparr>))) = 0"
proof -
  have "fold_name ''measured_max_temp'' \<noteq> fold_name ''temperature''" by (simp add: upper_def)
  then show ?thesis
    using chamber_not_merged [of "sample_delta\<lparr>Status := [(''temperature_sensor chamber'',
        JObj [(''measured_max_temp'', JNum ''45'')])]\<rparr>" "[(''measured_max_temp'', JNum ''45'')]" sample_rand
        "(NewPacketizer sample_config None :: unit Packetizer)\<lparr>pstate := zero_state\<lparr>ChamberTempC := f_of_int 40\<rparr>\<rparr>"]
    by (simp del: fold_name.simps)
qed

end
