(* ===== verification/Daemon_Props.thy ===== *)
theory Daemon_Props
  imports Daemon Custody_Delta
begin

text \<open>
  The properties of the whole: what holds of the shared buffer however the packetizer and the
  uploader interleave, and what becomes of the daemon as \<open>main.go\<close> puts it together.
\<close>

section \<open>What a tick does to the tables\<close>

lemma quote_step_segments: "quote_step api env sha p db = (q, p', db') \<Longrightarrow> segments db' = segments db"
  by (auto simp: quote_step_def WriteQuote_def Let_def split: option.splits if_splits prod.splits sum.splits)

lemma seal_tick_rows:
  assumes "seal_tick B api env decision canonical p db = (p', db')"
  shows "(\<exists>new. map row_content (packets db') = map row_content (packets db) @ new \<and>
      (\<forall>x \<in> set new. fst x = sessionID p)) \<and> segments db' = segments db \<and> sessionID p' = sessionID p"
proof (rule seal_tick_cases [of api env canonical p db B decision])
  fix q p1 sig p2 db1 i db2 hash
  assume q: "quote_step api env (sha256 canonical) p db = (q, p1, db1)"
    and s: "sign_step api canonical p1 = (sig, p2)"
    and w: "WritePacket (te_packet_err env) (tick_row p env canonical decision (sha256 canonical) hash) db1 = (Inr i, db2)"
    and eq: "seal_tick B api env decision canonical p db =
         (p2\<lparr>prevBlake3 := Some hash, pseq := pseq p + 1\<rparr>,
          case sig of None \<Rightarrow> db2 | Some s \<Rightarrow> snd (SetTPMSig (te_sig_err env) i (Some s) q db2))"
  have "segments (snd (SetTPMSig f j sg k d)) = segments d" for f j sg k d
    by (simp add: SetTPMSig_def split: option.split)
  then have "map row_content (packets db') = map row_content (packets db2)" "segments db' = segments db2"
    using eq assms by (auto simp: SetTPMSig_row_content split: option.splits)
  moreover have "packets db2 = packets db @ [packet_columns i (tick_row p env canonical decision (sha256 canonical) hash)]"
      "segments db2 = segments db"
    using w quote_step_frame(12) [OF q] quote_step_segments [OF q]
    by (auto simp: WritePacket_def Let_def split: option.splits if_splits)
  moreover have "sessionID p' = sessionID p"
    using eq assms sign_step_frame(1) [OF s] quote_step_frame(1) [OF q] by auto
  ultimately show ?thesis by (simp add: row_content_def packet_columns_def tick_row_def)
next
  fix q p1 sig p2 db1 e hash
  assume q: "quote_step api env (sha256 canonical) p db = (q, p1, db1)"
    and s: "sign_step api canonical p1 = (sig, p2)"
    and eq: "seal_tick B api env decision canonical p db = (p2, db1)"
  then show ?thesis using assms sign_step_frame(1) [OF s] quote_step_frame(1,12) [OF q] quote_step_segments [OF q]
    by simp
qed

lemma prepare_session:
  assumes "prepare env p db = (p1, db1, decision)"
  shows "sessionID p1 = (if sessionID p = [] then hex_encode (filled 16 (rand_id (te_rand env))) else sessionID p)"
    and "segments db1 = segments db"
proof -
  show "sessionID p1 = (if sessionID p = [] then hex_encode (filled 16 (rand_id (te_rand env))) else sessionID p)"
    using prepare_frame(8) [OF assms] by (simp add: Let_def startNewSession_def split: if_splits)
  let ?q = "if sessionID p = [] then startNewSession (te_rand env) p else p"
  have "db1 = snd (silence_step env ?q db)"
    using assms by (auto simp: prepare_def Let_def split: prod.splits if_splits)
  then show "segments db1 = segments db" using silence_step_packets(5) [of env ?q db] by metis
qed

lemma onTick_rows:
  assumes "onTick B api env p db = (p', db')"
  shows "(\<exists>new. map row_content (packets db') = map row_content (packets db) @ new \<and>
      (\<forall>x \<in> set new. fst x = sessionID p')) \<and> segments db' = segments db \<and>
    sessionID p' \<in> {sessionID p, hex_encode (filled 16 (rand_id (te_rand env)))}"
proof (cases "IsActive (pstate p)")
  case True
  obtain p1 db1 decision where pr: "prepare env p db = (p1, db1, decision)" by (metis prod_cases3)
  note prepared = prepare_session [OF pr] prepare_frame(4) [OF pr]
  show ?thesis
  proof (cases "marshal_packet (build_packet p1 (pstate p) (te_tick env) (te_mono env) decision)")
    case (Inl e)
    then show ?thesis using assms prepared by (auto simp: onTick_active [OF True pr])
  next
    case (Inr canonical)
    then have "seal_tick B api env decision canonical p1 db1 = (p', db')"
      using assms by (simp add: onTick_active [OF True pr])
    from seal_tick_rows [OF this] prepared show ?thesis by auto
  qed
qed (use assms in \<open>simp add: onTick_idle\<close>)

section \<open>What a flush does to the packets\<close>

lemma flush_packets:
  assumes "flush B u env s db = Some (err, sent, db')"
  shows "\<exists>g ids. packets db' = map (mark g ids) (packets db) \<or> db' = db"
  by (rule flush_cases [of B u env s db])
    (use assms in \<open>auto simp: segment_written_def Let_def split: prod.splits\<close>)

lemma flush_chain: "flush B u env s db = Some (err, sent, db') \<Longrightarrow> chain db' = chain db"
  by (rule flush_cases [of B u env s db]) (auto simp: chain_segment_written split: prod.splits)

lemma row_content_mark [simp]: "row_content (mark g ids r) = row_content r"
  by (simp add: row_content_def)

text \<open>Everything a row holds but the marks of its upload: the recorded evidence.\<close>

definition evidence :: "packet_row \<Rightarrow> packet_row" where
  "evidence r = r\<lparr>upload_state := ''pending'', segment_id := None\<rparr>"

lemma evidence_mark [simp]: "evidence (mark g ids r) = evidence r"
  by (simp add: evidence_def mark_def)

lemma evidence_new: "upload_state r = ''pending'' \<Longrightarrow> segment_id r = None \<Longrightarrow> evidence r = r"
  by (simp add: evidence_def)

lemma flush_evidence:
  "flush B u env s db = Some (err, sent, db') \<Longrightarrow> map evidence (packets db') = map evidence (packets db)"
  using flush_packets [of B u env s db err sent db'] by auto

lemma flush_row_content:
  "flush B u env s db = Some (err, sent, db') \<Longrightarrow> map row_content (packets db') = map row_content (packets db)"
  using flush_packets [of B u env s db err sent db'] by auto

section \<open>The invariant of the node\<close>

definition node_ok :: "'d node \<Rightarrow> bool" where
  "node_ok n \<longleftrightarrow> db_wf (buf n) \<and> in_position (pktz n) (buf n)"

lemma in_position_silent [simp]: "in_position (p\<lparr>silentTicks := k\<rparr>) db = in_position p db"
  by (rule in_position_cong) simp_all

lemma node_ok_step:
  assumes "node_ok n" "node_step B api ev n = Some n'"
  shows "node_ok n'"
proof (cases ev)
  case (NDelta rnd d)
  then show ?thesis using assms in_position_applyDelta [of "pktz n" "buf n" rnd d]
    by (auto simp: node_ok_def split: if_splits)
next
  case (NTick env)
  obtain p db where t: "onTick B api env (pktz n) (buf n) = (p, db)" by fastforce
  then show ?thesis using assms NTick in_position_onTick [OF _ t] db_wf_onTick [OF _ t]
    by (auto simp: node_ok_def split: if_splits)
next
  case (NFlush env)
  then obtain err sent db where f: "flush B (up n) env (upload_session n) (buf n) = Some (err, sent, db)"
      "n' = n\<lparr>buf := db, posts := posts n @ sent\<rparr>"
    using assms(2) by (auto split: if_splits option.splits)
  then show ?thesis
    using assms(1) flush_db_wf [OF _ f(1)] in_position_cong [of "pktz n" "pktz n" db "buf n"] flush_chain [OF f(1)]
    by (simp add: node_ok_def)
qed

lemma node_ok_reach: "node_reach B api n0 n \<Longrightarrow> node_ok n0 \<Longrightarrow> node_ok n"
  by (induction rule: node_reach.induct) (blast intro: node_ok_step)+

lemma tpm_applyDelta [simp]: "tpm (applyDelta rnd d p) = tpm p"
proof -
  have "tpm (apply_object rnd obj raw p) = tpm p" for obj raw and p :: "'a Packetizer"
    by (simp add: apply_object_def Let_def detectLifecycleEdge_def startNewSession_def
        scheduleImmediateQuote_def split: prod.split bool.split)
  then have "tpm (apply_objects rnd ms p) = tpm p" for ms and p :: "'a Packetizer"
    by (induction rnd ms p rule: apply_objects.induct) simp_all
  then show ?thesis by (simp add: applyDelta_def)
qed

text \<open>Every step leaves the recorded evidence as it is and appends sealed rows.\<close>

lemma node_step_evidence:
  assumes "node_ok n" "node_step B api ev n = Some n'"
  shows "(tpm (pktz n') = None \<longleftrightarrow> tpm (pktz n) = None) \<and>
    (\<exists>new. map evidence (packets (buf n')) = map evidence (packets (buf n)) @ new \<and>
      (\<forall>r \<in> set new. row_sealed api B r \<and> (tpm (pktz n) = None \<longrightarrow> row_recomputes B r)))"
proof (cases ev)
  case (NTick env)
  obtain p db where t: "onTick B api env (pktz n) (buf n) = (p, db)" by fastforce
  have n': "n' = n\<lparr>pktz := p, buf := db\<rparr>" using assms(2) NTick t by (simp split: if_splits)
  from onTick_sealed [OF _ t] assms(1) obtain new where new: "packets db = packets (buf n) @ new"
    "\<forall>r \<in> set new. row_sealed api B r \<and> segment_id r = None \<and> upload_state r = ''pending'' \<and>
      (tpm (pktz n) = None \<longrightarrow> row_recomputes B r)" "tpm p = None \<longleftrightarrow> tpm (pktz n) = None"
    by (auto simp: node_ok_def)
  moreover have "map evidence new = new" by (rule map_idI) (use new(2) in \<open>simp add: evidence_new\<close>)
  ultimately show ?thesis by (simp add: n')
next
  case (NFlush env)
  then show ?thesis using assms(2) by (auto split: if_splits option.splits dest: flush_evidence)
qed (use assms in \<open>auto split: if_splits\<close>)

lemma node_reach_evidence:
  "node_reach B api n0 n \<Longrightarrow> node_ok n0 \<Longrightarrow> (tpm (pktz n) = None \<longleftrightarrow> tpm (pktz n0) = None) \<and>
    (\<exists>new. map evidence (packets (buf n)) = map evidence (packets (buf n0)) @ new \<and>
      (\<forall>r \<in> set new. row_sealed api B r \<and> (tpm (pktz n0) = None \<longrightarrow> row_recomputes B r)))"
proof (induction rule: node_reach.induct)
  case (step n ev n')
  note stepped = node_step_evidence [OF node_ok_reach [OF step.hyps(1) step.prems] step.hyps(2)]
  note t = conjunct1 [OF stepped] conjunct1 [OF step.IH [OF step.prems]]
  obtain new where new: "map evidence (packets (buf n)) = map evidence (packets (buf n0)) @ new"
    "\<forall>r \<in> set new. row_sealed api B r \<and> (tpm (pktz n0) = None \<longrightarrow> row_recomputes B r)"
    using conjunct2 [OF step.IH [OF step.prems]] by blast
  obtain more where more: "map evidence (packets (buf n')) = map evidence (packets (buf n)) @ more"
    "\<forall>r \<in> set more. row_sealed api B r \<and> (tpm (pktz n) = None \<longrightarrow> row_recomputes B r)"
    using conjunct2 [OF stepped] by blast
  have "map evidence (packets (buf n')) = map evidence (packets (buf n0)) @ (new @ more)" using new(1) more(1) by simp
  moreover have "\<forall>r \<in> set (new @ more). row_sealed api B r \<and> (tpm (pktz n0) = None \<longrightarrow> row_recomputes B r)"
    using new(2) more(2) t(2) by auto
  ultimately show ?case unfolding t by blast
qed simp

section \<open>The uploader's session\<close>

lemma flush_nothing_pending:
  assumes "pending s db = {}"
  shows "\<exists>err. flush B u env s db = Some (err, [], db)"
proof -
  have "pending_sorted s db = []" using assms by (metis set_empty set_pending_sorted)
  then have "PendingRange f e s m db = (case f of Some x \<Rightarrow> Inl x | None \<Rightarrow> Inr (0, 0, []))" for f e m
    by (simp add: PendingRange_def pending_rows_prefix sql_limit_def Let_def split: option.split)
  then show ?thesis by (simp add: flush_def split: option.split)
qed

lemma session_applyDelta:
  "sessionID (applyDelta rnd d p) \<in> {sessionID p, hex_encode (filled 16 (rand_id rnd))}"
proof -
  have edge: "sessionID (detectLifecycleEdge rnd a b q) \<in> {sessionID q, hex_encode (filled 16 (rand_id rnd))}" for a b and q :: "'a Packetizer"
    by (simp add: detectLifecycleEdge_def startNewSession_def scheduleImmediateQuote_def Let_def)
  have one: "sessionID (apply_object rnd obj raw q) \<in> {sessionID q, hex_encode (filled 16 (rand_id rnd))}" for obj raw and q :: "'a Packetizer"
    using edge [of _ _ "q\<lparr>pstate := _\<rparr>"] by (simp add: apply_object_def Let_def split: prod.split bool.split)
  have "sessionID (apply_objects rnd ms p) \<in> {sessionID p, hex_encode (filled 16 (rand_id rnd))}" for ms
  proof (induction ms arbitrary: p)
    case (Cons m ms)
    obtain obj raw where "m = (obj, raw)" by fastforce
    then show ?case using Cons.IH [of "apply_object rnd obj raw p"] one [of obj raw p] by auto
  qed simp
  then show ?thesis by (simp add: applyDelta_def)
qed

text \<open>Session ids are hexadecimal, so none has a dash.\<close>

definition dashless :: "'d node \<Rightarrow> bool" where
  "dashless n \<longleftrightarrow> CHR ''-'' \<notin> set (sessionID (pktz n)) \<and> CHR ''-'' \<in> set (upload_session n) \<and>
     (\<forall>r \<in> set (packets (buf n)). session_id r \<noteq> upload_session n)"

lemma dashless_rows:
  "(\<forall>r \<in> set (packets db). session_id r \<noteq> s) \<longleftrightarrow> (\<forall>x \<in> set (map row_content (packets db)). fst x \<noteq> s)"
  by (simp add: row_content_def)

lemma dashless_step:
  assumes "dashless n" "node_step B api ev n = Some n'"
  shows "dashless n' \<and> posts n' = posts n \<and> segments (buf n') = segments (buf n)"
proof (cases ev)
  case (NDelta rnd d)
  then show ?thesis using assms session_applyDelta [of rnd d "pktz n"] hex_encode_no_dash
    by (auto simp: dashless_def split: if_splits)
next
  case (NTick env)
  obtain p db where t: "onTick B api env (pktz n) (buf n) = (p, db)" by fastforce
  have n': "n' = n\<lparr>pktz := p, buf := db\<rparr>" using assms(2) NTick t by (simp split: if_splits)
  from onTick_rows [OF t] obtain new where new: "map row_content (packets db) = map row_content (packets (buf n)) @ new"
      "\<forall>x \<in> set new. fst x = sessionID p" and seg: "segments db = segments (buf n)"
    and sid: "sessionID p \<in> {sessionID (pktz n), hex_encode (filled 16 (rand_id (te_rand env)))}" by blast
  have dash: "CHR ''-'' \<notin> set (sessionID p)" using sid assms(1) hex_encode_no_dash by (auto simp: dashless_def)
  then have "sessionID p \<noteq> upload_session n" using assms(1) by (auto simp: dashless_def)
  then have "\<forall>x \<in> set (map row_content (packets db)). fst x \<noteq> upload_session n"
    using assms(1) new unfolding dashless_def dashless_rows by auto
  then show ?thesis using assms(1) dash seg n' by (simp add: dashless_def dashless_rows)
next
  case (NFlush env)
  have "pending (upload_session n) (buf n) = {}" using assms(1) by (auto simp: dashless_def pending_def)
  then obtain err where "flush B (up n) env (upload_session n) (buf n) = Some (err, [], buf n)"
    using flush_nothing_pending by blast
  then have "n' = n\<lparr>buf := buf n, posts := posts n\<rparr>" using assms(2) NFlush by (simp split: if_splits)
  then show ?thesis using assms(1) by simp
qed

text \<open>No packet was marked as uploaded between two states.\<close>

definition unmarked :: "'d node \<Rightarrow> 'd node \<Rightarrow> bool" where
  "unmarked n0 n \<longleftrightarrow>
     (\<exists>new. map (\<lambda>r. (pk_id r, upload_state r)) (packets (buf n)) =
        map (\<lambda>r. (pk_id r, upload_state r)) (packets (buf n0)) @ new \<and> (\<forall>x \<in> set new. snd x = ''pending''))"

lemma SetTPMSig_uploads:
  "map (\<lambda>r. (pk_id r, upload_state r)) (packets (snd (SetTPMSig f i sig q db))) =
   map (\<lambda>r. (pk_id r, upload_state r)) (packets db)"
  by (auto simp: SetTPMSig_def split: option.split)

lemma onTick_uploads:
  assumes "onTick B api env p db = (p', db')"
  shows "\<exists>new. map (\<lambda>r. (pk_id r, upload_state r)) (packets db') = map (\<lambda>r. (pk_id r, upload_state r)) (packets db) @ new \<and>
    (\<forall>x \<in> set new. snd x = ''pending'')"
proof (cases "IsActive (pstate p)")
  case True
  obtain p1 db1 decision where pr: "prepare env p db = (p1, db1, decision)" by (metis prod_cases3)
  show ?thesis
  proof (cases "marshal_packet (build_packet p1 (pstate p) (te_tick env) (te_mono env) decision)")
    case (Inl e)
    then show ?thesis using assms prepare_frame(4) [OF pr] by (simp add: onTick_active [OF True pr])
  next
    case (Inr canonical)
    then have seal: "seal_tick B api env decision canonical p1 db1 = (p', db')"
      using assms by (simp add: onTick_active [OF True pr])
    show ?thesis
    proof (rule seal_tick_cases [of api env canonical p1 db1 B decision])
      fix q p2 sig p3 db2 i db3 hash
      assume q: "quote_step api env (sha256 canonical) p1 db1 = (q, p2, db2)"
        and w: "WritePacket (te_packet_err env) (tick_row p1 env canonical decision (sha256 canonical) hash) db2 = (Inr i, db3)"
        and eq: "seal_tick B api env decision canonical p1 db1 =
          (p3\<lparr>prevBlake3 := Some hash, pseq := pseq p1 + 1\<rparr>,
           case sig of None \<Rightarrow> db3 | Some s \<Rightarrow> snd (SetTPMSig (te_sig_err env) i (Some s) q db3))"
      have "packets db3 = packets db @ [packet_columns i (tick_row p1 env canonical decision (sha256 canonical) hash)]"
        using w quote_step_frame(12) [OF q] prepare_frame(4) [OF pr]
        by (auto simp: WritePacket_def Let_def split: option.splits if_splits)
      moreover have "map (\<lambda>r. (pk_id r, upload_state r)) (packets db') = map (\<lambda>r. (pk_id r, upload_state r)) (packets db3)"
        using eq seal by (auto simp: SetTPMSig_uploads split: option.splits)
      ultimately show ?thesis by (simp add: packet_columns_def)
    next
      fix q p2 sig p3 db2 e hash
      assume q: "quote_step api env (sha256 canonical) p1 db1 = (q, p2, db2)"
        and eq: "seal_tick B api env decision canonical p1 db1 = (p3, db2)"
      then show ?thesis using seal quote_step_frame(12) [OF q] prepare_frame(4) [OF pr] by simp
    qed
  qed
qed (use assms in \<open>simp add: onTick_idle\<close>)

lemma unmarked_step:
  assumes "dashless n" "unmarked n0 n" "node_step B api ev n = Some n'"
  shows "unmarked n0 n'"
proof (cases ev)
  case (NTick env)
  obtain p db where t: "onTick B api env (pktz n) (buf n) = (p, db)" by fastforce
  have n': "n' = n\<lparr>pktz := p, buf := db\<rparr>" using assms(3) NTick t by (simp split: if_splits)
  show ?thesis using assms(2) onTick_uploads [OF t] by (auto simp: unmarked_def n')
next
  case (NFlush env)
  have "pending (upload_session n) (buf n) = {}" using assms(1) by (auto simp: dashless_def pending_def)
  then obtain err where "flush B (up n) env (upload_session n) (buf n) = Some (err, [], buf n)"
    using flush_nothing_pending by blast
  then have "n' = n\<lparr>buf := buf n, posts := posts n\<rparr>" using assms(3) NFlush by (simp split: if_splits)
  then show ?thesis using assms(2) by simp
qed (use assms in \<open>auto simp: unmarked_def split: if_splits\<close>)

section \<open>The daemon\<close>

lemma daemon_node_reach: "daemon_reach B api d0 d \<Longrightarrow> node_reach B api (node d0) (node d)"
proof (induction rule: daemon_reach.induct)
  case (step d ev d')
  from step(2) consider "node d' = node d" | e where "node_step B api e (node d) = Some (node d')"
    by (cases ev)
      (auto simp: daemon_step_def receive_step_def simp del: node_step.simps split: if_splits option.splits list.splits)
  then show ?case using step.IH node_reach.step by cases (simp, blast)
qed (rule node_reach.start)

lemma start_state:
  assumes "runDaemon w cfg = Inr d"
  shows "\<exists>t. pktz (node d) = NewPacketizer (packetizer_config cfg) t"
    and "moon d = client_start (NewClient (Endpoint (Moonraker cfg)) (APIKey (Moonraker cfg))
           (ClientName (Moonraker cfg)) (ClientVersion (Moonraker cfg)) (ReconnectDelay (Moonraker cfg))
           (Some (moon_objects cfg)))"
    and "up (node d) = New (UpEndpoint (Uploader cfg)) (BatchSize (Uploader cfg)) (RetryInterval (Uploader cfg))"
    and "upload_session (node d) = NodeLabel (Session cfg) @ ''-session''" "posts (node d) = []" "\<not> panicked d"
  using assms by (auto simp: runDaemon_def Let_def split: sum.splits)

text \<open>The daemon before any delta: the client unanswered, the packetizer's cache at zero.\<close>

definition idle_daemon :: "Client \<Rightarrow> 'd daemon \<Rightarrow> bool" where
  "idle_daemon c d \<longleftrightarrow> unanswered c (moon d) \<and> pstate (pktz (node d)) = zero_state"

lemma not_active_zero: "\<not> IsActive zero_state"
  by (simp add: IsActive_def zero_state_def)

lemma idle_daemon_step:
  assumes "idle_daemon c d" "daemon_step B api ev d = Some d'"
  shows "idle_daemon c d' \<and> pktz (node d') = pktz (node d) \<and>
    map row_content (packets (buf (node d'))) = map row_content (packets (buf (node d)))"
proof (cases ev)
  case (Moon e)
  then show ?thesis using assms unanswered_step [of c "moon d" e]
    by (auto simp: idle_daemon_def daemon_step_def split: if_splits)
next
  case (Receive rnd)
  then show ?thesis using assms
    by (auto simp: idle_daemon_def daemon_step_def receive_step_def unanswered_def split: if_splits)
next
  case (Clock env)
  then show ?thesis using assms onTick_idle [of "pktz (node d)" B api env "buf (node d)"] not_active_zero
    by (auto simp: idle_daemon_def daemon_step_def split: if_splits)
next
  case (Upload env)
  then show ?thesis using assms
    by (auto simp: idle_daemon_def daemon_step_def split: if_splits option.splits dest: flush_row_content)
next
  case Panic
  then show ?thesis using assms by (auto simp: idle_daemon_def daemon_step_def split: if_splits)
qed

end
