(* ===== verification/Daemon_Start.thy ===== *)
theory Daemon_Start
  imports Daemon_Props
begin

text \<open>
  The start of the process: the command line, the configuration, the evidence of the TPM's
  keys; why single statements of the packetizer and the uploader may interleave; and concrete
  runs of the node and the daemon.
\<close>

section \<open>Statements of the two loops\<close>

text \<open>Two statements that may come in either order: each gives the same result, and the database at the
  end is the same.\<close>

definition both_orders :: "(database \<Rightarrow> 'a \<times> database) \<Rightarrow> (database \<Rightarrow> 'b \<times> database) \<Rightarrow> database \<Rightarrow> bool" where
  "both_orders f g db \<longleftrightarrow>
     (let (x, d1) = f db; (y, d2) = g d1; (y', e1) = g db; (x', e2) = f e1 in x = x' \<and> y = y' \<and> d2 = e2)"

lemma mark_all_fault: "mark_all f g is db = Inl e \<Longrightarrow> mark_all f g' is db' = Inl e"
  by (induction f g "is" db arbitrary: db' rule: mark_all.induct) (auto split: option.splits)

lemma mark_all_uniform:
  "(\<exists>e. \<forall>g db. mark_all f g is db = Inl e) \<or>
   (\<forall>g db. mark_all f g is db = Inr (db\<lparr>packets := map (mark g (set is)) (packets db)\<rparr>))"
proof (cases "\<exists>e g db. mark_all f g is db = Inl e")
  case True
  then show ?thesis using mark_all_fault [of f _ "is"] by blast
next
  case False
  have "mark_all f g is db = Inr (db\<lparr>packets := map (mark g (set is)) (packets db)\<rparr>)" for g db
    using False mark_all_Inr [of f g "is" db] by (cases "mark_all f g is db") auto
  then show ?thesis by blast
qed

text \<open>Whether the transaction succeeds does not depend on the rows it finds.\<close>

lemma WriteSegment_uniform:
  "(\<exists>e. \<forall>db. WriteSegment fs now s a b n root ids db = (Some e, db)) \<or>
   (\<forall>db. WriteSegment fs now s a b n root ids db = (None, segment_written now s a b n root ids db))"
  using mark_all_uniform [of "update_fault fs" ids]
proof
  assume "\<exists>e. \<forall>g db. mark_all (update_fault fs) g ids db = Inl e"
  then show ?thesis
    by (cases "begin_fault fs"; cases "insert_fault fs") (auto simp: WriteSegment_def)
next
  assume "\<forall>g db. mark_all (update_fault fs) g ids db = Inr (db\<lparr>packets := map (mark g (set ids)) (packets db)\<rparr>)"
  then show ?thesis
    by (cases "begin_fault fs"; cases "insert_fault fs"; cases "commit_fault fs")
      (auto simp: WriteSegment_def segment_written_def Let_def)
qed

lemma both_orders_segment:
  assumes "stmt (segment_written now s a b n root ids db) = apsnd (segment_written now s a b n root ids) (stmt db)"
  shows "both_orders stmt (WriteSegment fs now s a b n root ids) db"
proof (cases "\<exists>e. \<forall>db. WriteSegment fs now s a b n root ids db = (Some e, db)")
  case True
  then obtain e where "WriteSegment fs now s a b n root ids d = (Some e, d)" for d by blast
  then show ?thesis by (simp add: both_orders_def split: prod.split)
next
  case False
  then have "WriteSegment fs now s a b n root ids d = (None, segment_written now s a b n root ids d)" for d
    using WriteSegment_uniform [of fs now s a b n root ids] by blast
  then show ?thesis using assms by (auto simp: both_orders_def split: prod.split)
qed

lemma hash_map_cong:
  "(\<And>r. pk_id (g r) = pk_id r \<and> packet_blake3 (g r) = packet_blake3 r) \<Longrightarrow> hash_map (map g rs) = hash_map rs"
  by (induction rs) (simp_all cong: option.case_cong sum.case_cong)

lemma PacketHashes_map:
  assumes "\<And>r. pk_id (g r) = pk_id r \<and> packet_blake3 (g r) = packet_blake3 r" "packets db' = map g (packets db)"
  shows "PacketHashes qf rf ids db' = PacketHashes qf rf ids db"
proof -
  have "filter (\<lambda>r. pk_id r \<in> set ids) (packets db') = map g (filter (\<lambda>r. pk_id r \<in> set ids) (packets db))"
    using assms by (simp add: filter_map comp_def)
  then have "hash_map (filter (\<lambda>r. pk_id r \<in> set ids) (packets db')) = hash_map (filter (\<lambda>r. pk_id r \<in> set ids) (packets db))"
    using hash_map_cong [of g] assms(1) by simp
  then show ?thesis by (simp add: PacketHashes_def cong: option.case_cong)
qed

lemma PacketHashes_packets: "packets db' = packets db \<Longrightarrow> PacketHashes qf rf ids db' = PacketHashes qf rf ids db"
  by (rule PacketHashes_map [of "\<lambda>r. r"]) simp_all

text \<open>C23: Statements of the packetizer and of a flush commute. Take the row ids that a flush works on,
  of rows that exist. Whether a packet is inserted, a signature or a quote stored or a fault recorded
  before or after the uploader's transaction \<open>WriteSegment\<close>, with any failures, both calls give the same
  result and the database at the end is the same; and none of these statements changes
  the hashes that the flush reads for its rows. So the statements of a tick that fall between the statements of a
  flush may be moved behind it, and handlers may be taken as whole steps.\<close>

theorem statements_commute:
  assumes "db_wf db" "set ids \<subseteq> pk_id ` set (packets db)"
  shows "both_orders (WritePacket f p) (WriteSegment fs now s a b n root ids) db \<and>
    both_orders (SetTPMSig f i sig q) (WriteSegment fs now s a b n root ids) db \<and>
    both_orders (WriteQuote f t qr) (WriteSegment fs now s a b n root ids) db \<and>
    both_orders (RecordProvenanceFault f t sid sq why) (WriteSegment fs now s a b n root ids) db \<and>
    (\<forall>db' \<in> {snd (WritePacket f p db), snd (SetTPMSig f i sig q db), snd (WriteQuote f t qr db),
        snd (RecordProvenanceFault f t sid sq why db)}.
      PacketHashes qf rf ids db' = PacketHashes qf rf ids db)"
proof -
  let ?g = "segments_last db + 1"
  let ?sw = "segment_written now s a b n root ids"
  have fresh: "packets_last db + 1 \<notin> set ids"
    using assms by (force simp: db_wf_def ids_ok_def)
  have taken: "seq_taken (RowSessionID p) (RowSeq p) (?sw db) = seq_taken (RowSessionID p) (RowSeq p) db"
    by (auto simp: seq_taken_def segment_written_def Let_def)
  have new: "mark ?g (set ids) (packet_columns (packets_last db + 1) p) = packet_columns (packets_last db + 1) p"
    using fresh by (simp add: mark_def packet_columns_def)
  have "WritePacket f p (?sw db) = apsnd ?sw (WritePacket f p db)"
    using taken new by (simp add: WritePacket_def segment_written_def Let_def split: option.split)
  note packet = both_orders_segment [OF this]
  have row: "(\<exists>r \<in> set (packets (?sw db)). pk_id r = i) \<longleftrightarrow> (\<exists>r \<in> set (packets db). pk_id r = i)"
    by (auto simp: segment_written_def Let_def)
  have sig: "(if pk_id (mark ?g (set ids) r) = i then (mark ?g (set ids) r)\<lparr>tpm_sig := sig, quote_ref := Some q\<rparr>
        else mark ?g (set ids) r) =
      mark ?g (set ids) (if pk_id r = i then r\<lparr>tpm_sig := sig, quote_ref := Some q\<rparr> else r)" for r
    by (simp add: mark_def)
  have "SetTPMSig f i sig q (?sw db) = apsnd ?sw (SetTPMSig f i sig q db)"
    unfolding SetTPMSig_def row
    by (simp add: segment_written_def Let_def comp_def sig del: mark_simps split: option.split)
  note signature = both_orders_segment [OF this]
  have "WriteQuote f t qr (?sw db) = apsnd ?sw (WriteQuote f t qr db)"
    by (simp add: WriteQuote_def segment_written_def Let_def split: option.split)
  note quote = both_orders_segment [OF this]
  have "RecordProvenanceFault f t sid sq why (?sw db) = apsnd ?sw (RecordProvenanceFault f t sid sq why db)"
    by (simp add: RecordProvenanceFault_def segment_written_def Let_def split: option.split)
  note fault = both_orders_segment [OF this]
  have "PacketHashes qf rf ids (snd (WritePacket f p db)) = PacketHashes qf rf ids db"
    using fresh by (simp add: WritePacket_def PacketHashes_def packet_columns_def Let_def split: option.split)
  moreover have "PacketHashes qf rf ids (snd (SetTPMSig f i sig q db)) = PacketHashes qf rf ids db"
    by (auto simp: SetTPMSig_def split: option.split
        intro!: PacketHashes_map [of "\<lambda>r. if pk_id r = i then r\<lparr>tpm_sig := sig, quote_ref := Some q\<rparr> else r"])
  moreover have "PacketHashes qf rf ids (snd (WriteQuote f t qr db)) = PacketHashes qf rf ids db"
    "PacketHashes qf rf ids (snd (RecordProvenanceFault f t sid sq why db)) = PacketHashes qf rf ids db"
    by (auto simp: WriteQuote_def RecordProvenanceFault_def Let_def split: option.split intro!: PacketHashes_packets)
  ultimately show ?thesis using packet signature quote fault by simp
qed

section \<open>Start\<close>

lemma WriteAttestationKey_stored:
  assumes "WriteAttestationKey f now rl al dt db = (None, db1)"
  shows "\<exists>k \<in> set (attestation_keys db1). role k = rl \<and> data k = dt"
    "set (attestation_keys db) \<subseteq> set (attestation_keys db1)" "packets db1 = packets db"
  using assms by (auto simp: WriteAttestationKey_def Let_def split: option.splits if_splits)

lemma persist_evidence_stored:
  assumes "persist_evidence w cfg t db = Inr db1"
  shows "(\<exists>k \<in> set (attestation_keys db1). role k = ''sign_pub'' \<and> data k = opt_bytes (signPub t)) \<and>
    (\<exists>k \<in> set (attestation_keys db1). role k = ''ak_pub'' \<and> data k = opt_bytes (akPub t)) \<and>
    packets db1 = packets db"
proof -
  obtain d1 where d1: "WriteAttestationKey (sign_key_fault w) (key_time w) ''sign_pub'' ''tpm2:tpm2b-public''
      (opt_bytes (signPub t)) db = (None, d1)"
    using assms by (auto simp: persist_evidence_def KeyEvidence_of_def split: prod.splits option.splits)
  obtain d2 where d2: "WriteAttestationKey (ak_key_fault w) (key_time w) ''ak_pub'' ''tpm2:tpm2b-public''
      (opt_bytes (akPub t)) d1 = (None, d2)"
    using assms d1 by (auto simp: persist_evidence_def KeyEvidence_of_def split: prod.splits option.splits)
  have "db1 = d2 \<or> (\<exists>f now rl al dt. WriteAttestationKey f now rl al dt d2 = (None, db1))"
    using assms d1 d2
    by (auto simp: persist_evidence_def KeyEvidence_of_def split: if_splits sum.splits prod.splits option.splits)
  then have last: "set (attestation_keys d2) \<subseteq> set (attestation_keys db1)" "packets db1 = packets d2"
    using WriteAttestationKey_stored(2,3) [of _ _ _ _ _ d2 db1] by (elim disjE exE; simp)+
  show ?thesis
  proof (intro conjI)
    obtain k where "k \<in> set (attestation_keys d1)" "role k = ''sign_pub''" "data k = opt_bytes (signPub t)"
      using WriteAttestationKey_stored(1) [OF d1] by auto
    then show "\<exists>k \<in> set (attestation_keys db1). role k = ''sign_pub'' \<and> data k = opt_bytes (signPub t)"
      using WriteAttestationKey_stored(2) [OF d2] last(1) by auto
    obtain k where "k \<in> set (attestation_keys d2)" "role k = ''ak_pub''" "data k = opt_bytes (akPub t)"
      using WriteAttestationKey_stored(1) [OF d2] by auto
    then show "\<exists>k \<in> set (attestation_keys db1). role k = ''ak_pub'' \<and> data k = opt_bytes (akPub t)"
      using last(1) by auto
    show "packets db1 = packets db"
      using last(2) WriteAttestationKey_stored(3) [OF d1] WriteAttestationKey_stored(3) [OF d2] by simp
  qed
qed

text \<open>C24: The start of the daemon. When it comes up, either the TPM could not be opened, the daemon
  runs without one and the buffer is what was in the file; or the TPM is open and the public areas
  of its two keys are stored in the buffer, under their roles, with the packets untouched. In both
  cases the packetizer, the client and the uploader start fresh.\<close>

theorem startup_evidence:
  assumes "runDaemon w cfg = Inr d"
  shows "\<exists>db. Hotbuffer.Open (open_fault w) (migrate_fault w) (DBPath (HotBuffer cfg)) (db_file w) = Inr db \<and>
    posts (node d) = [] \<and> \<not> panicked d \<and>
    (case TpmOpen (tpm_device w) (tpm_config cfg) of
       Inl e \<Rightarrow> buf (node d) = db \<and> pktz (node d) = NewPacketizer (packetizer_config cfg) None
     | Inr t \<Rightarrow> pktz (node d) = NewPacketizer (packetizer_config cfg) (Some t) \<and>
         (\<exists>k \<in> set (attestation_keys (buf (node d))). role k = ''sign_pub'' \<and> signPub t = Some (data k)) \<and>
         (\<exists>k \<in> set (attestation_keys (buf (node d))). role k = ''ak_pub'' \<and> akPub t = Some (data k)) \<and>
         packets (buf (node d)) = packets db)"
proof -
  obtain db where db: "Hotbuffer.Open (open_fault w) (migrate_fault w) (DBPath (HotBuffer cfg)) (db_file w) = Inr db"
    using assms by (auto simp: runDaemon_def split: sum.splits)
  show ?thesis
  proof (cases "TpmOpen (tpm_device w) (tpm_config cfg)")
    case (Inl e)
    then show ?thesis using assms db by (auto simp: runDaemon_def)
  next
    case (Inr t)
    then obtain db1 where p: "persist_evidence w cfg t db = Inr db1"
      using assms db by (auto simp: runDaemon_def split: sum.splits)
    obtain sp ap where keys: "signPub t = Some sp" "akPub t = Some ap"
      using Inr by (auto simp: TpmOpen_def checkHandles_def Let_def split: sum.splits prod.splits option.splits)
    show ?thesis using assms db Inr p persist_evidence_stored [OF p] keys by (auto simp: runDaemon_def)
  qed
qed

lemma parse_flags_config:
  "parse_flags (''--config'' # path # args) c = parse_flags args path"
  "parse_flags (''-config'' # path # args) c = parse_flags args path"
  "parse_flags ((''--config='' @ path) # args) c = parse_flags args path"
  "parse_flags ((''-config='' @ path) # args) c = parse_flags args path"
  by (simp_all add: split_eq_def)

lemma parse_flags_step:
  "parse_flags (s # args) c \<in> {Inr c, Inl 0, Inl 2} \<or> (\<exists>v. parse_flags (s # args) c = parse_flags args v) \<or>
   (\<exists>v rest. args = v # rest \<and> parse_flags (s # args) c = parse_flags rest v)"
proof -
  define name where "name = (if s ! 1 = CHR ''-'' then drop 2 s else drop 1 s)"
  obtain key val where kv: "split_eq name = (key, val)" by fastforce
  have eq: "parse_flags (s # args) c =
     (if length s < 2 \<or> hd s \<noteq> CHR ''-'' \<or> s = ''--'' then Inr c
      else if name = [] \<or> hd name = CHR ''-'' \<or> hd name = CHR ''='' then Inl 2
      else if key = ''config'' then
        (case val of Some v \<Rightarrow> parse_flags args v
         | None \<Rightarrow> (case args of [] \<Rightarrow> Inl 2 | v # rest \<Rightarrow> parse_flags rest v))
      else if key = ''help'' \<or> key = ''h'' then Inl 0 else Inl 2)"
    unfolding parse_flags.simps(2) Let_def name_def [symmetric] kv prod.case ..
  show ?thesis unfolding eq by (cases val; cases args) (auto simp del: parse_flags.simps)
qed

lemma parse_flags_exit: "parse_flags args c = Inl code \<Longrightarrow> code = 0 \<or> code = 2"
proof (induction "length args" arbitrary: args c rule: less_induct)
  case less
  show ?case
  proof (cases args)
    case (Cons s rest)
    from parse_flags_step [of s rest c] show ?thesis
      using less.prems less.hyps [of rest] less.hyps [of "tl rest"] Cons
      by (elim disjE exE conjE) (auto simp del: parse_flags.simps)
  qed (use less.prems in simp)
qed

text \<open>C31: The command line. The daemon is up exactly when the first word is \<open>run\<close>, empty or missing, the flags
  parse and the start succeeds with the configuration they select, or with the defaults when that file cannot be read or
  decoded; \<open>provision\<close> provisions with the same configuration and starts nothing. With any other first word, whatever follows
  it, nothing is started or provisioned: the process exits while parsing flags, or returns the error that names the
  word. The flag has four equivalent spellings, the last one given wins, and parsing stops
  at the first argument that is not a flag.\<close>

theorem command_line:
  "(run_command w args = Serving d \<longleftrightarrow>
      (args = [] \<or> hd args = ''run'' \<or> hd args = []) \<and>
      (\<exists>path. parse_flags (tl args) default_path = Inr path \<and>
         runDaemon w (case Load (read_file w) (yaml_unmarshal w) path of Inl e \<Rightarrow> DefaultConfig | Inr c \<Rightarrow> c) = Inr d)) \<and>
   run_command w [''provision'', ''--config'', path] =
     Return (fst (ProvisionKeys (tpm_device w) (tpm_config
       (case Load (read_file w) (yaml_unmarshal w) path of Inl e \<Rightarrow> DefaultConfig | Inr c \<Rightarrow> c)))) \<and>
   (cmd \<notin> {''run'', ''provision'', []} \<longrightarrow>
      run_command w (cmd # rest) \<in> {Exit 0, Exit 2,
        Return (Some (Err (''unknown subcommand: '' @ cmd @ '' (use 'run' or 'provision')'')))}) \<and>
   (\<forall>flag \<in> {[''--config'', path], [''-config'', path], [''--config='' @ path], [''-config='' @ path]}.
      run_command w (cmd # flag @ rest) = run_command w (cmd # [''--config'', path] @ rest) \<and>
      run_command w (cmd # [''--config'', old] @ flag @ rest) = run_command w (cmd # [''--config'', path] @ rest)) \<and>
   (length word < 2 \<or> hd word \<noteq> CHR ''-'' \<or> word = ''--'' \<longrightarrow>
      run_command w (cmd # word # rest) = run_command w [cmd])"
proof (intro conjI impI)
  show "run_command w args = Serving d \<longleftrightarrow>
      (args = [] \<or> hd args = ''run'' \<or> hd args = []) \<and>
      (\<exists>path. parse_flags (tl args) default_path = Inr path \<and>
         runDaemon w (case Load (read_file w) (yaml_unmarshal w) path of Inl e \<Rightarrow> DefaultConfig | Inr c \<Rightarrow> c) = Inr d)"
    by (cases args) (auto simp: run_command_def Let_def split: sum.splits)
  show "run_command w [''provision'', ''--config'', path] =
     Return (fst (ProvisionKeys (tpm_device w) (tpm_config
       (case Load (read_file w) (yaml_unmarshal w) path of Inl e \<Rightarrow> DefaultConfig | Inr c \<Rightarrow> c))))"
    by (simp only: run_command_def list.sel parse_flags_config parse_flags.simps(1) sum.case Let_def list.case
        runProvision_def if_True simp_thms)
  show "run_command w (cmd # rest) \<in> {Exit 0, Exit 2,
        Return (Some (Err (''unknown subcommand: '' @ cmd @ '' (use 'run' or 'provision')'')))}"
    if "cmd \<notin> {''run'', ''provision'', []}"
  proof (cases "parse_flags rest default_path")
    case (Inl code)
    then show ?thesis using parse_flags_exit [OF Inl] by (auto simp: run_command_def)
  next
    case (Inr path)
    then show ?thesis using that by (simp add: run_command_def Let_def)
  qed
  have same: "run_command w (cmd # xs) = run_command w (cmd # ys)"
    if "parse_flags xs default_path = parse_flags ys default_path" for xs ys
    using that by (simp add: run_command_def)
  show "\<forall>flag \<in> {[''--config'', path], [''-config'', path], [''--config='' @ path], [''-config='' @ path]}.
      run_command w (cmd # flag @ rest) = run_command w (cmd # [''--config'', path] @ rest) \<and>
      run_command w (cmd # [''--config'', old] @ flag @ rest) = run_command w (cmd # [''--config'', path] @ rest)"
    by (intro ballI conjI same)
      (auto simp only: insert_iff empty_iff append_Cons append_Nil
        parse_flags_config parse_flags_config [unfolded append_Cons append_Nil] simp_thms)
  show "run_command w (cmd # word # rest) = run_command w [cmd]"
    if "length word < 2 \<or> hd word \<noteq> CHR ''-'' \<or> word = ''--''"
    by (rule same) (use that in \<open>auto simp only: parse_flags.simps if_True simp_thms\<close>)
qed


section \<open>Concrete runs\<close>

text \<open>A node on an empty buffer: a print starts, a tick, a flush.\<close>

definition sample_node :: "unit node" where
  "sample_node = \<lparr>buf = empty_database, pktz = NewPacketizer sample_config None, up = sample_uploader,
     upload_session = ''node-session'', posts = []\<rparr>"

lemma sample_node_runs:
  fixes api :: "unit tpm_api"
  assumes start: "pktz n0 = NewPacketizer sample_config None" "buf n0 = empty_database"
  obtains n where "node_reach sha256 api n0 n" "session_rows (buf n) (hex_encode (filled 16 [1, 2, 3])) \<noteq> []"
proof -
  obtain p db where t: "onTick sha256 api sample_env (sample_start None) empty_database = (p, db)" by fastforce
  let ?n1 = "n0\<lparr>pktz := sample_start None\<rparr>"
  have period: "PPeriod sample_config > 0" by (simp add: sample_config_def second_def)
  have "node_step sha256 api (NDelta sample_rand sample_delta) n0 = Some ?n1"
    using period start by (simp add: sample_start_def NewPacketizer_def)
  moreover have "node_step sha256 api (NTick sample_env) ?n1 = Some (?n1\<lparr>pktz := p, buf := db\<rparr>)"
    using period t start by (simp add: sample_start_state)
  ultimately have r: "node_reach sha256 api n0 (?n1\<lparr>pktz := p, buf := db\<rparr>)"
    using node_reach.start node_reach.step by metis
  have "node_ok n0" by (simp add: node_ok_def start in_position_NewPacketizer)
  then have "in_position p db" using node_ok_reach [OF r] by (simp add: node_ok_def)
  then have "session_rows db (hex_encode (filled 16 [1, 2, 3])) \<noteq> []"
    using sample_tick [OF t] by (auto simp: in_position_def ledger.at_end_def chain_session_rows)
  then show thesis using that [OF r] by simp
qed

text \<open>A machine with or without a TPM and with or without a configuration file.\<close>

definition sample_world :: "unit tpm_api \<Rightarrow> Config res \<Rightarrow> unit world" where
  "sample_world api cfg = \<lparr>read_file = (\<lambda>_. map_sum id (\<lambda>_. []) cfg), yaml_unmarshal = (\<lambda>_. cfg),
     tpm_device = api, db_file = None, open_fault = None, migrate_fault = None, sign_key_fault = None,
     ak_key_fault = None, ek_cert_fault = None, key_time = zero_time\<rparr>"

definition no_tpm :: "unit tpm_api" where
  "no_tpm = echo_tpm\<lparr>OpenFile := (\<lambda>_. Inl (Err ''no such device''))\<rparr>"

lemma sample_open: "Hotbuffer.Open (open_fault (sample_world api f)) (migrate_fault (sample_world api f)) path (db_file (sample_world api f)) = Inr empty_database"
  by (simp add: sample_world_def Open_def migrate_def)

lemma sample_daemon_up:
  obtains d where "runDaemon (sample_world no_tpm f) cfg = Inr d" "buf (node d) = empty_database"
proof -
  have "TpmOpen (tpm_device (sample_world no_tpm f)) c = Inl (Wrap (''tpm: open '' @ TDevice c) (Err ''no such device''))" for c
    by (simp add: TpmOpen_def sample_world_def no_tpm_def)
  then show thesis using that by (simp add: runDaemon_def sample_open)
qed

lemma sample_daemon_pktz:
  assumes "runDaemon (sample_world no_tpm f) cfg = Inr d"
  shows "pktz (node d) = NewPacketizer (packetizer_config cfg) None"
proof -
  have "TpmOpen (tpm_device (sample_world no_tpm f)) c = Inl (Wrap (''tpm: open '' @ TDevice c) (Err ''no such device''))" for c
    by (simp add: TpmOpen_def sample_world_def no_tpm_def)
  then show ?thesis using assms by (auto simp: runDaemon_def sample_open)
qed

text \<open>The configuration whose packetizer is the one of the concrete runs.\<close>

definition node_config :: Config where
  "node_config = DefaultConfig\<lparr>Session := \<lparr>NodeLabel = ''node'', PrinterID = ''printer''\<rparr>\<rparr>"

lemma node_config_packetizer: "packetizer_config node_config = sample_config"
  by (simp add: packetizer_config_def node_config_def DefaultConfig_def sample_config_def)

definition working_tx :: tx_faults where
  "working_tx = \<lparr>begin_fault = None, insert_fault = None, update_fault = (\<lambda>_. None), commit_fault = None\<rparr>"

theorem statements_commute_witness:
  "both_orders (WritePacket None (sample_row 2 (Some [2]) [3])) (WriteSegment working_tx zero_time ''s'' 0 1 2 [9] [1, 2]) sample_db \<and>
   PacketHashes None None [1, 2] (snd (WritePacket None (sample_row 2 (Some [2]) [3]) sample_db)) =
     PacketHashes None None [1, 2] sample_db"
  using statements_commute [OF sample_db_wf, of "[1, 2]" None] by (simp add: sample_db_packets packet_columns_def)


theorem command_line_witness:
  "run_command (sample_world no_tpm (Inl (Err []))) [''status''] =
     Return (Some (Err (''unknown subcommand: status (use 'run' or 'provision')''))) \<and>
   run_command (sample_world no_tpm (Inl (Err []))) [''run'', ''now'', ''--config'', ''x''] =
     run_command (sample_world no_tpm (Inl (Err []))) [''run'']"
proof
  show "run_command (sample_world no_tpm (Inl (Err []))) [''status''] =
     Return (Some (Err (''unknown subcommand: status (use 'run' or 'provision')'')))"
    using command_line [where cmd = "''status''" and rest = "[]" and w = "sample_world no_tpm (Inl (Err []))"]
    by (simp add: run_command_def)
  show "run_command (sample_world no_tpm (Inl (Err []))) [''run'', ''now'', ''--config'', ''x''] =
     run_command (sample_world no_tpm (Inl (Err []))) [''run'']"
    using command_line [where cmd = "''run''" and word = "''now''" and rest = "[''--config'', ''x'']"
        and w = "sample_world no_tpm (Inl (Err []))"] by simp
qed

theorem startup_evidence_witness:
  "\<exists>d. runDaemon (sample_world echo_tpm (Inl (Err []))) DefaultConfig = Inr d \<and>
     (\<exists>k \<in> set (attestation_keys (buf (node d))). role k = ''ak_pub'' \<and> data k = [2])"
proof -
  let ?t = "\<lparr>dev = (), wcfg = tpm_config DefaultConfig, signPub = Some [1], akPub = Some [2]\<rparr>"
  have t: "TpmOpen (tpm_device (sample_world echo_tpm (Inl (Err [])))) (tpm_config DefaultConfig) = Inr ?t"
    by (simp add: TpmOpen_def checkHandles_def sample_world_def echo_tpm_def tpm_config_def DefaultConfig_def)
  obtain db where "persist_evidence (sample_world echo_tpm (Inl (Err []))) DefaultConfig ?t empty_database = Inr db"
    by (simp add: persist_evidence_def sample_world_def WriteAttestationKey_def KeyEvidence_of_def DefaultConfig_def
        empty_database_def Let_def)
  then obtain d where d: "runDaemon (sample_world echo_tpm (Inl (Err []))) DefaultConfig = Inr d"
    using t by (simp add: runDaemon_def sample_open)
  from startup_evidence [OF d] d show ?thesis by (auto simp: t)
qed

end
