(* ===== verification/Json_Fuel.thy ===== *)
theory Json_Fuel
  imports Json
begin

text \<open>
  The steps that \<^const>\<open>json_parse\<close> and \<^const>\<open>parse_str\<close> allow themselves are enough: with more of
  them the result is the same, so running out of steps is never the reason for a parse error.
\<close>

section \<open>The parser consumes its input\<close>

lemma length_skip_ws: "length (skip_ws s) \<le> length s"
  by (simp add: skip_ws_def length_dropWhile_le)

lemma skip_ws_Cons: "skip_ws s = c # r \<Longrightarrow> length r < length s"
  using length_skip_ws [of s] by simp

lemma unescape_shorter: "unescape s = Some (t, r) \<Longrightarrow> length r < length s"
  by (cases s) (auto simp: unescape_def hex4_def split: if_splits option.splits list.splits)

lemma parse_str_shorter: "parse_str n s = Some (t, r) \<Longrightarrow> length r < length s"
proof (induction n arbitrary: s t)
  case (Suc n)
  obtain c q where s: "s = c # q" using Suc.prems by (cases s) auto
  have rest: "length r < length s" if "parse_str n x = Some (u, r)" "length x \<le> length q" for x u
    using Suc.IH [OF that(1)] that(2) by (simp add: s)
  show ?case
  proof (cases "c = CHR 0x22 \<or> ch c < 32 \<or> c \<noteq> CHR 0x5C")
    case True
    then show ?thesis using Suc.prems rest by (auto simp: s split: if_splits)
  next
    case False
    then obtain u x where "unescape q = Some (u, x)" "map_option (apfst ((@) u)) (parse_str n x) = Some (t, r)"
      using Suc.prems by (auto simp: s split: option.splits)
    then show ?thesis using rest unescape_shorter [of q u x] by auto
  qed
qed simp

text \<open>The number of bytes bounds the steps inside a string.\<close>

lemma parse_str_fuel: "length s \<le> n \<Longrightarrow> parse_str (Suc n) s = parse_str n s"
proof (induction n arbitrary: s)
  case (Suc n)
  show ?case
  proof (cases s)
    case (Cons c q)
    have IH: "length x \<le> length q \<Longrightarrow> parse_str (Suc n) x = parse_str n x" for x
      using Suc.IH [of x] Suc.prems Cons by simp
    have "unescape q = Some (t, x) \<Longrightarrow> parse_str (Suc n) x = parse_str n x" for t x
      using unescape_shorter [of q t x] IH by simp
    then show ?thesis using IH [of q] IH [of "drop (utf8_len (c # q) - 1) q"]
      unfolding Cons parse_str.simps(3) [of "Suc n"] parse_str.simps(3) [of n] by (auto split: option.split)
  qed simp
qed simp

lemma parse_digits_shorter: "parse_digits s = Some (d, r) \<Longrightarrow> length r < length s"
  using length_dropWhile_le [of is_digit s]
  by (cases s) (auto simp: parse_digits_def Let_def split: if_splits intro: le_imp_less_Suc length_dropWhile_le)

lemma parse_num_shorter: "parse_num s = Some (l, r) \<Longrightarrow> length r < length s"
proof -
  assume "parse_num s = Some (l, r)"
  then obtain s1 i s2 f s3 e where s1: "length s1 \<le> length s" and p: "parse_int_part s1 = Some (i, s2)"
      "parse_frac_part s2 = Some (f, s3)" "parse_exp_part s3 = Some (e, r)"
    by (auto simp: parse_num_def Let_def split: if_splits option.splits list.splits)
      (metis length_Cons le_SucI le_refl list.sel(3))+
  have "length s2 < length s1"
    using p(1) parse_digits_shorter [of s1] by (auto simp: parse_int_part_def split: list.splits if_splits)
  moreover have "length s3 \<le> length s2"
    using p(2) parse_digits_shorter by (fastforce simp: parse_frac_part_def split: list.splits if_splits)
  moreover have "length r \<le> length s3"
    using p(3) parse_digits_shorter by (fastforce simp: parse_exp_part_def split: list.splits if_splits)
  ultimately show ?thesis using s1 by simp
qed

lemma expect_shorter: "expect lit v (c # q) = Some (x, r) \<Longrightarrow> lit \<noteq> [] \<Longrightarrow> length r \<le> length q"
  by (cases lit) (auto simp: expect_def split: if_splits)

definition shrinks :: "(string \<Rightarrow> ('a \<times> string) option) \<Rightarrow> bool" where
  "shrinks p \<longleftrightarrow> (\<forall>s x r. p s = Some (x, r) \<longrightarrow> length r < length s)"

lemma shrinksD: "shrinks p \<Longrightarrow> p s = Some (x, r) \<Longrightarrow> length r < length s"
  by (auto simp: shrinks_def)

lemma value_shrinks:
  assumes "\<And>d. shrinks (parse_elems n d)" "\<And>d. shrinks (parse_members n d)"
  shows "shrinks (parse_value (Suc n) d)"
  unfolding shrinks_def
proof (intro allI impI)
  fix s x r assume eq: "parse_value (Suc n) d s = Some (x, r)"
  then obtain c q where q: "skip_ws s = c # q" by (auto split: list.splits)
  note simps = parse_value.simps(2) [of n d s, unfolded q list.case]
  have "length r \<le> length q"
  proof -
    consider "c = CHR ''{''" | "c = CHR ''[''" | "c = CHR 0x22" | "c = CHR ''t''" | "c = CHR ''f''" | "c = CHR ''n''"
      | "c \<noteq> CHR ''{''" "c \<noteq> CHR ''[''" "c \<noteq> CHR 0x22" "c \<noteq> CHR ''t''" "c \<noteq> CHR ''f''" "c \<noteq> CHR ''n''" by blast
    then show ?thesis
    proof cases
      case 1
      then show ?thesis using eq [unfolded simps] shrinksD [OF assms(2), of "Suc d" q] skip_ws_Cons [of q]
        by (auto split: if_splits list.splits)
    next
      case 2
      then show ?thesis using eq [unfolded simps] shrinksD [OF assms(1), of "Suc d" q] skip_ws_Cons [of q]
        by (auto split: if_splits list.splits)
    next
      case 3
      then show ?thesis using eq [unfolded simps] parse_str_shorter [of "length q" q] by (auto simp: less_imp_le)
    next
      case 7
      then show ?thesis using eq [unfolded simps] parse_num_shorter [of "c # q"] by (auto simp: less_Suc_eq_le)
    qed (use eq [unfolded simps] in \<open>auto dest: expect_shorter\<close>)
  qed
  then show "length r < length s" using skip_ws_Cons [OF q] by simp
qed

lemma elems_shrinks:
  assumes "\<And>d. shrinks (parse_value n d)" "\<And>d. shrinks (parse_elems n d)"
  shows "shrinks (parse_elems (Suc n) d)"
  unfolding shrinks_def
proof (intro allI impI)
  fix s x r assume eq: "parse_elems (Suc n) d s = Some (x, r)"
  then obtain v q c t where q: "parse_value n d s = Some (v, q)" "skip_ws q = c # t"
    by (auto split: option.splits list.splits)
  have "length r \<le> length t"
    using eq q shrinksD [OF assms(2), of d t] by (auto split: if_splits)
  then show "length r < length s" using skip_ws_Cons [OF q(2)] shrinksD [OF assms(1) q(1)] by simp
qed

lemma members_shrinks:
  assumes "\<And>d. shrinks (parse_value n d)" "\<And>d. shrinks (parse_members n d)"
  shows "shrinks (parse_members (Suc n) d)"
  unfolding shrinks_def
proof (intro allI impI)
  fix s x r assume eq: "parse_members (Suc n) d s = Some (x, r)"
  then obtain c0 q k r2 c1 r3 v r4 c2 t where q: "skip_ws s = c0 # q" "parse_str (length q) q = Some (k, r2)"
      "skip_ws r2 = c1 # r3" "parse_value n d r3 = Some (v, r4)" "skip_ws r4 = c2 # t"
    by (auto split: option.splits list.splits if_splits)
  have "length r \<le> length t"
    using eq q shrinksD [OF assms(2), of d t] by (auto split: if_splits)
  then show "length r < length s"
    using skip_ws_Cons [OF q(1)] parse_str_shorter [OF q(2)] skip_ws_Cons [OF q(3)] shrinksD [OF assms(1) q(4)]
      skip_ws_Cons [OF q(5)] by simp
qed

lemma parse_shrinks: "shrinks (parse_value n d)" "shrinks (parse_elems n d)" "shrinks (parse_members n d)"
proof -
  have "(\<forall>d. shrinks (parse_value n d)) \<and> (\<forall>d. shrinks (parse_elems n d)) \<and> (\<forall>d. shrinks (parse_members n d))"
  proof (induction n)
    case 0
    show ?case by (simp add: shrinks_def)
  next
    case (Suc n)
    then show ?case by (intro conjI allI value_shrinks elems_shrinks members_shrinks) blast+
  qed
  then show "shrinks (parse_value n d)" "shrinks (parse_elems n d)" "shrinks (parse_members n d)" by blast+
qed

section \<open>Enough steps\<close>

declare parse_value.simps(2) [simp del] parse_elems.simps(2) [simp del] parse_members.simps(2) [simp del]

lemma parse_fuel:
  "(2 * length s + 1 \<le> n \<longrightarrow> parse_value (Suc n) d s = parse_value n d s) \<and>
   (2 * length s + 2 \<le> n \<longrightarrow> parse_elems (Suc n) d s = parse_elems n d s \<and>
      parse_members (Suc n) d s = parse_members n d s)"
proof (induction n arbitrary: s d)
  case (Suc n)
  have v: "parse_value (Suc n) e x = parse_value n e x" if "2 * length x + 1 \<le> n" for x e
    using Suc.IH that by blast
  have em: "parse_elems (Suc n) e x = parse_elems n e x" "parse_members (Suc n) e x = parse_members n e x"
    if "2 * length x + 2 \<le> n" for x e
    using Suc.IH that by blast+
  have "parse_value (Suc (Suc n)) d s = parse_value (Suc n) d s" if "2 * length s + 1 \<le> Suc n"
  proof (cases "skip_ws s")
    case (Cons c q)
    have "parse_elems (Suc n) (Suc d) q = parse_elems n (Suc d) q" "parse_members (Suc n) (Suc d) q = parse_members n (Suc d) q"
      using em skip_ws_Cons [OF Cons] that by simp_all
    then show ?thesis
      unfolding parse_value.simps(2) [of "Suc n"] parse_value.simps(2) [of n] Cons list.case
      by (simp split: list.split)
  qed (simp add: parse_value.simps(2))
  moreover have "parse_elems (Suc (Suc n)) d s = parse_elems (Suc n) d s" if "2 * length s + 2 \<le> Suc n"
  proof (cases "parse_value n d s")
    case (Some x)
    obtain w q where x: "x = (w, q)" by fastforce
    have "skip_ws q = c # t \<Longrightarrow> parse_elems (Suc n) d t = parse_elems n d t" for c t
      using em(1) [of t d] skip_ws_Cons [of q c t] shrinksD [OF parse_shrinks(1) Some [unfolded x]] that by simp
    then show ?thesis using v [of s d] that Some x
      unfolding parse_elems.simps(2) [of "Suc n"] parse_elems.simps(2) [of n] by (auto split: list.split)
  qed (use v [of s d] that in \<open>simp add: parse_elems.simps(2)\<close>)
  moreover have "parse_members (Suc (Suc n)) d s = parse_members (Suc n) d s" if "2 * length s + 2 \<le> Suc n"
  proof -
    have "parse_value (Suc n) d r3 = parse_value n d r3 \<and>
        (parse_value n d r3 = Some (w, r4) \<longrightarrow> skip_ws r4 = c2 # t \<longrightarrow> parse_members (Suc n) d t = parse_members n d t)"
      if "skip_ws s = c0 # q" "parse_str (length q) q = Some (k, r2)" "skip_ws r2 = c1 # r3"
      for c0 q k r2 c1 r3 w r4 c2 t
    proof -
      have l: "length r3 < length s"
        using skip_ws_Cons [OF that(1)] parse_str_shorter [OF that(2)] skip_ws_Cons [OF that(3)] by simp
      then have "length t < length s" if "parse_value n d r3 = Some (w, r4)" "skip_ws r4 = c2 # t"
        using shrinksD [OF parse_shrinks(1) that(1)] skip_ws_Cons [OF that(2)] by simp
      then show ?thesis using v [of r3 d] em(2) [of t d] l \<open>2 * length s + 2 \<le> Suc n\<close> by auto
    qed
    then show ?thesis
      unfolding parse_members.simps(2) [of "Suc n"] parse_members.simps(2) [of n]
      by (fastforce split: list.split option.split)
  qed
  ultimately show ?case by blast
qed simp

lemma json_parse_fuel:
  assumes "2 * length s + 1 \<le> n"
  shows "json_parse s = (case parse_value n 0 s of None \<Rightarrow> None | Some (v, r) \<Rightarrow> if skip_ws r = [] then Some v else None)"
proof -
  have "parse_value (2 * length s + 1 + k) 0 s = parse_value (2 * length s + 1) 0 s" for k
    using parse_fuel by (induction k) auto
  then show ?thesis using assms by (metis json_parse_def le_add_diff_inverse)
qed

end
