(* ===== verification/Spec2Isabelle.thy ===== *)
theory Spec2Isabelle
  imports Daemon_Start Json_Fuel
begin

text \<open>
  \<^bold>\<open>Verification of the AXM Edge daemon\<close> (Go, module \<open>axm-sfn\<close>).

  \<^bold>\<open>The program.\<close> \<open>axm-edge\<close> watches a 3D printer through Moonraker's WebSocket API and keeps a
  tamper-evident record of the print. The Moonraker client (\<open>internal/moonraker\<close>) turns notifications
  into status deltas on a channel. The custody packetizer (\<open>internal/custody\<close>) merges deltas into a
  cache and, at every tick of its clock while a print is active, writes one custody packet
  (\<open>internal/telemetry\<close>) to the trust buffer (\<open>internal/hotbuffer\<close>, SQLite): canonical JSON, its SHA-256,
  the TPM's signature (\<open>internal/tpm\<close>) and a BLAKE3 hash that chains the packets of a session. TPM quotes
  are taken at intervals and at lifecycle edges, a policy engine (\<open>internal/policy\<close>) judges each snapshot.
  The uploader (\<open>internal/uploader\<close>) takes contiguous ranges of pending packets, records a segment with
  a Merkle root and posts it. \<open>cmd/axm-edge/main.go\<close> reads the configuration (\<open>internal/config\<close>) and
  starts the goroutines.

  \<^bold>\<open>Theories and code.\<close>
  \<^item> \<open>Prelude\<close>: bytes, strings, hexadecimal and decimal text, errors as values with their wrapping.
  \<^item> \<open>Sha256\<close>, \<open>Float64\<close>, \<open>GoTime\<close>, \<open>Json\<close>: what the code uses of Go's standard library, executable:
    \<open>crypto/sha256\<close>; IEEE double precision with parsing and printing; instants, durations and
    RFC 3339 text; JSON printing, parsing and unmarshalling. \<open>Json_Fuel\<close> shows that the bound on the
    parser's steps is never the reason for an error; \<open>Json_Text\<close> that a printed object delimits itself.
  \<^item> \<open>Config\<close>: \<open>config.go\<close>. \<open>Moonraker_Types\<close>: \<open>types.go\<close>. \<open>Telemetry\<close>: \<open>packet.go\<close>, with the
    canonical serialization.
  \<^item> \<open>Policy\<close>: \<open>engine.go\<close>, the evaluator as a record with its counters; decisions refined to histories.
  \<^item> \<open>Hotbuffer\<close>: \<open>buffer.go\<close> and \<open>hashes.go\<close>; the database is a record of tables, every statement a
    function with its possible failure as an argument and SQLite's constraints as branches; the locale
    \<open>custody_ledger\<close> is what the packetizer relies on. \<open>Hotbuffer_Props\<close>: invariant and properties.
  \<^item> \<open>Tpm\<close>: \<open>attestation.go\<close> over a record \<open>tpm_api\<close> of the TPM's commands.
  \<^item> \<open>Custody\<close>: \<open>packetizer.go\<close>, one definition per handler and per section of \<open>onTick\<close>.
    \<open>Custody_Chain\<close> (position in the chain), \<open>Custody_Props\<close> (an active tick writes its packet),
    \<open>Custody_Delta\<close> (merging and lifecycle), \<open>Custody_Evidence\<close> (digests, quotes, silence, policy),
    \<open>Custody_Tamper\<close> (the last hash commits to the session).
  \<^item> \<open>Merkle\<close> and \<open>Uploader\<close>: \<open>uploader.go\<close>. \<open>merkleReduce\<close> is a \<open>partial_function\<close>, shown to return
    and to be the tree hash of RFC 6962. \<open>Uploader_Props\<close>: the locales \<open>batch_queue\<close> and
    \<open>live_batch_queue\<close> do the accounting of queues emptied in batches; the flush is an instance.
  \<^item> \<open>Moonraker_Client\<close>: \<open>client.go\<close> as a state machine. The state has the struct's fields and the
    point where each goroutine waits; an event is what one goroutine does up to its next blocking
    operation. \<open>Moonraker_Props\<close>: the channel, and that no run gets past \<open>identify\<close>.
  \<^item> \<open>Daemon\<close>: \<open>main.go\<close>. The \<open>node\<close> is packetizer, uploader and buffer under any sequence of deltas,
    ticks and flushes; the \<open>daemon\<close> is the node with the client as the only source of deltas.
    \<open>Daemon_Props\<close>: invariants over reachable states. \<open>Daemon_Start\<close>: start, command line, concrete
    runs. The properties that span all components are in this theory.

  \<^bold>\<open>What the theorems show.\<close> For the node, whatever fails and however its loops interleave: every
  session in the buffer is a gap-free hash chain, append-only in every column but the upload marks,
  and every row it adds recomputes from its stored columns as \<open>docs/STREAM_FORMAT.md\<close> says, except rows
  whose signature was made and lost (\<open>custody_chain\<close>; the exception is the defect that
  \<open>signature_lost_without_quote\<close> shows, and it cannot occur without a TPM). An active tick records exactly its
  packet, given field by field and column by column (\<open>active_tick_records\<close>); equal heads mean equal
  sessions or a hash collision (\<open>chain_tamper_evident\<close>, which asks less of the rows: some signature under the
  hash, so that it holds with lost signatures too); segments are all or nothing, cover each packet at most once,
  are announced and drain the backlog (\<open>segment_atomic\<close>, \<open>flush_records_segment\<close>, \<open>no_double_upload\<close>,
  \<open>uploader_drains\<close>), and roots are the tree hash of RFC 6962 and commit to the hashes (\<open>merkle_rfc6962\<close>,
  \<open>segment_root_binding\<close>). Handlers are whole steps because their statements commute (\<open>statements_commute\<close>).
  For the parts: merging of deltas, sessions, silence, quotes, policy with grace, PCR selection, evidence
  of keys, the command line, the channel of updates. And where the code does not do what it
  means to: the client's handshake cannot complete, so the daemon as it is put together records
  nothing; the uploader waits for a session that does not exist; a failed post is not retried; a
  signature without a quote is lost; the configuration is not validated; and others, each with its theorem.

  \<^bold>\<open>Environment.\<close> Clock readings, random bytes, failures of statements, answers of the network and of
  the TPM are arguments or parts of events, unconstrained unless a theorem says so. BLAKE3
  (\<open>zeebo/blake3\<close>), the TPM (\<open>go-tpm\<close>) and the YAML decoder are parameters; theorems that need a
  digest of 32 bytes say so, and their witnesses instantiate it. The WebSocket and SQLite
  libraries appear as what their calls return.

  \<^bold>\<open>Bounds.\<close> Sequence numbers are 64-bit words and wrap; SQLite refuses those from \<open>2^63\<close> on, which
  the model has as an error branch. Request ids are 64-bit. Row ids, the silence counter and the
  policy's violation counters are unbounded integers: ids are bounded by the number of inserts, the silence counter
  is reset above its limit, violation counters grow by at most one per rule and tick. SQLite's limit on the number of
  placeholders of a query is one of the failures a statement may report, not a branch of its own. The
  parsers' fuel is twice the input's length plus one, which \<open>json_parse_fuel\<close> shows to be enough.

  \<^bold>\<open>Not modelled.\<close> Logging; closing of handles at shutdown; SQL text, pragmas and files; time passing
  between events (timers fire at any moment); the data race that concurrent writes to one WebSocket
  connection would be; the Python spoke, the web pages and the documents.
\<close>

section \<open>Properties of the whole\<close>

text \<open>C1: The custody chain. Start the node on a well-formed buffer whose sessions have no gaps. Then in
  every state it can reach, whatever deltas arrive, whatever fails in the TPM, the database and the
  network, and however ticks and flushes interleave: the database is well formed; every session is
  numbered from 0 without a gap, each packet naming the hash of the one before; and the packets are
  append-only in every column but the marks of the upload: what was recorded is never changed,
  dropped or reordered. Every row that was added is sealed: its JSON is the marshalled packet of
  its session and number, its digest is that of its JSON, and its chain hash recomputes from its stored
  columns by rule 3 of \<open>docs/STREAM_FORMAT.md\<close>, an absent signature contributing nothing, and a
  stored signature being one the TPM made for this JSON. The one exception is the row whose signature the
  TPM made and the buffer did not store (\<open>signature_lost_without_quote\<close> shows how), whose hash covers
  that signature; without a TPM there is no exception.\<close>

theorem custody_chain:
  assumes "node_reach B api n0 n" "pktz n0 = NewPacketizer cfg t"
    "db_wf (buf n0)" "\<forall>s. gap_free (chain (buf n0) s)"
  shows "db_wf (buf n) \<and> (\<forall>s. gap_free (chain (buf n) s)) \<and>
    (\<exists>new. map evidence (packets (buf n)) = map evidence (packets (buf n0)) @ new \<and>
      (\<forall>r \<in> set new. row_sealed api B r \<and> (t = None \<longrightarrow> row_recomputes B r)))"
proof -
  have start: "node_ok n0" using assms(2-4) by (simp add: node_ok_def in_position_NewPacketizer)
  have t: "tpm (pktz n0) = t" using assms(2) by (simp add: NewPacketizer_def)
  show ?thesis using node_ok_reach [OF assms(1) start] node_reach_evidence [OF assms(1) start]
    by (simp add: node_ok_def in_position_def t)
qed

theorem custody_chain_witness:
  "\<exists>n r. node_reach sha256 echo_tpm sample_node n \<and>
     r \<in> set (packets (buf n)) \<and> session_id r = hex_encode (filled 16 [1, 2, 3]) \<and> row_recomputes sha256 (evidence r)"
proof (rule sample_node_runs [of sample_node echo_tpm])
  show "pktz sample_node = NewPacketizer sample_config None" "buf sample_node = empty_database"
    by (simp_all add: sample_node_def)
  fix n assume n: "node_reach sha256 echo_tpm sample_node n"
    "session_rows (buf n) (hex_encode (filled 16 [1, 2, 3])) \<noteq> []"
  then obtain r where r: "r \<in> set (packets (buf n))" "session_id r = hex_encode (filled 16 [1, 2, 3])"
    by (auto simp: session_rows_def filter_empty_conv)
  obtain new where "map evidence (packets (buf n)) = map evidence (packets (buf sample_node)) @ new"
    "\<forall>r \<in> set new. row_recomputes sha256 r"
    using custody_chain [OF n(1), of sample_config None] by (auto simp: sample_node_def)
  moreover have "packets (buf sample_node) = []" by (simp add: sample_node_def empty_database_def)
  ultimately have "\<forall>x \<in> set (map evidence (packets (buf n))). row_recomputes sha256 x" by simp
  then show ?thesis using r n by auto
qed

text \<open>C34: The uploader waits for a session that does not exist. \<open>main.go\<close> runs it for the session
  \<open>NodeLabel-session\<close>, but the packetizer's session ids are hexadecimal. So a daemon that comes up on a
  buffer without packets of that name, even if deltas reach it and however its loops run, never
  records a segment, never marks a packet as uploaded and posts nothing.\<close>

theorem uploader_wrong_session:
  assumes "runDaemon w cfg = Inr d0" "node_reach B api (node d0) n"
    "\<forall>r \<in> set (packets (buf (node d0))). session_id r \<noteq> NodeLabel (Session cfg) @ ''-session''"
  shows "posts n = [] \<and> segments (buf n) = segments (buf (node d0)) \<and>
    (\<exists>new. map (\<lambda>r. (pk_id r, upload_state r)) (packets (buf n)) =
       map (\<lambda>r. (pk_id r, upload_state r)) (packets (buf (node d0))) @ new \<and> (\<forall>x \<in> set new. snd x = ''pending''))"
proof -
  obtain t where t: "pktz (node d0) = NewPacketizer (packetizer_config cfg) t" using start_state(1) [OF assms(1)] ..
  have dash: "dashless (node d0)"
    using assms(3) start_state(4) [OF assms(1)] t by (simp add: dashless_def NewPacketizer_def)
  have "dashless n \<and> posts n = [] \<and> segments (buf n) = segments (buf (node d0)) \<and> unmarked (node d0) n"
    using assms(2)
  proof (induction rule: node_reach.induct)
    case start
    show ?case using dash start_state(5) [OF assms(1)] by (simp add: unmarked_def)
  next
    case (step n ev n')
    then have "dashless n" "unmarked (node d0) n" by blast+
    from dashless_step [OF this(1) step.hyps(2)] unmarked_step [OF this step.hyps(2)] step.IH show ?case by auto
  qed
  then show ?thesis by (simp add: unmarked_def)
qed

theorem uploader_wrong_session_witness:
  "\<exists>d0 n. runDaemon (sample_world no_tpm (Inl (Err []))) node_config = Inr d0 \<and>
     node_reach sha256 no_tpm (node d0) n \<and>
     session_rows (buf n) (hex_encode (filled 16 [1, 2, 3])) \<noteq> [] \<and> posts n = [] \<and> segments (buf n) = []"
proof (rule sample_daemon_up [of "Inl (Err [])" node_config])
  fix d0 assume up: "runDaemon (sample_world no_tpm (Inl (Err []))) node_config = Inr d0" and b: "buf (node d0) = empty_database"
  have "pktz (node d0) = NewPacketizer sample_config None"
    using sample_daemon_pktz [OF up] by (simp add: node_config_packetizer)
  then obtain n where n: "node_reach sha256 no_tpm (node d0) n"
    "session_rows (buf n) (hex_encode (filled 16 [1, 2, 3])) \<noteq> []" using b by (rule sample_node_runs)
  from uploader_wrong_session [OF up n(1)] b show ?thesis using up n by (auto simp: empty_database_def)
qed

text \<open>C33: The daemon as it is put together records nothing. Since no delta ever leaves the client,
  the packetizer never sees a print: in every state the daemon can reach, the packetizer is as it
  was at the start and the buffer has exactly the packets it was opened with.\<close>

theorem daemon_records_nothing:
  assumes "runDaemon w cfg = Inr d0" "daemon_reach B api d0 d"
  shows "pktz (node d) = pktz (node d0) \<and>
    map row_content (packets (buf (node d))) = map row_content (packets (buf (node d0)))"
proof -
  let ?c = "NewClient (Endpoint (Moonraker cfg)) (APIKey (Moonraker cfg)) (ClientName (Moonraker cfg))
    (ClientVersion (Moonraker cfg)) (ReconnectDelay (Moonraker cfg)) (Some (moon_objects cfg))"
  have "idle_daemon ?c d \<and> pktz (node d) = pktz (node d0) \<and>
      map row_content (packets (buf (node d))) = map row_content (packets (buf (node d0)))"
    using assms(2)
  proof (induction rule: daemon_reach.induct)
    case start
    obtain t where "pktz (node d0) = NewPacketizer (packetizer_config cfg) t" using start_state(1) [OF assms(1)] ..
    then show ?case by (simp add: idle_daemon_def start_state(2) [OF assms(1)] unanswered_start NewPacketizer_def)
  next
    case (step d ev d')
    have "idle_daemon ?c d" using step.IH by blast
    from idle_daemon_step [OF this step.hyps(2)] step.IH show ?case by auto
  qed
  then show ?thesis by blast
qed

theorem daemon_records_nothing_witness:
  "\<exists>d0 d. runDaemon (sample_world no_tpm (Inl (Err []))) DefaultConfig = Inr d0 \<and>
     daemon_step sha256 no_tpm (Moon Go) d0 = Some d \<and> packets (buf (node d)) = []"
proof (rule sample_daemon_up [of "Inl (Err [])" DefaultConfig])
  fix d0 assume up: "runDaemon (sample_world no_tpm (Inl (Err []))) DefaultConfig = Inr d0" and b: "buf (node d0) = empty_database"
  obtain d where d: "daemon_step sha256 no_tpm (Moon Go) d0 = Some d"
    using start_state(2,6) [OF up] by (simp add: daemon_step_def run_top_def client_start_def)
  have "daemon_reach sha256 no_tpm d0 d" using d daemon_reach.start daemon_reach.step by metis
  from daemon_records_nothing [OF up this] show ?thesis using up d b by (simp add: empty_database_def)
qed

end
